(* ===== verification/Gadget_Prelude.thy ===== *)
theory Gadget_Prelude
  imports Main "HOL-Library.Word"
begin

text \<open>
  Shared vocabulary of the development.

  \<^item> Bytes and byte strings.  A Rust \<^verbatim>\<open>&[u8]\<close>, \<^verbatim>\<open>Vec<u8>\<close>, \<^verbatim>\<open>String\<close> or
    \<^verbatim>\<open>&str\<close> is a list of 8-bit words (a \<^verbatim>\<open>str\<close> is its UTF-8 bytes); byte-string literals
    are written \<open>ascii ''OKAY''\<close>.
  \<^item> Integers in memory: little- and big-endian encoders and decoders with their round trips.
  \<^item> \<^verbatim>\<open>std::io::Error\<close> as a datatype (\<open>io_error\<close>) with its kind, and \<open>outcome\<close>, the result of a
    function that may return \<^verbatim>\<open>Ok\<close>, return \<^verbatim>\<open>Err\<close> or panic.
  \<^item> Error text.  A message is kept as a structured value (\<open>err_text\<close>): the literal, the text the
    operating system has for an error number, a prefix in front of another message, or one message after
    another.
\<close>

unbundle bit_operations_syntax

named_theorems wire_simps \<open>lengths and round trips of wire encodings\<close>

type_synonym byte = "8 word"
type_synonym bytes = "byte list"

subsection \<open>Byte-string literals\<close>

definition ascii :: "string \<Rightarrow> bytes" where
  "ascii s = map of_char s"

lemma ascii_Nil [simp]: "ascii [] = []"
  by (simp add: ascii_def)

lemma ascii_Cons [simp]: "ascii (c # s) = of_char c # ascii s"
  by (simp add: ascii_def)

lemma length_ascii [simp]: "length (ascii s) = length s"
  by (simp add: ascii_def)

subsection \<open>Little-endian and big-endian integers\<close>

text \<open>\<open>to_le_bytes\<close>/\<open>from_le_bytes\<close> of a k-byte integer, through its value as a natural number.\<close>

fun le_bytes :: "nat \<Rightarrow> nat \<Rightarrow> bytes" where
  "le_bytes 0 x = []"
| "le_bytes (Suc k) x = of_nat x # le_bytes k (x div 256)"

lemma le_bytes_numeral [simp]:
  "le_bytes (numeral k) x = of_nat x # le_bytes (pred_numeral k) (x div 256)"
  by (simp only: numeral_eq_Suc le_bytes.simps)

fun of_le :: "bytes \<Rightarrow> nat" where
  "of_le [] = 0"
| "of_le (b # bs) = unat b + 256 * of_le bs"

definition be_bytes :: "nat \<Rightarrow> nat \<Rightarrow> bytes" where
  "be_bytes k x = rev (le_bytes k x)"

definition of_be :: "bytes \<Rightarrow> nat" where
  "of_be bs = of_le (rev bs)"

lemma length_le_bytes [simp, wire_simps]: "length (le_bytes k x) = k"
  by (induction k x rule: le_bytes.induct) auto

lemma length_be_bytes [simp, wire_simps]: "length (be_bytes k x) = k"
  by (simp add: be_bytes_def)

lemma byte_less: "unat (b :: byte) < 256"
  using unsigned_less [of b] by simp

lemma unat_of_nat_byte: "unat (of_nat x :: byte) = x mod 256"
  by (simp add: unat_of_nat)

lemma of_le_le_bytes [wire_simps]: "of_le (le_bytes k x) = x mod 256 ^ k"
proof (induction k x rule: le_bytes.induct)
  case (2 k x)
  have "x mod (256 * 256 ^ k) = 256 * (x div 256 mod 256 ^ k) + x mod 256"
    by (rule mod_mult2_eq)
  with 2 show ?case
    by (simp add: unat_of_nat_byte)
qed simp

lemma le_bytes_of_le [wire_simps]: "le_bytes (length bs) (of_le bs) = bs"
proof (induction bs)
  case (Cons b bs)
  have "unat b < 256"
    by (rule byte_less)
  then have "(unat b + 256 * of_le bs) div 256 = of_le bs"
    by simp
  moreover have "(of_nat (unat b + 256 * of_le bs) :: byte) = b"
    by (rule word_unat_eq_iff [THEN iffD2]) (use \<open>unat b < 256\<close> in \<open>simp only: unat_of_nat_byte, simp\<close>)
  ultimately show ?case
    using Cons by simp
qed simp

lemma of_le_bound: "of_le bs < 256 ^ length bs"
proof (induction bs)
  case (Cons b bs)
  have "unat b < 256"
    by (rule byte_less)
  with Cons show ?case
    by simp
qed simp

lemma of_be_be_bytes [wire_simps]: "of_be (be_bytes k x) = x mod 256 ^ k"
  by (simp add: of_be_def be_bytes_def of_le_le_bytes)

lemma be_bytes_of_be [wire_simps]: "be_bytes (length bs) (of_be bs) = bs"
  using le_bytes_of_le [of "rev bs"] by (simp add: of_be_def be_bytes_def)

subsection \<open>I/O errors\<close>

datatype err_text =
    Text string
  | OsText nat
  | Prefixed string err_text
  | Appended err_text err_text

datatype error_kind =
    NotFound | PermissionDenied | ConnectionAborted | NotConnected | BrokenPipe | AlreadyExists
  | WouldBlock | InvalidInput | InvalidData | TimedOut | WriteZero | Interrupted | UnexpectedEof
  | OutOfMemory | Other | Uncategorized

datatype io_error =
    Os nat
  | Custom error_kind err_text

text \<open>Linux error numbers the sources compare against.\<close>

abbreviation (input) "EINTR \<equiv> (4 :: nat)"
abbreviation (input) "EAGAIN \<equiv> (11 :: nat)"
abbreviation (input) "ENODEV \<equiv> (19 :: nat)"
abbreviation (input) "EIDRM \<equiv> (43 :: nat)"
abbreviation (input) "ECONNABORTED \<equiv> (103 :: nat)"
abbreviation (input) "ENOTCONN \<equiv> (107 :: nat)"
abbreviation (input) "ESHUTDOWN \<equiv> (108 :: nat)"

text \<open>The standard library's decoding of an error number into a kind, for the kinds above.\<close>

definition decode_error_kind :: "nat \<Rightarrow> error_kind" where
  "decode_error_kind n =
    (if n = 2 then NotFound
     else if n = 1 \<or> n = 13 then PermissionDenied
     else if n = 4 then Interrupted
     else if n = 11 then WouldBlock
     else if n = 17 then AlreadyExists
     else if n = 22 then InvalidInput
     else if n = 32 then BrokenPipe
     else if n = 103 then ConnectionAborted
     else if n = 107 then NotConnected
     else if n = 110 then TimedOut
     else Uncategorized)"

fun kind :: "io_error \<Rightarrow> error_kind" where
  "kind (Os n) = decode_error_kind n"
| "kind (Custom k _) = k"

fun raw_os_error :: "io_error \<Rightarrow> nat option" where
  "raw_os_error (Os n) = Some n"
| "raw_os_error (Custom _ _) = None"

text \<open>\<^verbatim>\<open>io::Error::to_string\<close> and \<^verbatim>\<open>io::Error::other\<close>.\<close>

fun err_to_string :: "io_error \<Rightarrow> err_text" where
  "err_to_string (Os n) = OsText n"
| "err_to_string (Custom _ t) = t"

abbreviation other_error :: "string \<Rightarrow> io_error" where
  "other_error s \<equiv> Custom Other (Text s)"

text \<open>The result of a call: \<^verbatim>\<open>Ok\<close>, \<^verbatim>\<open>Err\<close>, or a panic.\<close>

datatype 'a outcome = Ok 'a | Err io_error | Panic

fun is_Ok :: "'a outcome \<Rightarrow> bool" where
  "is_Ok (Ok _) = True"
| "is_Ok _ = False"

subsection \<open>Options and lists\<close>

definition unwrap_or :: "'a \<Rightarrow> 'a option \<Rightarrow> 'a" where
  "unwrap_or d x = (case x of None \<Rightarrow> d | Some v \<Rightarrow> v)"

text \<open>\<^verbatim>\<open>iter().position(p)\<close>.\<close>

fun position :: "('a \<Rightarrow> bool) \<Rightarrow> 'a list \<Rightarrow> nat option" where
  "position p [] = None"
| "position p (x # xs) = (if p x then Some 0 else map_option Suc (position p xs))"

lemma position_None_iff: "position p xs = None \<longleftrightarrow> (\<forall>x\<in>set xs. \<not> p x)"
  by (induction xs) auto

lemma position_SomeD:
  "position p xs = Some i \<Longrightarrow> i < length xs \<and> p (xs ! i) \<and> (\<forall>j<i. \<not> p (xs ! j))"
proof (induction xs arbitrary: i)
  case (Cons x xs)
  then show ?case
    by (cases i) (auto split: if_splits simp: less_Suc_eq_0_disj)
qed simp

lemma position_append:
  "position p (xs @ ys) =
    (case position p xs of Some i \<Rightarrow> Some i | None \<Rightarrow> map_option (\<lambda>i. length xs + i) (position p ys))"
  by (cases "position p ys"; induction xs) (auto split: option.splits)

lemma position_skip:
  "(\<forall>x\<in>set xs. \<not> p x) \<Longrightarrow> position p (xs @ y # ys) = (if p y then Some (length xs) else position p (xs @ y # ys))"
  by (simp add: position_append position_None_iff [THEN iffD2])

lemma position_le_length: "position p xs = Some i \<Longrightarrow> i < length xs"
  using position_SomeD by blast

text \<open>Updating one element of an arena.\<close>

definition list_modify :: "nat \<Rightarrow> ('a \<Rightarrow> 'a) \<Rightarrow> 'a list \<Rightarrow> 'a list" where
  "list_modify i f xs = (if i < length xs then xs[i := f (xs ! i)] else xs)"

lemma length_list_modify [simp]: "length (list_modify i f xs) = length xs"
  by (simp add: list_modify_def)

lemma nth_list_modify:
  "j < length xs \<Longrightarrow> list_modify i f xs ! j = (if i = j then f (xs ! j) else xs ! j)"
  by (auto simp: list_modify_def)

lemma nth_list_modify_same [simp]:
  "i < length xs \<Longrightarrow> list_modify i f xs ! i = f (xs ! i)"
  by (simp add: nth_list_modify)

lemma nth_list_modify_other [simp]:
  "i \<noteq> j \<Longrightarrow> j < length xs \<Longrightarrow> list_modify i f xs ! j = xs ! j"
  by (simp add: nth_list_modify)

end
