(* ===== verification/Bytes_Mut.thy ===== *)
theory Bytes_Mut
  imports Gadget_Prelude
begin

text \<open>
  The growable buffer of the vendored \<^verbatim>\<open>bytes\<close> crate, as its contents and its capacity.

  Buffers travel from a producer to the drain task and back through a recycling queue, and the length
  of a USB read is the capacity of the buffer handed to it, so the capacity is part of the model.
  \<open>reserve\<close> leaves a buffer alone that already has the room; when it grows, the model takes the
  smallest capacity the crate's contract allows (the allocator may round it up).  The panics of
  \<^verbatim>\<open>split_to\<close> and \<^verbatim>\<open>split_off\<close> on an index out of range are left to the callers, which compare first.
\<close>

record BytesMut =
  data :: bytes
  cap :: nat

definition with_capacity :: "nat \<Rightarrow> BytesMut" where
  "with_capacity c = \<lparr>data = [], cap = c\<rparr>"

definition bm_len :: "BytesMut \<Rightarrow> nat" where
  "bm_len b = length (data b)"

definition reserve :: "nat \<Rightarrow> BytesMut \<Rightarrow> BytesMut" where
  "reserve additional b =
    (if additional \<le> cap b - bm_len b then b else b\<lparr>cap := bm_len b + additional\<rparr>)"

definition extend_from_slice :: "bytes \<Rightarrow> BytesMut \<Rightarrow> BytesMut" where
  "extend_from_slice xs b = (let b' = reserve (length xs) b in b'\<lparr>data := data b' @ xs\<rparr>)"

definition bm_truncate :: "nat \<Rightarrow> BytesMut \<Rightarrow> BytesMut" where
  "bm_truncate n b = (if n \<le> bm_len b then b\<lparr>data := take n (data b)\<rparr> else b)"

definition clear :: "BytesMut \<Rightarrow> BytesMut" where
  "clear b = b\<lparr>data := []\<rparr>"

definition resize :: "nat \<Rightarrow> byte \<Rightarrow> BytesMut \<Rightarrow> BytesMut" where
  "resize n v b =
    (if n < bm_len b then bm_truncate n b
     else if n - bm_len b = 0 then b
     else let b' = reserve (n - bm_len b) b
       in b'\<lparr>data := data b' @ replicate (n - bm_len b) v\<rparr>)"

text \<open>\<open>split_to at b\<close> is the pair of the returned front handle and what \<open>self\<close> keeps.\<close>

definition split_to :: "nat \<Rightarrow> BytesMut \<Rightarrow> BytesMut \<times> BytesMut" where
  "split_to at b =
    (\<lparr>data = take at (data b), cap = at\<rparr>, \<lparr>data = drop at (data b), cap = cap b - at\<rparr>)"

text \<open>\<open>split_off at b\<close> is the pair of the returned back handle and what \<open>self\<close> keeps.\<close>

definition split_off :: "nat \<Rightarrow> BytesMut \<Rightarrow> BytesMut \<times> BytesMut" where
  "split_off at b =
    (\<lparr>data = drop at (data b), cap = cap b - at\<rparr>, \<lparr>data = take at (data b), cap = at\<rparr>)"

definition bm_wf :: "BytesMut \<Rightarrow> bool" where
  "bm_wf b \<longleftrightarrow> bm_len b \<le> cap b"

lemma data_simps [simp]:
  "data (with_capacity c) = []"
  "data (reserve n b) = data b"
  "data (extend_from_slice xs b) = data b @ xs"
  "data (bm_truncate n b) = take n (data b)"
  "data (clear b) = []"
  by (simp_all add: with_capacity_def reserve_def extend_from_slice_def bm_truncate_def clear_def
      bm_len_def Let_def)

lemma data_resize [simp]:
  "data (resize n v b) = take n (data b) @ replicate (n - length (data b)) v"
  by (simp add: resize_def bm_len_def Let_def)

lemma data_split [simp]:
  "data (fst (split_to n b)) = take n (data b)" "data (snd (split_to n b)) = drop n (data b)"
  "data (fst (split_off n b)) = drop n (data b)" "data (snd (split_off n b)) = take n (data b)"
  by (simp_all add: split_to_def split_off_def)

lemma bm_wf_simps [simp]:
  "bm_wf (with_capacity c)"
  "bm_wf b \<Longrightarrow> bm_wf (reserve n b)"
  "bm_wf b \<Longrightarrow> bm_wf (extend_from_slice xs b)"
  "bm_wf b \<Longrightarrow> bm_wf (bm_truncate n b)"
  "bm_wf b \<Longrightarrow> bm_wf (clear b)"
  "bm_wf b \<Longrightarrow> bm_wf (resize n v b)"
  by (auto simp: bm_wf_def with_capacity_def reserve_def extend_from_slice_def bm_truncate_def clear_def
      resize_def bm_len_def Let_def)

lemma bm_wf_split [simp]:
  "bm_wf b \<Longrightarrow> bm_wf (fst (split_to n b))" "bm_wf b \<Longrightarrow> bm_wf (snd (split_to n b))"
  "bm_wf b \<Longrightarrow> bm_wf (fst (split_off n b))" "bm_wf b \<Longrightarrow> bm_wf (snd (split_off n b))"
  by (auto simp: bm_wf_def split_to_def split_off_def bm_len_def)

end
