(* ===== verification/Block_Channel.thy ===== *)
theory Block_Channel
  imports Bytes_Mut
begin

text \<open>
  The tasks of one transfer (\<^verbatim>\<open>crates/summit-usbgadget-swupdate/src/stream.rs\<close>): a bounded queue of
  blocks, the drain task that writes them to the backend in order, and the status task that connects,
  starts the drain task and then waits for the verdict.

  A \<open>backend\<close> is the state of these tasks and channels; \<open>backend_step\<close> is what a task does between
  two await points, \<open>owner_step\<close> what the holder of the channel ends can do, \<open>try_push\<close> the
  non-blocking send.  The interface the session relies on is the locale \<open>block_channel\<close>: whatever
  the interleaving, the bytes delivered are a prefix of the bytes accepted, and all of them when the
  writer was closed.
\<close>

subsection \<open>The tasks of one transfer\<close>

datatype status_task = Connecting | Watching | Joined "unit outcome" | Cancelled

datatype drain_task = NotSpawned | Receiving | Writing BytesMut | DrainShut | DrainFailed

record backend =
  use_pipe :: bool
  mode_arg :: bytes
  capacity :: nat
  queue :: "BytesMut list"
  sender :: bool
  recycled :: "BytesMut list"
  recycle_receiver :: bool
  status_state :: status_task
  drain_state :: drain_task
  written :: bytes

text \<open>\<open>stream::spawn\<close>: the channels exist at once, the connection is made by the status task.\<close>

definition spawn :: "bool \<Rightarrow> bytes \<Rightarrow> nat \<Rightarrow> backend" where
  "spawn pipe mode c = \<lparr>use_pipe = pipe, mode_arg = mode, capacity = c, queue = [], sender = True,
     recycled = [], recycle_receiver = True, status_state = Connecting, drain_state = NotSpawned,
     written = []\<rparr>"

text \<open>The receiver is owned by the status task until it has connected, then by the drain task.\<close>

definition rx_alive :: "backend \<Rightarrow> bool" where
  "rx_alive b = (case drain_state b of
      NotSpawned \<Rightarrow> status_state b = Connecting
    | Receiving \<Rightarrow> True | Writing _ \<Rightarrow> True | DrainShut \<Rightarrow> False | DrainFailed \<Rightarrow> False)"

datatype backend_action =
    Connected
  | ConnectFailed io_error
  | Verdict "io_error + unit"
  | TaskPanics
  | DrainRecv
  | DrainWrote
  | DrainWriteErr nat
  | DrainClose

definition drop_queue :: "backend \<Rightarrow> backend" where
  "drop_queue b = b\<lparr>queue := []\<rparr>"

text \<open>The body of the status task up to its next await point.\<close>

definition status_connected :: "backend \<Rightarrow> backend" where
  "status_connected b =
    (if status_state b = Connecting then b\<lparr>status_state := Watching, drain_state := Receiving\<rparr> else b)"

definition status_ends :: "unit outcome \<Rightarrow> backend \<Rightarrow> backend" where
  "status_ends r b =
    (if status_state b = Connecting then drop_queue (b\<lparr>status_state := Joined r\<rparr>)
     else if status_state b = Watching then b\<lparr>status_state := Joined r\<rparr>
     else b)"

text \<open>\<open>drain_data\<close>, one await point per definition.\<close>

definition drain_recv :: "backend \<Rightarrow> backend" where
  "drain_recv b =
    (case (drain_state b, queue b) of
       (Receiving, blk # rest) \<Rightarrow> b\<lparr>queue := rest, drain_state := Writing blk\<rparr>
     | _ \<Rightarrow> b)"

definition drain_wrote :: "backend \<Rightarrow> backend" where
  "drain_wrote b =
    (case drain_state b of
       Writing blk \<Rightarrow> b\<lparr>drain_state := Receiving, written := written b @ data blk,
         recycled := (if recycle_receiver b \<and> length (recycled b) < capacity b
           then recycled b @ [blk] else recycled b)\<rparr>
     | _ \<Rightarrow> b)"

definition drain_write_err :: "nat \<Rightarrow> backend \<Rightarrow> backend" where
  "drain_write_err n b =
    (case drain_state b of
       Writing blk \<Rightarrow> drop_queue (b\<lparr>drain_state := DrainFailed, written := written b @ take n (data blk)\<rparr>)
     | _ \<Rightarrow> b)"

definition drain_close :: "backend \<Rightarrow> backend" where
  "drain_close b =
    (if drain_state b = Receiving \<and> queue b = [] \<and> \<not> sender b then b\<lparr>drain_state := DrainShut\<rparr> else b)"

fun backend_step :: "backend_action \<Rightarrow> backend \<Rightarrow> backend" where
  "backend_step Connected b = status_connected b"
| "backend_step (ConnectFailed e) b = (if status_state b = Connecting then status_ends (Err e) b else b)"
| "backend_step (Verdict r) b =
    (if status_state b = Watching
     then status_ends (case r of Inl e \<Rightarrow> Err e | Inr u \<Rightarrow> Ok u) b else b)"
| "backend_step TaskPanics b = status_ends Panic b"
| "backend_step DrainRecv b = drain_recv b"
| "backend_step DrainWrote b = drain_wrote b"
| "backend_step (DrainWriteErr n) b = drain_write_err n b"
| "backend_step DrainClose b = drain_close b"

text \<open>\<^verbatim>\<open>mpsc::Sender::try_send\<close>.\<close>

datatype push_result = Pushed | QueueFull | QueueClosed

definition try_push :: "BytesMut \<Rightarrow> backend \<Rightarrow> push_result \<times> backend" where
  "try_push item b =
    (if \<not> rx_alive b then (QueueClosed, b)
     else if length (queue b) < capacity b then (Pushed, b\<lparr>queue := queue b @ [item]\<rparr>)
     else (QueueFull, b))"

text \<open>\<^verbatim>\<open>JoinHandle::abort\<close> followed by awaiting the handle.\<close>

definition cancel_status :: "backend \<Rightarrow> backend" where
  "cancel_status b =
    (if status_state b = Connecting then drop_queue (b\<lparr>status_state := Cancelled\<rparr>)
     else if status_state b = Watching then b\<lparr>status_state := Cancelled\<rparr>
     else b)"

subsection \<open>Abstraction and well-formedness\<close>

definition in_flight :: "backend \<Rightarrow> bytes" where
  "in_flight b = (case drain_state b of Writing blk \<Rightarrow> data blk | _ \<Rightarrow> [])"

definition stream_of :: "backend \<Rightarrow> bytes" where
  "stream_of b = written b @ in_flight b @ concat (map data (queue b))"

definition backend_wf :: "backend \<Rightarrow> bool" where
  "backend_wf b \<longleftrightarrow> 0 < capacity b \<and> length (queue b) \<le> capacity b \<and>
     length (recycled b) \<le> capacity b \<and>
     (drain_state b \<noteq> NotSpawned \<longrightarrow> status_state b \<noteq> Connecting) \<and>
     (\<not> rx_alive b \<longrightarrow> queue b = []) \<and>
     (drain_state b = DrainShut \<longrightarrow> \<not> sender b)"

text \<open>What the owner of the channel ends may do besides pushing a block.\<close>

datatype owner_action = DropSender | DropRecycler | TakeRecycled | CancelStatus

fun owner_step :: "owner_action \<Rightarrow> backend \<Rightarrow> backend" where
  "owner_step DropSender b = b\<lparr>sender := False\<rparr>"
| "owner_step DropRecycler b = b\<lparr>recycle_receiver := False, recycled := []\<rparr>"
| "owner_step TakeRecycled b = b\<lparr>recycled := tl (recycled b)\<rparr>"
| "owner_step CancelStatus b = cancel_status b"

fun channel_step :: "owner_action + backend_action \<Rightarrow> backend \<Rightarrow> backend" where
  "channel_step (Inl a) b = owner_step a b"
| "channel_step (Inr a) b = backend_step a b"

text \<open>Nothing that was queued has been thrown away.\<close>

definition intact :: "backend \<Rightarrow> bool" where
  "intact b \<longleftrightarrow> rx_alive b \<or> drain_state b = DrainShut"

text \<open>The events after which queued blocks may be lost.\<close>

fun losing :: "BytesMut + owner_action + backend_action \<Rightarrow> bool" where
  "losing (Inr (Inl CancelStatus)) = True"
| "losing (Inr (Inr (ConnectFailed _))) = True"
| "losing (Inr (Inr TaskPanics)) = True"
| "losing (Inr (Inr (DrainWriteErr _))) = True"
| "losing _ = False"

fun channel_event :: "('blk \<Rightarrow> 'ch \<Rightarrow> push_result \<times> 'ch) \<Rightarrow> ('act \<Rightarrow> 'ch \<Rightarrow> 'ch) \<Rightarrow> ('blk \<Rightarrow> bytes)
    \<Rightarrow> 'blk + 'act \<Rightarrow> 'ch \<Rightarrow> bytes \<times> 'ch" where
  "channel_event psh stp pay (Inl x) c =
    (case psh x c of (r, c') \<Rightarrow> (if r = Pushed then pay x else [], c'))"
| "channel_event psh stp pay (Inr a) c = ([], stp a c)"

fun channel_run :: "('blk \<Rightarrow> 'ch \<Rightarrow> push_result \<times> 'ch) \<Rightarrow> ('act \<Rightarrow> 'ch \<Rightarrow> 'ch) \<Rightarrow> ('blk \<Rightarrow> bytes)
    \<Rightarrow> ('blk + 'act) list \<Rightarrow> 'ch \<Rightarrow> bytes \<times> 'ch" where
  "channel_run psh stp pay [] c = ([], c)"
| "channel_run psh stp pay (e # es) c =
    (let (a, c1) = channel_event psh stp pay e c; (acc, c2) = channel_run psh stp pay es c1
     in (a @ acc, c2))"

text \<open>The drain task left to run: one block per round, then the end of the input.\<close>

definition drain_rounds :: "nat \<Rightarrow> backend_action list" where
  "drain_rounds n = concat (replicate n [DrainRecv, DrainWrote])"

subsection \<open>The interface of a block channel\<close>

locale block_channel =
  fixes push :: "'blk \<Rightarrow> 'ch \<Rightarrow> push_result \<times> 'ch"
    and step :: "'act \<Rightarrow> 'ch \<Rightarrow> 'ch"
    and wf :: "'ch \<Rightarrow> bool"
    and whole :: "'ch \<Rightarrow> bool"
    and fed :: "'ch \<Rightarrow> bytes"
    and delivered :: "'ch \<Rightarrow> bytes"
    and payload :: "'blk \<Rightarrow> bytes"
  assumes push_wf: "wf c \<Longrightarrow> push x c = (r, c') \<Longrightarrow> wf c'"
    and step_wf: "wf c \<Longrightarrow> wf (step a c)"
    and push_accepted: "wf c \<Longrightarrow> push x c = (Pushed, c') \<Longrightarrow> whole c \<and> whole c' \<and> fed c' = fed c @ payload x"
    and push_rejected: "push x c = (r, c') \<Longrightarrow> r \<noteq> Pushed \<Longrightarrow> c' = c"
    and step_whole: "wf c \<Longrightarrow> whole (step a c) \<Longrightarrow> whole c \<and> fed (step a c) = fed c"
    and step_prefix: "wf c \<Longrightarrow> \<exists>r. fed c = fed (step a c) @ r"
    and delivered_prefix: "\<exists>r. fed c = delivered c @ r"
begin

lemma event_cases:
  assumes "channel_event push step payload e c = (a, c1)"
  obtains x where "push x c = (Pushed, c1)" "a = payload x"
  | "c1 = c" "a = []"
  | b where "c1 = step b c" "a = []"
proof (cases e)
  case (Inl x)
  obtain r c2 where "push x c = (r, c2)"
    by fastforce
  with assms Inl that(1,2) push_rejected [of x c r c2] show ?thesis
    by (cases "r = Pushed") auto
next
  case (Inr b)
  with assms that(3) [of b] show ?thesis
    by simp
qed

lemma event_wf: "wf c \<Longrightarrow> channel_event push step payload e c = (a, c1) \<Longrightarrow> wf c1"
  by (erule event_cases) (auto simp: step_wf dest: push_wf)

lemma event_whole:
  "wf c \<Longrightarrow> channel_event push step payload e c = (a, c1) \<Longrightarrow> whole c1 \<Longrightarrow>
   whole c \<and> fed c1 = fed c @ a"
  by (erule event_cases) (auto dest: push_accepted step_whole)

lemma event_dead:
  "wf c \<Longrightarrow> channel_event push step payload e c = (a, c1) \<Longrightarrow> \<not> whole c \<Longrightarrow> a = [] \<and> \<not> whole c1"
  by (erule event_cases) (auto dest: push_accepted step_whole)

lemma event_prefix:
  "wf c \<Longrightarrow> channel_event push step payload e c = (a, c1) \<Longrightarrow> \<exists>r. fed c @ a = fed c1 @ r"
  by (erule event_cases) (auto dest: push_accepted intro: step_prefix)

lemma run_Cons:
  assumes "channel_run push step payload (e # es) c = (acc, c')"
  obtains a c1 acc1 where "channel_event push step payload e c = (a, c1)"
    "channel_run push step payload es c1 = (acc1, c')" "acc = a @ acc1"
  using assms by (auto split: prod.splits)

lemma run_dead:
  "wf c \<Longrightarrow> channel_run push step payload es c = (acc, c') \<Longrightarrow> \<not> whole c \<Longrightarrow> acc = [] \<and> \<not> whole c'"
proof (induction es arbitrary: c acc)
  case (Cons e es)
  obtain a c1 acc1 where e: "channel_event push step payload e c = (a, c1)"
    and r: "channel_run push step payload es c1 = (acc1, c')" and acc: "acc = a @ acc1"
    using Cons.prems(2) by (rule run_Cons)
  have "a = [] \<and> \<not> whole c1"
    using event_dead [OF Cons.prems(1) e Cons.prems(3)] .
  with Cons.IH [OF event_wf [OF Cons.prems(1) e] r] acc show ?case
    by simp
qed simp

lemma run_wf: "wf c \<Longrightarrow> channel_run push step payload es c = (acc, c') \<Longrightarrow> wf c'"
proof (induction es arbitrary: c acc)
  case (Cons e es)
  from Cons.prems(2) show ?case
    by (rule run_Cons) (use Cons event_wf in blast)
qed simp

lemma run_whole:
  "wf c \<Longrightarrow> channel_run push step payload es c = (acc, c') \<Longrightarrow> whole c' \<Longrightarrow>
   fed c' = fed c @ acc"
proof (induction es arbitrary: c acc)
  case (Cons e es)
  obtain a c1 acc1 where e: "channel_event push step payload e c = (a, c1)"
    and r: "channel_run push step payload es c1 = (acc1, c')" and acc: "acc = a @ acc1"
    using Cons.prems(2) by (rule run_Cons)
  have wf1: "wf c1"
    using event_wf [OF Cons.prems(1) e] .
  then have "whole c1"
    using run_dead r Cons.prems(3) by blast
  with event_whole [OF Cons.prems(1) e] Cons.IH [OF wf1 r Cons.prems(3)] acc show ?case
    by simp
qed simp

lemma run_prefix:
  "wf c \<Longrightarrow> channel_run push step payload es c = (acc, c') \<Longrightarrow> \<exists>r. fed c @ acc = fed c' @ r"
proof (induction es arbitrary: c acc)
  case (Cons e es)
  obtain a c1 acc1 where e: "channel_event push step payload e c = (a, c1)"
    and r: "channel_run push step payload es c1 = (acc1, c')" and acc: "acc = a @ acc1"
    using Cons.prems(2) by (rule run_Cons)
  have wf1: "wf c1"
    using event_wf [OF Cons.prems(1) e] .
  obtain r1 where r1: "fed c1 @ acc1 = fed c' @ r1"
    using Cons.IH [OF wf1 r] by blast
  show ?case
  proof (cases "whole c1")
    case True
    then show ?thesis
      using event_whole [OF Cons.prems(1) e] r1 acc by auto
  next
    case False
    then have "acc1 = []"
      using run_dead [OF wf1 r] by blast
    moreover obtain r2 where "fed c @ a = fed c1 @ r2"
      using event_prefix [OF Cons.prems(1) e] by blast
    ultimately have "fed c @ acc = fed c' @ (r1 @ r2)"
      using r1 acc by (metis append.assoc append_Nil2)
    then show ?thesis
      by blast
  qed
qed simp

lemma run_delivered:
  assumes "wf c" "channel_run push step payload es c = (acc, c')"
  shows "\<exists>r. fed c @ acc = delivered c' @ r"
  using run_prefix [OF assms] delivered_prefix [of c'] by (metis append.assoc)

end

subsection \<open>The tasks implement it\<close>

lemmas step_defs = status_connected_def status_ends_def drain_recv_def drain_wrote_def
  drain_write_err_def drain_close_def drop_queue_def

lemma backend_step_wf: "backend_wf b \<Longrightarrow> backend_wf (backend_step a b)"
  by (cases a) (auto simp: backend_wf_def step_defs rx_alive_def
      split: drain_task.splits list.splits if_splits sum.splits)

lemma backend_step_dead: "backend_wf b \<Longrightarrow> rx_alive (backend_step a b) \<Longrightarrow> rx_alive b"
  by (cases a) (auto simp: step_defs rx_alive_def backend_wf_def
      split: drain_task.splits list.splits if_splits sum.splits)

lemma backend_step_stream:
  "backend_wf b \<Longrightarrow> rx_alive (backend_step a b) \<Longrightarrow> stream_of (backend_step a b) = stream_of b"
  by (cases a) (auto simp: step_defs rx_alive_def stream_of_def in_flight_def backend_wf_def
      split: drain_task.splits list.splits if_splits sum.splits)

lemma take_prefix_ex: "\<exists>r. x @ y = take n x @ r"
  by (rule exI [of _ "drop n x @ y"]) simp

lemma backend_step_prefix:
  "backend_wf b \<Longrightarrow> \<exists>r. stream_of b = stream_of (backend_step a b) @ r"
  by (cases a) (auto simp: step_defs rx_alive_def stream_of_def in_flight_def backend_wf_def
      intro: take_prefix_ex split: drain_task.splits list.splits if_splits sum.splits)

lemma backend_step_written:
  "\<exists>r. written (backend_step a b) = written b @ r"
  by (cases a) (auto simp: step_defs split: drain_task.splits list.splits if_splits sum.splits)

lemma backend_step_shut:
  "backend_wf b \<Longrightarrow> drain_state (backend_step a b) = DrainShut \<Longrightarrow>
   written (backend_step a b) = stream_of b"
  by (cases a) (auto simp: step_defs rx_alive_def stream_of_def in_flight_def backend_wf_def
      split: drain_task.splits list.splits if_splits sum.splits)

lemma owner_step_wf: "backend_wf b \<Longrightarrow> backend_wf (owner_step a b)"
  by (cases a) (auto simp: backend_wf_def cancel_status_def drop_queue_def rx_alive_def
      split: drain_task.splits)

lemma owner_step_whole:
  "backend_wf b \<Longrightarrow> intact (owner_step a b) \<Longrightarrow> intact b \<and> stream_of (owner_step a b) = stream_of b"
  by (cases a) (auto simp: backend_wf_def cancel_status_def drop_queue_def rx_alive_def intact_def
      stream_of_def in_flight_def split: drain_task.splits if_splits)

lemma owner_step_prefix:
  "backend_wf b \<Longrightarrow> \<exists>r. stream_of b = stream_of (owner_step a b) @ r"
  by (cases a) (auto simp: backend_wf_def cancel_status_def drop_queue_def rx_alive_def intact_def
      stream_of_def in_flight_def split: drain_task.splits if_splits)

lemma try_push_cases:
  "try_push x b = (r, b') \<Longrightarrow>
    (r = Pushed \<and> rx_alive b \<and> length (queue b) < capacity b \<and> b' = b\<lparr>queue := queue b @ [x]\<rparr>) \<or>
    (r = QueueFull \<and> rx_alive b \<and> capacity b \<le> length (queue b) \<and> b' = b) \<or>
    (r = QueueClosed \<and> \<not> rx_alive b \<and> b' = b)"
  by (auto simp: try_push_def split: if_splits)

lemma backend_step_whole:
  "backend_wf b \<Longrightarrow> intact (backend_step a b) \<Longrightarrow> intact b \<and> stream_of (backend_step a b) = stream_of b"
  by (cases a) (auto simp: step_defs rx_alive_def stream_of_def in_flight_def backend_wf_def intact_def
      split: drain_task.splits list.splits if_splits sum.splits)

interpretation ch: block_channel try_push channel_step backend_wf intact stream_of written data
proof unfold_locales
  fix b x a r b'
  show "backend_wf b \<Longrightarrow> try_push x b = (r, b') \<Longrightarrow> backend_wf b'"
    by (auto dest!: try_push_cases simp: backend_wf_def rx_alive_def split: drain_task.splits)
  show "backend_wf b \<Longrightarrow> backend_wf (channel_step a b)"
    by (cases a) (simp_all add: owner_step_wf backend_step_wf)
  show "backend_wf b \<Longrightarrow> try_push x b = (Pushed, b') \<Longrightarrow>
      intact b \<and> intact b' \<and> stream_of b' = stream_of b @ data x"
    by (auto dest!: try_push_cases simp: intact_def stream_of_def in_flight_def rx_alive_def
        split: drain_task.splits)
  show "try_push x b = (r, b') \<Longrightarrow> r \<noteq> Pushed \<Longrightarrow> b' = b"
    by (auto dest!: try_push_cases)
  show "backend_wf b \<Longrightarrow> intact (channel_step a b) \<Longrightarrow> intact b \<and> stream_of (channel_step a b) = stream_of b"
    by (cases a) (simp_all add: owner_step_whole backend_step_whole)
  show "backend_wf b \<Longrightarrow> \<exists>r. stream_of b = stream_of (channel_step a b) @ r"
    by (cases a) (simp_all add: owner_step_prefix backend_step_prefix)
  show "\<exists>r. stream_of b = written b @ r"
    by (simp add: stream_of_def)
qed

subsection \<open>The drain task finishes\<close>

lemma drain_round:
  "drain_state b = Receiving \<Longrightarrow> queue b = x # q \<Longrightarrow>
   drain_state (drain_wrote (drain_recv b)) = Receiving \<and> queue (drain_wrote (drain_recv b)) = q \<and>
   written (drain_wrote (drain_recv b)) = written b @ data x \<and>
   sender (drain_wrote (drain_recv b)) = sender b"
  by (simp add: drain_recv_def drain_wrote_def)

lemma drain_round_idle:
  "drain_state b = Receiving \<Longrightarrow> queue b = [] \<Longrightarrow> drain_wrote (drain_recv b) = b"
  by (simp add: drain_recv_def drain_wrote_def)

lemma drain_rounds_empty:
  assumes "drain_state b = Receiving" "length (queue b) \<le> n"
  shows "let b' = fold backend_step (drain_rounds n) b in
    drain_state b' = Receiving \<and> queue b' = [] \<and> written b' = stream_of b \<and> sender b' = sender b"
  using assms
proof (induction n arbitrary: b)
  case 0
  then show ?case
    by (simp add: drain_rounds_def stream_of_def in_flight_def)
next
  case (Suc n)
  let ?b = "drain_wrote (drain_recv b)"
  have unfold: "fold backend_step (drain_rounds (Suc n)) b = fold backend_step (drain_rounds n) ?b"
    by (simp add: drain_rounds_def)
  show ?case
  proof (cases "queue b")
    case Nil
    then show ?thesis
      using Suc unfold drain_round_idle [of b] by simp
  next
    case (Cons x q)
    note r = drain_round [OF Suc.prems(1) Cons]
    have "stream_of ?b = stream_of b"
      using r Suc.prems(1) Cons by (simp add: stream_of_def in_flight_def)
    then show ?thesis
      using Suc.IH [of ?b] Suc.prems(2) r Cons unfold by (simp add: Let_def)
  qed
qed

text \<open>A running drain task whose sender is gone writes everything and closes the writer.\<close>

lemma drain_completes:
  assumes "drain_state b = Receiving \<or> (\<exists>x. drain_state b = Writing x)" "\<not> sender b"
    "length (queue b) \<le> n"
  shows "let b' = fold backend_step (DrainWrote # drain_rounds n @ [DrainClose]) b in
    drain_state b' = DrainShut \<and> written b' = stream_of b"
proof -
  let ?b = "drain_wrote b"
  have "drain_state ?b = Receiving" "queue ?b = queue b" "stream_of ?b = stream_of b" "sender ?b = sender b"
    using assms(1) by (auto simp: drain_wrote_def stream_of_def in_flight_def)
  with drain_rounds_empty [of ?b n] assms(2,3) show ?thesis
    by (simp add: Let_def drain_close_def)
qed

lemma channel_step_capacity [simp]: "capacity (channel_step a b) = capacity b"
proof (cases a)
  case (Inl o')
  then show ?thesis
    by (cases o') (simp_all add: cancel_status_def drop_queue_def)
next
  case (Inr a')
  then show ?thesis
    by (cases a') (auto simp: step_defs split: drain_task.splits list.splits if_splits sum.splits)
qed

lemma try_push_capacity: "try_push x b = (r, b') \<Longrightarrow> capacity b' = capacity b"
  by (auto dest: try_push_cases)

lemma channel_run_capacity:
  "channel_run try_push channel_step data es b = (acc, b') \<Longrightarrow> capacity b' = capacity b"
proof (induction es arbitrary: b acc)
  case (Cons e es)
  obtain a b1 acc1 where e: "channel_event try_push channel_step data e b = (a, b1)"
    and r: "channel_run try_push channel_step data es b1 = (acc1, b')"
    using Cons.prems by (rule ch.run_Cons)
  have "capacity b1 = capacity b"
    using e try_push_capacity by (cases e) (auto split: prod.splits)
  with Cons.IH [OF r] show ?case
    by simp
qed simp

lemma spawn_wf: "0 < c \<Longrightarrow> backend_wf (spawn p m c)"
  by (simp add: backend_wf_def spawn_def rx_alive_def)

lemma spawn_simps [simp]:
  "rx_alive (spawn p m c)" "stream_of (spawn p m c) = []" "sender (spawn p m c)"
  "status_state (spawn p m c) = Connecting" "capacity (spawn p m c) = c" "queue (spawn p m c) = []"
  by (simp_all add: spawn_def rx_alive_def stream_of_def in_flight_def)

lemma shut_written: "backend_wf b \<Longrightarrow> drain_state b = DrainShut \<Longrightarrow> written b = stream_of b"
  by (simp add: backend_wf_def rx_alive_def stream_of_def in_flight_def)

lemma channel_step_keeps: "backend_wf b \<Longrightarrow> intact b \<Longrightarrow> \<not> losing (Inr a) \<Longrightarrow> intact (channel_step a b)"
  by (cases "Inr a :: BytesMut + owner_action + backend_action" rule: losing.cases)
    (auto simp: step_defs rx_alive_def backend_wf_def intact_def split: drain_task.splits list.splits if_splits sum.splits)

lemma channel_run_keeps:
  "backend_wf b \<Longrightarrow> intact b \<Longrightarrow> list_all (\<lambda>e. \<not> losing e) es \<Longrightarrow>
   channel_run try_push channel_step data es b = (acc, b') \<Longrightarrow> intact b'"
proof (induction es arbitrary: b acc)
  case (Cons e es)
  obtain a b1 acc1 where e: "channel_event try_push channel_step data e b = (a, b1)"
    and r: "channel_run try_push channel_step data es b1 = (acc1, b')"
    using Cons.prems(4) by (rule ch.run_Cons)
  have "intact b1"
  proof (cases e)
    case (Inl x)
    then show ?thesis
      using e Cons.prems(2) by (auto split: prod.splits drain_task.splits dest!: try_push_cases simp: intact_def rx_alive_def)
  next
    case (Inr f)
    then show ?thesis
      using e Cons.prems(1-3) channel_step_keeps by auto
  qed
  then show ?case
    using Cons.IH [OF ch.event_wf [OF Cons.prems(1) e] _ _ r] Cons.prems(3) by simp
qed simp

subsection \<open>Properties\<close>

text \<open>
  C5.  In-order, loss-free delivery.  Take a freshly spawned transfer and any interleaving of block
  submissions with the steps of the status and drain tasks and of the channel's owner.  Unless the receiver has
  vanished, the accepted blocks are exactly what was written, what is being written and what is queued, in this
  order; the receiver vanishes with blocks in the queue only when the connection or a write failed, or the status
  task panicked or was cancelled.  In every case the bytes written to the backend are a prefix of the accepted
  blocks; they are all of them once the writer was closed; and the queue never holds more blocks than its capacity.
\<close>

theorem channel_delivery:
  assumes "0 < c" "channel_run try_push channel_step data es (spawn p m c) = (acc, b)"
  shows "(rx_alive b \<longrightarrow> acc = written b @ in_flight b @ concat (map data (queue b))) \<and>
    (drain_state b = DrainShut \<longrightarrow> written b = acc) \<and>
    (list_all (\<lambda>e. \<not> losing e) es \<longrightarrow> rx_alive b \<or> drain_state b = DrainShut) \<and>
    (\<exists>r. acc = written b @ r) \<and> length (queue b) \<le> c"
proof -
  note wf0 = spawn_wf [OF assms(1), of p m]
  note wf = ch.run_wf [OF wf0 assms(2)]
  have "\<exists>r. acc = written b @ r"
    using ch.run_delivered [OF wf0 assms(2)] by simp
  moreover have "acc = written b @ in_flight b @ concat (map data (queue b))" if "rx_alive b"
    using ch.run_whole [OF wf0 assms(2)] that by (simp add: intact_def flip: stream_of_def)
  moreover have "written b = acc" if "drain_state b = DrainShut"
    using ch.run_whole [OF wf0 assms(2)] shut_written [OF wf that] that by (simp add: intact_def)
  moreover have "intact b" if "list_all (\<lambda>e. \<not> losing e) es"
    using channel_run_keeps [OF wf0 _ that assms(2)] by (simp add: intact_def)
  moreover have "length (queue b) \<le> c"
    using wf channel_run_capacity [OF assms(2)] by (simp add: backend_wf_def)
  ultimately show ?thesis
    by (simp add: intact_def)
qed

text \<open>Two blocks, one queued before the connection is up and one after, then the end of the input.\<close>

theorem channel_delivery_witness:
  "(let (acc, b) = channel_run try_push channel_step data
      [Inl \<lparr>data = [1, 2], cap = 4\<rparr>, Inr (Inr Connected), Inr (Inr DrainRecv),
       Inl \<lparr>data = [3], cap = 4\<rparr>, Inr (Inl DropSender), Inr (Inr DrainWrote), Inr (Inr DrainRecv),
       Inr (Inr DrainWrote), Inr (Inr DrainClose)] (spawn False [] 2)
    in drain_state b = DrainShut \<and> acc = [1, 2, 3] \<and> written b = acc \<and> length (queue b) \<le> 2)"
proof -
  let ?es = "[Inl \<lparr>data = [1, 2], cap = 4\<rparr>, Inr (Inr Connected), Inr (Inr DrainRecv),
       Inl \<lparr>data = [3], cap = 4\<rparr>, Inr (Inl DropSender), Inr (Inr DrainWrote), Inr (Inr DrainRecv),
       Inr (Inr DrainWrote), Inr (Inr DrainClose)] :: (BytesMut + owner_action + backend_action) list"
  obtain acc b where r: "channel_run try_push channel_step data ?es (spawn False [] 2) = (acc, b)"
    by fastforce
  moreover have "drain_state b = DrainShut" "acc = [1, 2, 3]"
    using r by (auto simp: try_push_def step_defs spawn_def rx_alive_def)
  ultimately show ?thesis
    using channel_delivery [of 2 ?es False "[]" acc b] by (simp add: Let_def)
qed

end
