(* ===== verification/Rust_Str.thy ===== *)
theory Rust_Str
  imports Gadget_Prelude
begin

text \<open>
  The part of Rust's string library the sources use, on byte lists: UTF-8 validation, white-space
  trimming, splitting, integer parsing and formatting.  These model the standard library, not a file
  of the repository; the protocol parsers are defined over them.
\<close>

subsection \<open>Characters\<close>

definition is_ascii_whitespace :: "byte \<Rightarrow> bool" where
  "is_ascii_whitespace b \<longleftrightarrow> b = 9 \<or> b = 10 \<or> b = 12 \<or> b = 13 \<or> b = 32"

definition is_ascii_digit :: "byte \<Rightarrow> bool" where
  "is_ascii_digit b \<longleftrightarrow> 48 \<le> b \<and> b \<le> 57"

definition is_ascii_hexdigit :: "byte \<Rightarrow> bool" where
  "is_ascii_hexdigit b \<longleftrightarrow> is_ascii_digit b \<or> 65 \<le> b \<and> b \<le> 70 \<or> 97 \<le> b \<and> b \<le> 102"

definition to_lower :: "byte \<Rightarrow> byte" where
  "to_lower b = (if 65 \<le> b \<and> b \<le> 90 then b + 32 else b)"

subsection \<open>UTF-8 validation\<close>

definition cont :: "byte \<Rightarrow> bool" where
  "cont b \<longleftrightarrow> 0x80 \<le> b \<and> b \<le> 0xBF"

definition utf8_2 :: "byte \<Rightarrow> byte \<Rightarrow> bool" where
  "utf8_2 a b \<longleftrightarrow> 0xC2 \<le> a \<and> a \<le> 0xDF \<and> cont b"

definition utf8_3 :: "byte \<Rightarrow> byte \<Rightarrow> byte \<Rightarrow> bool" where
  "utf8_3 a b c \<longleftrightarrow> cont c \<and>
    (a = 0xE0 \<and> 0xA0 \<le> b \<and> b \<le> 0xBF \<or> (0xE1 \<le> a \<and> a \<le> 0xEC \<or> 0xEE \<le> a \<and> a \<le> 0xEF) \<and> cont b \<or>
     a = 0xED \<and> 0x80 \<le> b \<and> b \<le> 0x9F)"

definition utf8_4 :: "byte \<Rightarrow> byte \<Rightarrow> byte \<Rightarrow> byte \<Rightarrow> bool" where
  "utf8_4 a b c d \<longleftrightarrow> cont c \<and> cont d \<and>
    (a = 0xF0 \<and> 0x90 \<le> b \<and> b \<le> 0xBF \<or> 0xF1 \<le> a \<and> a \<le> 0xF3 \<and> cont b \<or>
     a = 0xF4 \<and> 0x80 \<le> b \<and> b \<le> 0x8F)"

fun utf8_valid :: "bytes \<Rightarrow> bool" where
  "utf8_valid [] = True"
| "utf8_valid (a # r) =
    (if a < 0x80 then utf8_valid r
     else case r of
       b # r1 \<Rightarrow> if utf8_2 a b then utf8_valid r1
         else (case r1 of
           c # r2 \<Rightarrow> if utf8_3 a b c then utf8_valid r2
             else (case r2 of
               d # r3 \<Rightarrow> utf8_4 a b c d \<and> utf8_valid r3
             | [] \<Rightarrow> False)
         | [] \<Rightarrow> False)
     | [] \<Rightarrow> False)"

definition from_utf8 :: "bytes \<Rightarrow> bytes option" where
  "from_utf8 bs = (if utf8_valid bs then Some bs else None)"

text \<open>\<^verbatim>\<open>String::from_utf8_lossy\<close>: one replacement character for every longest prefix of a sequence.\<close>

definition second_ok :: "byte \<Rightarrow> byte \<Rightarrow> bool" where
  "second_ok a b \<longleftrightarrow>
    a = 0xE0 \<and> 0xA0 \<le> b \<and> b \<le> 0xBF \<or> (0xE1 \<le> a \<and> a \<le> 0xEC \<or> 0xEE \<le> a \<and> a \<le> 0xEF) \<and> cont b \<or>
    a = 0xED \<and> 0x80 \<le> b \<and> b \<le> 0x9F \<or>
    a = 0xF0 \<and> 0x90 \<le> b \<and> b \<le> 0xBF \<or> 0xF1 \<le> a \<and> a \<le> 0xF3 \<and> cont b \<or>
    a = 0xF4 \<and> 0x80 \<le> b \<and> b \<le> 0x8F"

text \<open>The bytes after the first that belong to the sequence, and whether it is complete.\<close>

definition lossy_step :: "byte \<Rightarrow> bytes \<Rightarrow> nat \<times> bool" where
  "lossy_step a r =
    (if a < 0x80 then (0, True)
     else case r of
       [] \<Rightarrow> (0, False)
     | b # r1 \<Rightarrow>
         if 0xC2 \<le> a \<and> a \<le> 0xDF then (if cont b then (1, True) else (0, False))
         else if \<not> second_ok a b then (0, False)
         else (case r1 of
             [] \<Rightarrow> (1, False)
           | c # r2 \<Rightarrow>
               if \<not> cont c then (1, False)
               else if a \<le> 0xEF then (2, True)
               else (case r2 of [] \<Rightarrow> (2, False) | d # _ \<Rightarrow> if cont d then (3, True) else (2, False))))"

fun from_utf8_lossy :: "bytes \<Rightarrow> bytes" where
  "from_utf8_lossy [] = []"
| "from_utf8_lossy (a # r) =
    (let (n, whole) = lossy_step a r
     in (if whole then a # take n r else [0xEF, 0xBF, 0xBD]) @ from_utf8_lossy (drop n r))"

lemma utf8_valid_ascii: "\<forall>b\<in>set bs. b < 0x80 \<Longrightarrow> utf8_valid bs"
  by (induction bs) auto

lemma second_not_ascii: "second_ok a b \<Longrightarrow> \<not> a < 0x80 \<and> \<not> (0xC2 \<le> a \<and> a \<le> 0xDF)"
  by (auto simp: second_ok_def word_le_nat_alt word_less_nat_alt)

lemma utf8_3_second: "utf8_3 a b c \<Longrightarrow> second_ok a b \<and> cont c \<and> a \<le> 0xEF"
  by (auto simp: utf8_3_def second_ok_def word_le_nat_alt)

lemma utf8_4_second: "utf8_4 a b c d \<Longrightarrow> second_ok a b \<and> cont c \<and> cont d \<and> \<not> a \<le> 0xEF"
  by (auto simp: utf8_4_def second_ok_def word_le_nat_alt)

lemma lossy_steps:
  "a < 0x80 \<Longrightarrow> lossy_step a r = (0, True)"
  "utf8_2 a b \<Longrightarrow> lossy_step a (b # r) = (1, True)"
  "utf8_3 a b c \<Longrightarrow> lossy_step a (b # c # r) = (2, True)"
  "utf8_4 a b c d \<Longrightarrow> lossy_step a (b # c # d # r) = (3, True)"
  using second_not_ascii [of a b] utf8_3_second [of a b c] utf8_4_second [of a b c d]
  by (auto simp: lossy_step_def utf8_2_def word_le_nat_alt word_less_nat_alt)

lemma utf8_valid_cases:
  assumes "utf8_valid (a # r)"
  obtains "a < 0x80" "utf8_valid r"
    | b r1 where "r = b # r1" "utf8_2 a b" "utf8_valid r1"
    | b c r2 where "r = b # c # r2" "utf8_3 a b c" "utf8_valid r2"
    | b c d r3 where "r = b # c # d # r3" "utf8_4 a b c d" "utf8_valid r3"
proof (cases "a < 0x80")
  case False
  then obtain b r1 where r: "r = b # r1" "if utf8_2 a b then utf8_valid r1
      else case r1 of c # r2 \<Rightarrow> if utf8_3 a b c then utf8_valid r2
             else (case r2 of d # r3 \<Rightarrow> utf8_4 a b c d \<and> utf8_valid r3 | [] \<Rightarrow> False)
         | [] \<Rightarrow> False"
    using assms by (cases r) simp_all
  show ?thesis
  proof (cases "utf8_2 a b")
    case False
    then obtain c r2 where r1: "r1 = c # r2" "if utf8_3 a b c then utf8_valid r2
             else (case r2 of d # r3 \<Rightarrow> utf8_4 a b c d \<and> utf8_valid r3 | [] \<Rightarrow> False)"
      using r(2) by (cases r1) simp_all
    show ?thesis
    proof (cases "utf8_3 a b c")
      case False
      then obtain d r3 where "r2 = d # r3" "utf8_4 a b c d \<and> utf8_valid r3"
        using r1(2) by (cases r2) simp_all
      then show ?thesis
        using r(1) r1(1) that(4) by blast
    qed (use r(1) r1 that(3) in auto)
  qed (use r that(2) in auto)
qed (use assms that(1) in auto)

lemma lossy_valid: "utf8_valid bs \<Longrightarrow> from_utf8_lossy bs = bs"
proof (induction bs rule: measure_induct_rule [of length])
  case (less bs)
  show ?case
  proof (cases bs)
    case (Cons a r)
    from less.prems [unfolded Cons] show ?thesis
      by (cases rule: utf8_valid_cases) (use less.IH Cons in \<open>simp_all add: lossy_steps\<close>)
  qed simp
qed

subsection \<open>Trimming and splitting\<close>

text \<open>The UTF-8 encodings of the characters with the Unicode property \<open>White_Space\<close>.\<close>

definition white_space :: "bytes list" where
  "white_space = map (\<lambda>b. [b]) [9, 10, 11, 12, 13, 32] @ [[0xC2, 0x85], [0xC2, 0xA0],
    [0xE1, 0x9A, 0x80]] @ map (\<lambda>b. [0xE2, 0x80, b]) [0x80, 0x81, 0x82, 0x83, 0x84, 0x85, 0x86, 0x87,
    0x88, 0x89, 0x8A, 0xA8, 0xA9, 0xAF] @ [[0xE2, 0x81, 0x9F], [0xE3, 0x80, 0x80]]"

fun strip_prefix :: "'a list \<Rightarrow> 'a list \<Rightarrow> 'a list option" where
  "strip_prefix [] ys = Some ys"
| "strip_prefix (x # xs) [] = None"
| "strip_prefix (x # xs) (y # ys) = (if x = y then strip_prefix xs ys else None)"

definition strip_suffix :: "'a list \<Rightarrow> 'a list \<Rightarrow> 'a list option" where
  "strip_suffix xs ys = map_option rev (strip_prefix (rev xs) (rev ys))"

fun first_strip :: "bytes list \<Rightarrow> bytes \<Rightarrow> bytes option" where
  "first_strip [] bs = None"
| "first_strip (p # ps) bs = (case strip_prefix p bs of Some r \<Rightarrow> Some r | None \<Rightarrow> first_strip ps bs)"

fun strip_all :: "nat \<Rightarrow> bytes list \<Rightarrow> bytes \<Rightarrow> bytes" where
  "strip_all 0 ps bs = bs"
| "strip_all (Suc n) ps bs = (case first_strip ps bs of Some r \<Rightarrow> strip_all n ps r | None \<Rightarrow> bs)"

definition trim_start :: "bytes \<Rightarrow> bytes" where
  "trim_start bs = strip_all (length bs) white_space bs"

definition trim_end :: "bytes \<Rightarrow> bytes" where
  "trim_end bs = rev (strip_all (length bs) (map rev white_space) (rev bs))"

definition trim :: "bytes \<Rightarrow> bytes" where
  "trim bs = trim_end (trim_start bs)"

fun split_once :: "'a \<Rightarrow> 'a list \<Rightarrow> ('a list \<times> 'a list) option" where
  "split_once c [] = None"
| "split_once c (x # xs) = (if x = c then Some ([], xs)
    else map_option (\<lambda>(a, b). (x # a, b)) (split_once c xs))"

fun split_inclusive :: "byte \<Rightarrow> bytes \<Rightarrow> bytes list" where
  "split_inclusive c [] = []"
| "split_inclusive c (x # xs) = (if x = c then [x] # split_inclusive c xs
    else case split_inclusive c xs of [] \<Rightarrow> [[x]] | l # ls \<Rightarrow> (x # l) # ls)"

definition strip_eol :: "bytes \<Rightarrow> bytes" where
  "strip_eol l = (case strip_suffix [10] l of None \<Rightarrow> l
    | Some l1 \<Rightarrow> (case strip_suffix [13] l1 of None \<Rightarrow> l1 | Some l2 \<Rightarrow> l2))"

definition lines :: "bytes \<Rightarrow> bytes list" where
  "lines bs = map strip_eol (split_inclusive 10 bs)"

lemma strip_prefix_Some_iff: "strip_prefix p ys = Some r \<longleftrightarrow> ys = p @ r"
  by (induction p ys rule: strip_prefix.induct) auto

lemma strip_prefix_append [simp]: "strip_prefix p (p @ r) = Some r"
  by (simp add: strip_prefix_Some_iff)

lemma strip_suffix_Some_iff: "strip_suffix p ys = Some r \<longleftrightarrow> ys = r @ p"
proof -
  have "strip_suffix p ys = Some r \<longleftrightarrow> strip_prefix (rev p) (rev ys) = Some (rev r)"
    by (auto simp: strip_suffix_def)
  also have "\<dots> \<longleftrightarrow> ys = r @ p"
    unfolding strip_prefix_Some_iff by (metis rev_append rev_rev_ident)
  finally show ?thesis .
qed

lemma split_once_Some: "split_once c xs = Some (a, b) \<Longrightarrow> xs = a @ c # b \<and> c \<notin> set a"
  by (induction xs arbitrary: a) (auto split: if_splits)

lemma split_once_append: "c \<notin> set a \<Longrightarrow> split_once c (a @ c # b) = Some (a, b)"
  by (induction a) auto

lemma concat_split_inclusive: "concat (split_inclusive c bs) = bs"
  by (induction c bs rule: split_inclusive.induct) (auto split: list.splits)

subsection \<open>Integers\<close>

definition digit_value :: "byte \<Rightarrow> nat option" where
  "digit_value b =
    (if is_ascii_digit b then Some (unat b - 48)
     else if 65 \<le> b \<and> b \<le> 90 then Some (unat b - 55)
     else if 97 \<le> b \<and> b \<le> 122 then Some (unat b - 87)
     else None)"

definition to_digit :: "nat \<Rightarrow> byte \<Rightarrow> nat option" where
  "to_digit r b = (case digit_value b of Some d \<Rightarrow> if d < r then Some d else None | None \<Rightarrow> None)"

fun digits :: "nat \<Rightarrow> nat \<Rightarrow> nat \<Rightarrow> bytes \<Rightarrow> nat option" where
  "digits r bound acc [] = Some acc"
| "digits r bound acc (b # bs) = (case to_digit r b of
      None \<Rightarrow> None
    | Some d \<Rightarrow> if acc * r + d < bound then digits r bound (acc * r + d) bs else None)"

text \<open>
  \<^verbatim>\<open>from_str_radix\<close> of an unsigned type with \<open>bound\<close> values: an optional leading plus sign (but not
  the sign alone), then digits of the radix, with overflow an error.
\<close>

definition from_str_radix :: "nat \<Rightarrow> nat \<Rightarrow> bytes \<Rightarrow> nat option" where
  "from_str_radix r bound s =
    (case s of
       [] \<Rightarrow> None
     | c # rest \<Rightarrow>
        if c = 43 then (if rest = [] then None else digits r bound 0 rest)
        else if c = 45 \<and> rest = [] then None
        else digits r bound 0 s)"

definition hex_digit_upper :: "nat \<Rightarrow> byte" where
  "hex_digit_upper d = (if d < 10 then of_nat (48 + d) else of_nat (55 + d))"

definition hex_digit_lower :: "nat \<Rightarrow> byte" where
  "hex_digit_lower d = (if d < 10 then of_nat (48 + d) else of_nat (87 + d))"

text \<open>\<^verbatim>\<open>format!("{n:08X}")\<close> and \<^verbatim>\<open>format!("{n:02x}")\<close>: at least the given width, zero padded.\<close>

fun hex_digits :: "nat \<Rightarrow> nat \<Rightarrow> nat list" where
  "hex_digits 0 n = (if n = 0 then [] else hex_digits 0 (n div 16) @ [n mod 16])"
| "hex_digits (Suc w) n = hex_digits w (n div 16) @ [n mod 16]"

definition fmt_hex_upper :: "nat \<Rightarrow> nat \<Rightarrow> bytes" where
  "fmt_hex_upper w n = map hex_digit_upper (hex_digits w n)"

definition fmt_hex_lower :: "nat \<Rightarrow> nat \<Rightarrow> bytes" where
  "fmt_hex_lower w n = map hex_digit_lower (hex_digits w n)"

text \<open>A text as characters, for messages.\<close>

definition text_of :: "bytes \<Rightarrow> string" where
  "text_of bs = map (\<lambda>b. char_of (unat b)) bs"

text \<open>\<^verbatim>\<open>to_string\<close> of an unsigned integer.\<close>

fun fmt_dec :: "nat \<Rightarrow> bytes" where
  "fmt_dec n = (if n < 10 then [of_nat (48 + n)] else fmt_dec (n div 10) @ [of_nat (48 + n mod 10)])"

declare fmt_dec.simps [simp del]
declare hex_digits.simps(1) [simp del]

lemma hex_digits_numeral [simp]:
  "hex_digits (numeral k) n = hex_digits (pred_numeral k) (n div 16) @ [n mod 16]"
  by (subst numeral_eq_Suc) (rule hex_digits.simps)

lemma hex_digits_0_0 [simp]: "hex_digits 0 0 = []"
  by (subst hex_digits.simps) simp

lemma hex_digit_cases:
  assumes "d < 16" "\<forall>x\<in>set [0..<16]. P x"
  shows "P d"
  using assms by simp

lemma to_digit_hex_upper [simp]: "d < 16 \<Longrightarrow> to_digit 16 (hex_digit_upper d) = Some d"
  by (erule hex_digit_cases)
    (simp add: upt_rec hex_digit_upper_def to_digit_def digit_value_def is_ascii_digit_def)

lemma hex_digit_upper_not_sign: "d < 16 \<Longrightarrow> hex_digit_upper d \<noteq> 43 \<and> hex_digit_upper d \<noteq> 45"
  by (erule hex_digit_cases) (simp add: upt_rec hex_digit_upper_def)

lemma hex_digit_upper_ascii: "d < 16 \<Longrightarrow> hex_digit_upper d < 0x80"
  by (erule hex_digit_cases) (simp add: upt_rec hex_digit_upper_def)

lemma foldl_hex_ge: "acc \<le> foldl (\<lambda>a d. a * 16 + d) acc (ds :: nat list)"
proof (induction ds arbitrary: acc)
  case (Cons d ds)
  have "acc \<le> acc * 16 + d"
    by simp
  also have "\<dots> \<le> foldl (\<lambda>a d. a * 16 + d) (acc * 16 + d) ds"
    by (rule Cons)
  finally show ?case
    by simp
qed simp

lemma digits_map_hex_upper:
  "\<forall>d\<in>set ds. d < 16 \<Longrightarrow> foldl (\<lambda>a d. a * 16 + d) acc ds < bound \<Longrightarrow>
    digits 16 bound acc (map hex_digit_upper ds) = Some (foldl (\<lambda>a d. a * 16 + d) acc ds)"
proof (induction ds arbitrary: acc)
  case (Cons d ds)
  have "acc * 16 + d \<le> foldl (\<lambda>a d. a * 16 + d) (acc * 16 + d) ds"
    by (rule foldl_hex_ge)
  with Cons show ?case
    by simp
qed simp

lemma hex_digits_less: "\<forall>d\<in>set (hex_digits w n). d < 16"
proof (induction w n rule: hex_digits.induct)
  case (1 n)
  then show ?case
    by (subst hex_digits.simps(1)) simp
qed simp

lemma foldl_hex_digits: "foldl (\<lambda>a d. a * 16 + d) 0 (hex_digits w n) = n"
proof (induction w n rule: hex_digits.induct)
  case (1 n)
  then show ?case
    by (subst hex_digits.simps(1)) simp
qed simp

lemma length_hex_digits: "n < 16 ^ w \<Longrightarrow> length (hex_digits w n) = w"
proof (induction w arbitrary: n)
  case 0
  then show ?case
    by (simp add: hex_digits.simps(1))
next
  case (Suc w)
  then show ?case
    by (simp add: less_mult_imp_div_less mult.commute)
qed

lemma length_hex_digits_ge: "w \<le> length (hex_digits w n)"
  by (induction w n rule: hex_digits.induct) auto

lemma length_fmt_hex_upper: "n < 16 ^ w \<Longrightarrow> length (fmt_hex_upper w n) = w"
  by (simp add: fmt_hex_upper_def length_hex_digits)

lemma fmt_hex_upper_ascii: "b \<in> set (fmt_hex_upper w n) \<Longrightarrow> b < 0x80"
  using hex_digits_less [of w n] by (auto simp: fmt_hex_upper_def hex_digit_upper_ascii)

text \<open>Printing in hexadecimal and parsing back is the identity.\<close>

lemma from_str_radix_fmt_hex_upper:
  assumes "0 < w" "n < bound"
  shows "from_str_radix 16 bound (fmt_hex_upper w n) = Some n"
proof -
  obtain d ds where ds: "hex_digits w n = d # ds"
    using assms(1) length_hex_digits_ge [of w n] by (cases "hex_digits w n") auto
  have "digits 16 bound 0 (fmt_hex_upper w n) = Some n"
    using digits_map_hex_upper [OF hex_digits_less, of 0 w n bound] assms(2)
    by (simp add: fmt_hex_upper_def foldl_hex_digits)
  moreover have "hex_digit_upper d \<noteq> 43 \<and> hex_digit_upper d \<noteq> 45"
    using hex_digits_less [of w n] ds by (intro hex_digit_upper_not_sign) simp
  ultimately show ?thesis
    by (simp add: from_str_radix_def fmt_hex_upper_def ds)
qed

end
