(* ===== verification/Boot_Info.thy ===== *)
theory Boot_Info
  imports Rust_Str
begin

text \<open>
  Runtime system information (\<^verbatim>\<open>crates/summit-usbgadget-config/src/sysinfo/runtime.rs\<close>): how the board
  booted, which slot it runs from, and the slot an update is written to.  The output of the boot
  script, decoded to text, is the argument of \<open>parse_boot_rootfs\<close>.
\<close>

record BootRootfsInfo =
  root_dev_type :: bytes
  current_side :: bytes
  hw_part_number :: "bytes option"

definition default_boot :: BootRootfsInfo where
  "default_boot = \<lparr>root_dev_type = [], current_side = [], hw_part_number = None\<rparr>"

definition is_running_on_sd :: "BootRootfsInfo \<Rightarrow> bool" where
  "is_running_on_sd i \<longleftrightarrow> root_dev_type i = ascii ''SD''"

definition is_running_on_initramfs :: "BootRootfsInfo \<Rightarrow> bool" where
  "is_running_on_initramfs i \<longleftrightarrow> root_dev_type i = ascii ''initramfs''"

definition is_single_slot :: "BootRootfsInfo \<Rightarrow> bool" where
  "is_single_slot i \<longleftrightarrow> is_running_on_sd i \<or> is_running_on_initramfs i"

definition use_pipe_mode :: "BootRootfsInfo \<Rightarrow> bool" where
  "use_pipe_mode i = is_single_slot i"

definition current_side_option :: "BootRootfsInfo \<Rightarrow> bytes option" where
  "current_side_option i =
    (if current_side i = ascii ''a'' \<or> current_side i = ascii ''b'' then Some (current_side i) else None)"

definition inactive_side :: "bytes option \<Rightarrow> bytes" where
  "inactive_side side =
    (if (case side of None \<Rightarrow> ascii ''a'' | Some s \<Rightarrow> s) = ascii ''a'' then ascii ''b'' else ascii ''a'')"

definition boot_line :: "bytes \<Rightarrow> BootRootfsInfo \<Rightarrow> BootRootfsInfo" where
  "boot_line line info =
    (case split_once 61 line of
       None \<Rightarrow> info
     | Some (key, value) \<Rightarrow>
        let v = trim value in
        if key = ascii ''rootDevType'' then info\<lparr>root_dev_type := v\<rparr>
        else if key = ascii ''currentSide'' then info\<lparr>current_side := v\<rparr>
        else if key = ascii ''baseHwPartNumber'' \<and> v \<noteq> [] then info\<lparr>hw_part_number := Some v\<rparr>
        else info)"

definition parse_boot_rootfs :: "bytes \<Rightarrow> BootRootfsInfo" where
  "parse_boot_rootfs out = fold boot_line (lines out) default_boot"

text \<open>The slot an update targets is never the slot the board runs from.\<close>

lemma inactive_side_differs:
  "current_side_option i = Some s \<Longrightarrow> inactive_side (Some s) \<noteq> s"
  by (auto simp: current_side_option_def inactive_side_def split: if_splits)

lemma inactive_side_slot: "inactive_side o' \<in> {ascii ''a'', ascii ''b''}"
  by (simp add: inactive_side_def)

end
