(* ===== verification/Swupdate_Session.thy ===== *)
theory Swupdate_Session
  imports Block_Channel Boot_Info
begin

text \<open>
  The firmware sink every transport feeds (\<^verbatim>\<open>crates/summit-usbgadget-swupdate/src\<close>): \<^verbatim>\<open>lib.rs\<close>
  (\<open>SwupdateSession\<close>) and \<^verbatim>\<open>restart.rs\<close> (the reboot latch).

  The tasks a session spawns outlive it, so they live in an arena, \<open>backends\<close> of the \<open>world\<close>, and a
  session holds indices into it where the code holds channel ends and join handles.  A backend is the
  bounded queue, the drain task with the bytes it has written, and the status task.  What the other
  tasks do while the caller is not running is a list of \<open>env_action\<close>s; an action that is not enabled
  leaves the world as it is.  A call that awaits takes the actions that happen during the wait as an
  argument and returns None when it is still waiting at their end.
\<close>

subsection \<open>Configuration\<close>

record SwupdateConfig =
  sc_download :: "bytes option"
  sc_software_set :: "bytes option"
  sc_image_mode :: "bytes option"
  sc_dry_run :: "bool option"
  sc_disable_store_swu :: "bool option"
  sc_timeout_secs :: "64 word option"

record SwupdateParams =
  software_set :: "bytes option"
  image_mode :: "bytes option"
  dry_run :: bool
  disable_store_swu :: bool
  timeout_secs :: "64 word"

datatype SwupdateConfigError = UnsupportedDownloadTarget bytes

definition ensure_download_target :: "SwupdateConfig \<Rightarrow> SwupdateConfigError + unit" where
  "ensure_download_target c =
    (case sc_download c of
       None \<Rightarrow> Inr ()
     | Some d \<Rightarrow> if d = ascii ''swupdate'' then Inr () else Inl (UnsupportedDownloadTarget d))"

definition to_params :: "SwupdateConfig \<Rightarrow> SwupdateConfigError + SwupdateParams" where
  "to_params c =
    (case ensure_download_target c of
       Inl e \<Rightarrow> Inl e
     | Inr _ \<Rightarrow> Inr \<lparr>software_set = sc_software_set c, image_mode = sc_image_mode c,
          dry_run = unwrap_or False (sc_dry_run c),
          disable_store_swu = unwrap_or True (sc_disable_store_swu c),
          timeout_secs = unwrap_or 600 (sc_timeout_secs c)\<rparr>)"

definition default_params :: SwupdateParams where
  "default_params = \<lparr>software_set = None, image_mode = None, dry_run = False,
     disable_store_swu = True, timeout_secs = 600\<rparr>"

datatype EffectiveUpdateType = Complete | Slot bytes

definition resolve :: "SwupdateParams \<Rightarrow> BootRootfsInfo \<Rightarrow> EffectiveUpdateType" where
  "resolve p info =
    (if is_running_on_sd info \<or> is_running_on_initramfs info then Complete
     else Slot (unwrap_or (ascii ''full'') (image_mode p) @ ascii ''-'' @
       inactive_side (current_side_option info)))"

fun is_complete :: "EffectiveUpdateType \<Rightarrow> bool" where
  "is_complete Complete = True"
| "is_complete (Slot _) = False"

fun running_mode :: "EffectiveUpdateType \<Rightarrow> bytes" where
  "running_mode Complete = ascii ''complete''"
| "running_mode (Slot m) = m"

definition TARGET_QUEUE_BYTES :: nat where
  "TARGET_QUEUE_BYTES = 2 * 1024 * 1024"

definition div_ceil :: "nat \<Rightarrow> nat \<Rightarrow> nat" where
  "div_ceil a b = (if a mod b > 0 then a div b + 1 else a div b)"

definition queue_capacity :: "nat \<Rightarrow> nat" where
  "queue_capacity block_size = max (div_ceil TARGET_QUEUE_BYTES (max block_size 1)) 2"

subsection \<open>The world\<close>

record world =
  boot :: BootRootfsInfo
  restart_pending :: bool
  success_tasks :: "EffectiveUpdateType list"
  reboots :: nat
  backends :: "backend list"

definition modify_backend :: "nat \<Rightarrow> (backend \<Rightarrow> backend) \<Rightarrow> world \<Rightarrow> world" where
  "modify_backend i f w = w\<lparr>backends := list_modify i f (backends w)\<rparr>"

definition reject_if_restart_pending :: "world \<Rightarrow> unit outcome" where
  "reject_if_restart_pending w =
    (if restart_pending w
     then Err (other_error ''restart pending after successful SWUpdate; rejecting new update'')
     else Ok ())"

definition on_update_success :: "EffectiveUpdateType \<Rightarrow> world \<Rightarrow> world" where
  "on_update_success u w =
    (if is_complete u then w else w\<lparr>restart_pending := True, reboots := reboots w + 1\<rparr>)"

datatype env_action = BackendAct nat backend_action | RunSuccess

fun env_step :: "env_action \<Rightarrow> world \<Rightarrow> world" where
  "env_step (BackendAct i a) w = modify_backend i (backend_step a) w"
| "env_step RunSuccess w =
    (case success_tasks w of
       [] \<Rightarrow> w
     | u # us \<Rightarrow> on_update_success u (w\<lparr>success_tasks := us\<rparr>))"

definition env_run :: "env_action list \<Rightarrow> world \<Rightarrow> world" where
  "env_run as w = fold env_step as w"

subsection \<open>The session\<close>

record SwupdateSession =
  params :: SwupdateParams
  max_block_size :: nat
  update_type :: "EffectiveUpdateType option"
  tx :: "nat option"
  recycle_rx :: "nat option"
  status :: "nat option"
  terminal :: "(err_text + unit) option"

definition session_new :: "SwupdateParams \<Rightarrow> nat \<Rightarrow> SwupdateSession" where
  "session_new p n = \<lparr>params = p, max_block_size = n, update_type = None, tx = None,
     recycle_rx = None, status = None, terminal = None\<rparr>"

definition is_open :: "SwupdateSession \<Rightarrow> bool" where
  "is_open s \<longleftrightarrow> tx s \<noteq> None \<or> status s \<noteq> None"

text \<open>Dropping the sender or the recycling receiver.\<close>

definition drop_tx :: "SwupdateSession \<Rightarrow> world \<Rightarrow> world" where
  "drop_tx s w = (case tx s of None \<Rightarrow> w | Some i \<Rightarrow> modify_backend i (\<lambda>b. b\<lparr>sender := False\<rparr>) w)"

definition drop_recycle :: "SwupdateSession \<Rightarrow> world \<Rightarrow> world" where
  "drop_recycle s w = (case recycle_rx s of None \<Rightarrow> w
     | Some i \<Rightarrow> modify_backend i (\<lambda>b. b\<lparr>recycle_receiver := False, recycled := []\<rparr>) w)"

text \<open>A session value going out of scope: its channel ends are dropped, its task is detached.\<close>

definition session_drop :: "SwupdateSession \<Rightarrow> world \<Rightarrow> world" where
  "session_drop s w = drop_recycle s (drop_tx s w)"

text \<open>\<^verbatim>\<open>try_recv\<close> on the recycling receiver.\<close>

definition take_recycled :: "world \<Rightarrow> SwupdateSession \<Rightarrow> world \<times> BytesMut option" where
  "take_recycled w s =
    (case recycle_rx s of
       None \<Rightarrow> (w, None)
     | Some i \<Rightarrow>
        if i < length (backends w) then
          (case recycled (backends w ! i) of
             [] \<Rightarrow> (w, None)
           | blk # rest \<Rightarrow> (modify_backend i (\<lambda>b. b\<lparr>recycled := rest\<rparr>) w, Some blk))
        else (w, None))"

definition fit_buffer :: "nat \<Rightarrow> BytesMut \<Rightarrow> BytesMut" where
  "fit_buffer c buf = clear (if cap buf < c then reserve (c - cap buf) buf else buf)"

definition buffer :: "nat \<Rightarrow> world \<Rightarrow> SwupdateSession \<Rightarrow> world \<times> BytesMut" where
  "buffer c w s =
    (case take_recycled w s of
       (w', None) \<Rightarrow> (w', fit_buffer c (with_capacity c))
     | (w', Some buf) \<Rightarrow> (w', fit_buffer c buf))"

definition session_open :: "world \<Rightarrow> SwupdateSession \<Rightarrow> world \<times> SwupdateSession \<times> unit outcome" where
  "session_open w s =
    (if is_open s then (w, s, Ok ())
     else
       let s = s\<lparr>terminal := None\<rparr> in
       case reject_if_restart_pending w of
         Ok _ \<Rightarrow>
           let u = resolve (params s) (boot w);
               i = length (backends w);
               b = spawn (use_pipe_mode (boot w)) (running_mode u) (queue_capacity (max_block_size s))
           in (drop_recycle s (w\<lparr>backends := backends w @ [b]\<rparr>),
               s\<lparr>update_type := Some u, tx := Some i, recycle_rx := Some i, status := Some i\<rparr>, Ok ())
       | e \<Rightarrow> (w, s, e))"

definition ensure_open :: "world \<Rightarrow> SwupdateSession \<Rightarrow> world \<times> SwupdateSession \<times> unit outcome" where
  "ensure_open w s =
    (if tx s \<noteq> None \<or> status s \<noteq> None \<or> terminal s \<noteq> None then (w, s, Ok ()) else session_open w s)"

datatype Feed = FeedOk nat | FeedFull BytesMut | FeedClosed

definition tx_set_none :: "world \<Rightarrow> SwupdateSession \<Rightarrow> world \<times> SwupdateSession" where
  "tx_set_none w s = (drop_tx s w, s\<lparr>tx := None\<rparr>)"

definition push_at :: "nat \<Rightarrow> BytesMut \<Rightarrow> world \<Rightarrow> push_result \<times> world" where
  "push_at i item w =
    (if i < length (backends w)
     then let (r, b) = try_push item (backends w ! i) in (r, w\<lparr>backends := (backends w)[i := b]\<rparr>)
     else (QueueClosed, w))"

definition try_send :: "BytesMut \<Rightarrow> world \<Rightarrow> SwupdateSession \<Rightarrow> world \<times> SwupdateSession \<times> Feed outcome" where
  "try_send item w s =
    (case ensure_open w s of
       (w, s, Ok _) \<Rightarrow>
         (case tx s of
            None \<Rightarrow> (w, s, Ok FeedClosed)
          | Some i \<Rightarrow>
              (case push_at i item w of
                 (Pushed, w) \<Rightarrow> (w, s, Ok (FeedOk (bm_len item)))
               | (QueueFull, w) \<Rightarrow> (w, s, Ok (FeedFull item))
               | (QueueClosed, w) \<Rightarrow> (let (w, s) = tx_set_none w s in (w, s, Ok FeedClosed))))
     | (w, s, Err e) \<Rightarrow> (w, s, Err e)
     | (w, s, Panic) \<Rightarrow> (w, s, Panic))"

text \<open>\<^verbatim>\<open>mpsc::Sender::send\<close>: wait for a free slot while the other tasks run.\<close>

fun send_wait :: "nat \<Rightarrow> BytesMut \<Rightarrow> env_action list \<Rightarrow> world \<Rightarrow> (bool \<times> world) option" where
  "send_wait i item as w =
    (case push_at i item w of
       (Pushed, w') \<Rightarrow> Some (True, env_run as w')
     | (QueueClosed, w') \<Rightarrow> Some (False, env_run as w')
     | (QueueFull, w') \<Rightarrow> (case as of [] \<Rightarrow> None | a # as' \<Rightarrow> send_wait i item as' (env_step a w)))"

declare send_wait.simps [simp del]

definition send :: "env_action list \<Rightarrow> BytesMut \<Rightarrow> world \<Rightarrow> SwupdateSession
    \<Rightarrow> (world \<times> SwupdateSession \<times> Feed outcome) option" where
  "send as item w s =
    (case ensure_open w s of
       (w, s, Ok _) \<Rightarrow>
         (case tx s of
            None \<Rightarrow> Some (w, s, Ok FeedClosed)
          | Some i \<Rightarrow>
              (case send_wait i item as w of
                 None \<Rightarrow> None
               | Some (True, w) \<Rightarrow> Some (w, s, Ok (FeedOk (bm_len item)))
               | Some (False, w) \<Rightarrow> (let (w, s) = tx_set_none w s in Some (w, s, Ok FeedClosed))))
     | (w, s, Err e) \<Rightarrow> Some (w, s, Err e)
     | (w, s, Panic) \<Rightarrow> Some (w, s, Panic))"

definition eof :: "world \<Rightarrow> SwupdateSession \<Rightarrow> world \<times> SwupdateSession" where
  "eof w s = tx_set_none w s"

definition mark_complete :: "world \<Rightarrow> SwupdateSession \<Rightarrow> world \<times> SwupdateSession" where
  "mark_complete w s =
    ((case update_type s of None \<Rightarrow> w | Some u \<Rightarrow> w\<lparr>success_tasks := success_tasks w @ [u]\<rparr>),
     s\<lparr>terminal := Some (Inr ())\<rparr>)"

definition settle :: "unit outcome \<Rightarrow> world \<Rightarrow> SwupdateSession \<Rightarrow> world \<times> SwupdateSession \<times> (io_error + unit)" where
  "settle joined w s =
    (case joined of
       Ok _ \<Rightarrow> (let (w, s) = mark_complete w s in (w, s, Inr ()))
     | Err e \<Rightarrow> (w, s\<lparr>terminal := Some (Inl (err_to_string e))\<rparr>, Inl e)
     | Panic \<Rightarrow>
        let e = Custom Other (Prefixed ''SWUpdate status task failed: '' (Text ''task panicked''))
        in (w, s\<lparr>terminal := Some (Inl (err_to_string e))\<rparr>, Inl e))"

text \<open>\<open>poll_status\<close>; the result None is \<^verbatim>\<open>Poll::Pending\<close>.\<close>

definition poll_status :: "world \<Rightarrow> SwupdateSession \<Rightarrow> world \<times> SwupdateSession \<times> (io_error + unit) option" where
  "poll_status w s =
    (case terminal s of
       Some t \<Rightarrow> (w, s, Some (map_sum (Custom Other) id t))
     | None \<Rightarrow>
        (case status s of
           None \<Rightarrow> (w, s, Some (Inl (Custom NotConnected (Text ''no update in progress''))))
         | Some i \<Rightarrow>
             (if i < length (backends w) then
               (case status_state (backends w ! i) of
                  Joined r \<Rightarrow>
                    (let (w, s, v) = settle r w (s\<lparr>status := None\<rparr>) in (w, s, Some v))
                | _ \<Rightarrow> (w, s, None))
              else (w, s, None))))"

definition try_finished :: "world \<Rightarrow> SwupdateSession \<Rightarrow> world \<times> SwupdateSession \<times> (io_error + unit) option" where
  "try_finished w s = poll_status w s"

fun finished :: "env_action list \<Rightarrow> world \<Rightarrow> SwupdateSession
    \<Rightarrow> (world \<times> SwupdateSession \<times> (io_error + unit)) option" where
  "finished as w s =
    (case poll_status w s of
       (w', s', Some v) \<Rightarrow> Some (env_run as w', s', v)
     | (w', s', None) \<Rightarrow> (case as of [] \<Rightarrow> None | a # as' \<Rightarrow> finished as' (env_step a w') s'))"

declare finished.simps [simp del]

definition abort :: "world \<Rightarrow> SwupdateSession \<Rightarrow> world \<times> SwupdateSession" where
  "abort w s =
    (let w = drop_recycle s (drop_tx s w);
         w = (case status s of None \<Rightarrow> w | Some i \<Rightarrow> modify_backend i cancel_status w)
     in (w, s\<lparr>tx := None, recycle_rx := None, status := None, terminal := None\<rparr>))"

subsection \<open>Abstraction and well-formedness\<close>

definition arena_wf :: "world \<Rightarrow> bool" where
  "arena_wf w \<longleftrightarrow> list_all backend_wf (backends w)"

definition session_wf :: "world \<Rightarrow> SwupdateSession \<Rightarrow> bool" where
  "session_wf w s \<longleftrightarrow>
    (\<forall>i. tx s = Some i \<longrightarrow> i < length (backends w) \<and> sender (backends w ! i) \<and>
       (status s = Some i \<or> status s = None \<and> terminal s \<noteq> None)) \<and>
    (\<forall>i. status s = Some i \<longrightarrow> i < length (backends w) \<and> status_state (backends w ! i) \<noteq> Cancelled) \<and>
    (\<forall>i. recycle_rx s = Some i \<longrightarrow> i < length (backends w)) \<and>
    (terminal s \<noteq> None \<longrightarrow> status s = None)"

text \<open>
  The bytes the session has taken for its current transfer: None once it no longer feeds a live
  queue.
\<close>

definition sink_stream :: "world \<Rightarrow> SwupdateSession \<Rightarrow> bytes option" where
  "sink_stream w s =
    (case tx s of
       Some i \<Rightarrow> if i < length (backends w) \<and> rx_alive (backends w ! i)
         then Some (stream_of (backends w ! i)) else None
     | None \<Rightarrow> if status s = None \<and> terminal s = None then Some [] else None)"

definition sink_inv :: "world \<Rightarrow> SwupdateSession \<Rightarrow> bool" where
  "sink_inv w s \<longleftrightarrow> arena_wf w \<and> session_wf w s"

subsection \<open>The interface of a firmware sink\<close>

datatype 'a sink_event = FeedBlock BytesMut | PollVerdict | Tick 'a

fun sink_event_run :: "(BytesMut \<Rightarrow> 'w \<Rightarrow> 's \<Rightarrow> 'w \<times> 's \<times> Feed outcome)
    \<Rightarrow> ('w \<Rightarrow> 's \<Rightarrow> 'w \<times> 's \<times> (io_error + unit) option) \<Rightarrow> ('a \<Rightarrow> 'w \<Rightarrow> 'w)
    \<Rightarrow> 'a sink_event \<Rightarrow> 'w \<Rightarrow> 's \<Rightarrow> bytes \<times> 'w \<times> 's" where
  "sink_event_run fd vd tk (FeedBlock x) w s =
    (case fd x w s of (w', s', r) \<Rightarrow> ((case r of Ok (FeedOk n) \<Rightarrow> data x | _ \<Rightarrow> []), w', s'))"
| "sink_event_run fd vd tk PollVerdict w s = (case vd w s of (w', s', _) \<Rightarrow> ([], w', s'))"
| "sink_event_run fd vd tk (Tick a) w s = ([], tk a w, s)"

fun sink_run :: "(BytesMut \<Rightarrow> 'w \<Rightarrow> 's \<Rightarrow> 'w \<times> 's \<times> Feed outcome)
    \<Rightarrow> ('w \<Rightarrow> 's \<Rightarrow> 'w \<times> 's \<times> (io_error + unit) option) \<Rightarrow> ('a \<Rightarrow> 'w \<Rightarrow> 'w)
    \<Rightarrow> 'a sink_event list \<Rightarrow> 'w \<Rightarrow> 's \<Rightarrow> bytes \<times> 'w \<times> 's" where
  "sink_run fd vd tk [] w s = ([], w, s)"
| "sink_run fd vd tk (e # es) w s =
    (let (a, w1, s1) = sink_event_run fd vd tk e w s; (acc, w2, s2) = sink_run fd vd tk es w1 s1
     in (a @ acc, w2, s2))"

text \<open>Concrete states: an idle system, and a transfer in progress.\<close>

definition idle_world :: world where
  "idle_world = \<lparr>boot = default_boot, restart_pending = False, success_tasks = [], reboots = 0, backends = []\<rparr>"

definition busy_backend :: backend where
  "busy_backend = (spawn False (ascii ''full-b'') 4)\<lparr>status_state := Watching,
     drain_state := Writing \<lparr>data = [1, 2], cap = 2\<rparr>, queue := [\<lparr>data = [3], cap = 1\<rparr>]\<rparr>"

definition busy_world :: world where
  "busy_world = idle_world\<lparr>backends := [busy_backend]\<rparr>"

definition busy_session :: SwupdateSession where
  "busy_session = (session_new default_params 64)\<lparr>update_type := Some (Slot (ascii ''full-b'')),
     tx := Some 0, recycle_rx := Some 0, status := Some 0\<rparr>"

definition done_world :: world where
  "done_world = busy_world\<lparr>backends := [busy_backend\<lparr>status_state := Joined (Ok ())\<rparr>]\<rparr>"

locale firmware_sink =
  fixes feed :: "BytesMut \<Rightarrow> 'w \<Rightarrow> 's \<Rightarrow> 'w \<times> 's \<times> Feed outcome"
    and verdict :: "'w \<Rightarrow> 's \<Rightarrow> 'w \<times> 's \<times> (io_error + unit) option"
    and tick :: "'a \<Rightarrow> 'w \<Rightarrow> 'w"
    and inv :: "'w \<Rightarrow> 's \<Rightarrow> bool"
    and taken :: "'w \<Rightarrow> 's \<Rightarrow> bytes option"
  assumes feed_inv: "inv w s \<Longrightarrow> feed x w s = (w', s', r) \<Longrightarrow> inv w' s'"
    and feed_ok: "inv w s \<Longrightarrow> feed x w s = (w', s', Ok (FeedOk n)) \<Longrightarrow>
      n = bm_len x \<and> (\<exists>y. taken w s = Some y \<and> taken w' s' = Some (y @ data x))"
    and feed_full: "inv w s \<Longrightarrow> feed x w s = (w', s', Ok (FeedFull x')) \<Longrightarrow>
      x' = x \<and> taken w' s' = taken w s"
    and feed_closed: "inv w s \<Longrightarrow> feed x w s = (w', s', Ok FeedClosed) \<Longrightarrow> taken w' s' = None"
    and feed_err: "inv w s \<Longrightarrow> feed x w s = (w', s', Err e) \<Longrightarrow> taken w' s' = taken w s"
    and feed_no_panic: "inv w s \<Longrightarrow> feed x w s \<noteq> (w', s', Panic)"
    and verdict_inv: "inv w s \<Longrightarrow> verdict w s = (w', s', v) \<Longrightarrow> inv w' s'"
    and verdict_taken: "inv w s \<Longrightarrow> verdict w s = (w', s', v) \<Longrightarrow> taken w' s' = taken w s"
    and tick_inv: "inv w s \<Longrightarrow> inv (tick a w) s"
    and tick_taken: "inv w s \<Longrightarrow> taken (tick a w) s = Some y \<Longrightarrow> taken w s = Some y"
begin

lemma event_inv: "inv w s \<Longrightarrow> sink_event_run feed verdict tick e w s = (a, w', s') \<Longrightarrow> inv w' s'"
  by (cases e) (auto split: prod.splits dest: feed_inv verdict_inv intro: tick_inv)

lemma event_taken:
  assumes "inv w s" "sink_event_run feed verdict tick e w s = (a, w', s')" "taken w' s' = Some z"
  shows "\<exists>y. taken w s = Some y \<and> z = y @ a"
proof (cases e)
  case (FeedBlock x)
  then obtain r where f: "feed x w s = (w', s', r)"
    and a: "a = (case r of Ok (FeedOk n) \<Rightarrow> data x | _ \<Rightarrow> [])"
    using assms(2) by (auto split: prod.splits)
  show ?thesis
  proof (cases r)
    case (Ok f')
    then show ?thesis
      using f a assms(1,3) feed_ok [of w s x w' s'] feed_full [of w s x w' s'] feed_closed [of w s x w' s']
      by (cases f') auto
  next
    case (Err e)
    then show ?thesis
      using f a assms(1,3) feed_err [of w s x w' s' e] by simp
  next
    case Panic
    then show ?thesis
      using f assms(1) feed_no_panic [of w s x w' s'] by simp
  qed
next
  case PollVerdict
  then show ?thesis
    using assms verdict_taken by (auto split: prod.splits)
next
  case (Tick b)
  then show ?thesis
    using assms tick_taken by auto
qed

lemma run_inv: "inv w s \<Longrightarrow> sink_run feed verdict tick es w s = (acc, w', s') \<Longrightarrow> inv w' s'"
proof (induction es arbitrary: w s acc)
  case (Cons e es)
  obtain a w1 s1 where e: "sink_event_run feed verdict tick e w s = (a, w1, s1)"
    by (cases "sink_event_run feed verdict tick e w s")
  with Cons.prems(2) obtain acc1 where "sink_run feed verdict tick es w1 s1 = (acc1, w', s')"
    by (auto split: prod.splits)
  with Cons.IH event_inv [OF Cons.prems(1) e] show ?case
    by blast
qed simp

text \<open>While the sink takes data, it has taken exactly the accepted blocks, in order.\<close>

lemma run_taken:
  "inv w s \<Longrightarrow> sink_run feed verdict tick es w s = (acc, w', s') \<Longrightarrow> taken w' s' = Some z \<Longrightarrow>
   \<exists>y. taken w s = Some y \<and> z = y @ acc"
proof (induction es arbitrary: w s acc)
  case (Cons e es)
  obtain a w1 s1 where e: "sink_event_run feed verdict tick e w s = (a, w1, s1)"
    by (cases "sink_event_run feed verdict tick e w s")
  with Cons.prems(2) obtain acc1 where r: "sink_run feed verdict tick es w1 s1 = (acc1, w', s')"
    and acc: "acc = a @ acc1"
    by (auto split: prod.splits)
  obtain y1 where y1: "taken w1 s1 = Some y1" "z = y1 @ acc1"
    using Cons.IH [OF event_inv [OF Cons.prems(1) e] r Cons.prems(3)] by blast
  show ?case
    using event_taken [OF Cons.prems(1) e y1(1)] y1(2) acc by auto
qed simp

end

subsection \<open>What the other tasks do to an open session\<close>

lemma backends_modify_backend [simp]:
  "backends (modify_backend i f w) = list_modify i f (backends w)"
  by (simp add: modify_backend_def)

lemma world_modify_backend [simp]:
  "restart_pending (modify_backend i f w) = restart_pending w"
  "success_tasks (modify_backend i f w) = success_tasks w"
  "boot (modify_backend i f w) = boot w"
  "reboots (modify_backend i f w) = reboots w"
  by (simp_all add: modify_backend_def)

lemma arena_wf_nth: "arena_wf w \<Longrightarrow> i < length (backends w) \<Longrightarrow> backend_wf (backends w ! i)"
  by (simp add: arena_wf_def list_all_length)

lemma arena_wf_modify:
  "arena_wf w \<Longrightarrow> (\<And>b. backend_wf b \<Longrightarrow> backend_wf (f b)) \<Longrightarrow> arena_wf (modify_backend i f w)"
  by (simp add: arena_wf_def list_all_length nth_list_modify)

lemma backends_on_update_success [simp]: "backends (on_update_success u w) = backends w"
  by (simp add: on_update_success_def)

lemma backend_step_frame [simp]:
  "sender (backend_step a b) = sender b"
  "status_state (backend_step a b) = Cancelled \<longleftrightarrow> status_state b = Cancelled"
  by (cases a; auto simp: step_defs split: drain_task.splits list.splits if_splits sum.splits)+

lemma backends_RunSuccess [simp]: "backends (env_step RunSuccess w) = backends w"
  by (simp split: list.splits)

lemma sink_stream_tx:
  "tx s = None \<Longrightarrow> sink_stream w s = (if status s = None \<and> terminal s = None then Some [] else None)"
  "tx s = Some i \<Longrightarrow> sink_stream w s = (if i < length (backends w) \<and> rx_alive (backends w ! i)
     then Some (stream_of (backends w ! i)) else None)"
  by (simp_all add: sink_stream_def)

lemma sink_stream_cong: "backends w = backends w' \<Longrightarrow> sink_stream w s = sink_stream w' s"
  by (cases "tx s") (simp_all add: sink_stream_def)

lemma sink_inv_cong: "backends w = backends w' \<Longrightarrow> sink_inv w s = sink_inv w' s"
  by (simp add: sink_inv_def session_wf_def arena_wf_def)

lemma env_step_arena: "arena_wf w \<Longrightarrow> arena_wf (env_step a w)"
proof (cases a)
  case (BackendAct i b)
  then show "arena_wf w \<Longrightarrow> ?thesis"
    by (simp add: arena_wf_modify backend_step_wf)
next
  case RunSuccess
  then show "arena_wf w \<Longrightarrow> ?thesis"
    by (simp add: arena_wf_def split: list.splits)
qed

lemma env_step_length [simp]: "length (backends (env_step a w)) = length (backends w)"
  by (cases a) (auto split: list.splits)

lemma env_step_session: "session_wf w s \<Longrightarrow> session_wf (env_step a w) s"
  by (cases a) (auto simp: session_wf_def nth_list_modify split: list.splits)

lemma rx_alive_stream_step:
  "backend_wf b \<Longrightarrow> rx_alive (backend_step a b) \<Longrightarrow> rx_alive b \<and> stream_of (backend_step a b) = stream_of b"
  by (simp add: backend_step_dead backend_step_stream)

lemma env_step_stream:
  assumes "sink_inv w s" "sink_stream (env_step a w) s = Some x"
  shows "sink_stream w s = Some x"
proof (cases a)
  case (BackendAct i b)
  show ?thesis
  proof (cases "tx s")
    case (Some j)
    then show ?thesis
      using assms BackendAct rx_alive_stream_step [OF arena_wf_nth, of w j b]
      by (auto simp: sink_stream_def sink_inv_def nth_list_modify split: if_splits)
  qed (use assms BackendAct in \<open>simp add: sink_stream_def\<close>)
next
  case RunSuccess
  then show ?thesis
    using assms sink_stream_cong [OF backends_RunSuccess] by simp
qed

lemma env_step_inv: "sink_inv w s \<Longrightarrow> sink_inv (env_step a w) s"
  by (simp add: sink_inv_def env_step_arena env_step_session)

lemma env_run_inv: "sink_inv w s \<Longrightarrow> sink_inv (env_run as w) s"
  by (induction as arbitrary: w) (simp_all add: env_run_def env_step_inv)

lemma env_run_stream:
  "sink_inv w s \<Longrightarrow> sink_stream (env_run as w) s = Some x \<Longrightarrow> sink_stream w s = Some x"
proof (induction as arbitrary: w)
  case (Cons a as)
  then show ?case
    using env_step_stream [of w s a x] env_step_inv [of w s a] by (simp add: env_run_def)
qed (simp add: env_run_def)

subsection \<open>Opening\<close>

lemma queue_capacity_ge2: "2 \<le> queue_capacity n"
  by (simp add: queue_capacity_def)

lemma drop_recycle_frame:
  assumes "i < length (backends w)"
  shows "sender (backends (drop_recycle s w) ! i) = sender (backends w ! i)"
    "status_state (backends (drop_recycle s w) ! i) = status_state (backends w ! i)"
    "rx_alive (backends (drop_recycle s w) ! i) = rx_alive (backends w ! i)"
    "stream_of (backends (drop_recycle s w) ! i) = stream_of (backends w ! i)"
  using assms by (auto simp: drop_recycle_def nth_list_modify rx_alive_def stream_of_def in_flight_def
      split: option.splits drain_task.splits)

lemma length_drop_recycle [simp]: "length (backends (drop_recycle s w)) = length (backends w)"
  by (simp add: drop_recycle_def split: option.splits)

lemma arena_drop_recycle: "arena_wf w \<Longrightarrow> arena_wf (drop_recycle s w)"
  using owner_step_wf [of _ DropRecycler]
  by (auto simp: drop_recycle_def intro: arena_wf_modify split: option.splits)

lemma arena_append: "arena_wf w \<Longrightarrow> backend_wf b \<Longrightarrow> arena_wf (w\<lparr>backends := backends w @ [b]\<rparr>)"
  by (simp add: arena_wf_def)

lemma session_open_Ok:
  assumes "sink_inv w s" "\<not> is_open s" "session_open w s = (w', s', Ok ())"
  shows "sink_inv w' s'" "sink_stream w' s' = Some []" "tx s' = Some (length (backends w))"
    "status s' = Some (length (backends w))" "terminal s' = None"
proof -
  let ?b = "spawn (use_pipe_mode (boot w)) (running_mode (resolve (params s) (boot w)))
    (queue_capacity (max_block_size s))"
  let ?w = "w\<lparr>backends := backends w @ [?b]\<rparr>"
  have eqs: "w' = drop_recycle (s\<lparr>terminal := None\<rparr>) ?w"
    "s' = s\<lparr>terminal := None, update_type := Some (resolve (params s) (boot w)),
      tx := Some (length (backends w)), recycle_rx := Some (length (backends w)),
      status := Some (length (backends w))\<rparr>"
    using assms(2,3) by (auto simp: session_open_def Let_def split: outcome.splits)
  have "backend_wf ?b"
    using queue_capacity_ge2 [of "max_block_size s"] by (intro spawn_wf) simp
  then have "arena_wf w'"
    using assms(1) by (simp add: eqs(1) sink_inv_def arena_drop_recycle arena_append)
  moreover have nth: "sender (backends w' ! length (backends w))"
    "status_state (backends w' ! length (backends w)) = Connecting"
    "rx_alive (backends w' ! length (backends w))"
    "stream_of (backends w' ! length (backends w)) = []" "length (backends w) < length (backends w')"
    by (simp_all add: eqs(1) drop_recycle_frame)
  ultimately show "sink_inv w' s'"
    by (simp add: sink_inv_def session_wf_def eqs(2))
  show "sink_stream w' s' = Some []" "tx s' = Some (length (backends w))"
    "status s' = Some (length (backends w))" "terminal s' = None"
    using nth by (simp_all add: sink_stream_def eqs(2))
qed

lemma session_open_not_Ok:
  assumes "session_open w s = (w', s', r)" "r \<noteq> Ok ()"
  shows "w' = w" "s' = s\<lparr>terminal := None\<rparr>" "\<not> is_open s" "restart_pending w"
    "r = Err (other_error ''restart pending after successful SWUpdate; rejecting new update'')"
  using assms by (auto simp: session_open_def reject_if_restart_pending_def Let_def split: if_splits)

lemma ensure_open_cases:
  assumes "sink_inv w s" "ensure_open w s = (w', s', r)"
  obtains (already) "w' = w" "s' = s" "r = Ok ()" "tx s \<noteq> None \<or> status s \<noteq> None \<or> terminal s \<noteq> None"
  | (opened) "r = Ok ()" "tx s = None" "status s = None" "terminal s = None"
      "sink_inv w' s'" "sink_stream w' s' = Some []" "tx s' = Some (length (backends w))"
      "status s' = Some (length (backends w))" "sink_stream w s = Some []"
  | (rejected) "w' = w" "s' = s" "restart_pending w" "tx s = None" "status s = None" "terminal s = None"
      "r = Err (other_error ''restart pending after successful SWUpdate; rejecting new update'')"
proof (cases "tx s \<noteq> None \<or> status s \<noteq> None \<or> terminal s \<noteq> None")
  case True
  then show ?thesis
    using assms(2) already by (simp add: ensure_open_def)
next
  case False
  then have op: "session_open w s = (w', s', r)" "\<not> is_open s"
    using assms(2) by (auto simp: ensure_open_def is_open_def)
  show ?thesis
  proof (cases "r = Ok ()")
    case True
    then show ?thesis
      using session_open_Ok [OF assms(1) op(2)] op(1) False opened
      by (simp add: sink_stream_def)
  next
    case neq: False
    show ?thesis
      using session_open_not_Ok [OF op(1) neq] False rejected by simp
  qed
qed

subsection \<open>Feeding\<close>

lemma push_at_cases:
  assumes "arena_wf w" "push_at i x w = (r, w')"
  obtains (pushed) "r = Pushed" "i < length (backends w)" "rx_alive (backends w ! i)"
      "w' = modify_backend i (\<lambda>b. b\<lparr>queue := queue b @ [x]\<rparr>) w"
      "length (queue (backends w ! i)) < capacity (backends w ! i)"
  | (full) "r = QueueFull" "w' = w" "i < length (backends w)" "rx_alive (backends w ! i)"
      "capacity (backends w ! i) \<le> length (queue (backends w ! i))"
  | (closed) "r = QueueClosed" "w' = w" "i < length (backends w) \<longrightarrow> \<not> rx_alive (backends w ! i)"
proof (cases "i < length (backends w)")
  case True
  obtain b where b: "try_push x (backends w ! i) = (r, b)" "w' = w\<lparr>backends := (backends w)[i := b]\<rparr>"
    using assms(2) True by (auto simp: push_at_def split: prod.splits)
  show ?thesis
    using try_push_cases [OF b(1)] b(2) True that
    by (auto simp: modify_backend_def list_modify_def)
next
  case False
  then show ?thesis
    using assms(2) closed by (simp add: push_at_def)
qed

lemma queue_push_frame [simp]:
  "rx_alive (b\<lparr>queue := q\<rparr>) = rx_alive b"
  "stream_of (b\<lparr>queue := queue b @ [x]\<rparr>) = stream_of b @ data x"
  by (simp_all add: rx_alive_def stream_of_def in_flight_def split: drain_task.splits)

lemma push_inv:
  assumes "sink_inv w s" "push_at i x w = (r, w')"
  shows "sink_inv w' s"
proof -
  have arena: "arena_wf w"
    using assms(1) by (simp add: sink_inv_def)
  show ?thesis
    using arena assms(2)
  proof (cases rule: push_at_cases)
    case pushed
    have "backend_wf ((backends w ! j)\<lparr>queue := queue (backends w ! j) @ [x]\<rparr>)" if "j = i" for j
      using ch.push_wf [of "backends w ! i" x Pushed] pushed arena that
      by (simp add: arena_wf_nth try_push_def)
    with pushed assms(1) show ?thesis
      by (auto simp: sink_inv_def arena_wf_def list_all_length session_wf_def nth_list_modify)
  qed (use assms in auto)
qed

lemma drop_tx_frame:
  assumes "i < length (backends w)"
  shows "rx_alive (backends (drop_tx s w) ! i) = rx_alive (backends w ! i)"
    "stream_of (backends (drop_tx s w) ! i) = stream_of (backends w ! i)"
    "status_state (backends (drop_tx s w) ! i) = status_state (backends w ! i)"
    "queue (backends (drop_tx s w) ! i) = queue (backends w ! i)"
    "drain_state (backends (drop_tx s w) ! i) = drain_state (backends w ! i)"
    "sender (backends (drop_tx s w) ! i) \<longleftrightarrow> tx s \<noteq> Some i \<and> sender (backends w ! i)"
  using assms by (auto simp: drop_tx_def nth_list_modify rx_alive_def stream_of_def in_flight_def
      split: option.splits drain_task.splits)

lemma length_drop_tx [simp]: "length (backends (drop_tx s w)) = length (backends w)"
  by (simp add: drop_tx_def split: option.splits)

lemma arena_drop_tx: "arena_wf w \<Longrightarrow> arena_wf (drop_tx s w)"
  using owner_step_wf [of _ DropSender]
  by (auto simp: drop_tx_def intro: arena_wf_modify split: option.splits)

lemma tx_set_none_inv: "sink_inv w s \<Longrightarrow> tx_set_none w s = (w', s') \<Longrightarrow> sink_inv w' s'"
  by (auto simp: tx_set_none_def sink_inv_def arena_drop_tx session_wf_def drop_tx_frame)

text \<open>One push into the queue of an open session.\<close>

lemma push_stream_cases:
  assumes inv: "sink_inv w s" and tx: "tx s = Some i" and run: "push_at i x w = (r, w')"
  obtains (p_ok) "r = Pushed" "sink_inv w' s" "\<And>y. sink_stream w s = Some y \<Longrightarrow> sink_stream w' s = Some (y @ data x)"
      "sink_stream w s \<noteq> None"
  | (p_full) "r = QueueFull" "w' = w" "sink_stream w s \<noteq> None"
  | (p_closed) "r = QueueClosed" "w' = w" "sink_stream w s = None"
      "sink_inv (drop_tx s w) (s\<lparr>tx := None\<rparr>)" "sink_stream (drop_tx s w) (s\<lparr>tx := None\<rparr>) = None"
proof -
  have arena: "arena_wf w" and lt: "i < length (backends w)"
    and st: "status s \<noteq> None \<or> terminal s \<noteq> None"
    using inv tx by (auto simp: sink_inv_def session_wf_def)
  show ?thesis
    using arena run
  proof (cases rule: push_at_cases)
    case pushed
    then show ?thesis
      using tx p_ok push_inv [OF inv run] by (simp add: sink_stream_def)
  next
    case full
    then show ?thesis
      using tx that(2) by (simp add: sink_stream_def)
  next
    case closed
    moreover have "sink_inv (drop_tx s w) (s\<lparr>tx := None\<rparr>)"
      using tx_set_none_inv [OF inv] by (simp add: tx_set_none_def)
    ultimately show ?thesis
      using tx lt st that(3) by (auto simp: sink_stream_def)
  qed
qed

text \<open>The branches of \<open>try_send\<close>.\<close>

lemma try_send_cases:
  assumes inv: "sink_inv w s" and run: "try_send x w s = (w', s', r)"
  obtains (ok) "r = Ok (FeedOk (bm_len x))" "sink_inv w' s'" "\<And>y. sink_stream w s = Some y \<Longrightarrow> sink_stream w' s' = Some (y @ data x)"
      "sink_stream w s \<noteq> None"
  | (full) "r = Ok (FeedFull x)" "sink_inv w' s'" "sink_stream w' s' = sink_stream w s" "sink_stream w s \<noteq> None"
  | (closed) "r = Ok FeedClosed" "sink_inv w' s'" "sink_stream w s = None" "sink_stream w' s' = None"
  | (rejected) "r = Err (other_error ''restart pending after successful SWUpdate; rejecting new update'')"
      "w' = w" "s' = s" "restart_pending w" "tx s = None" "status s = None" "terminal s = None"
proof -
  obtain w1 s1 r1 where eo: "ensure_open w s = (w1, s1, r1)"
    by (cases "ensure_open w s")
  have main: ?thesis if r1: "r1 = Ok ()" and inv1: "sink_inv w1 s1" and str: "sink_stream w1 s1 = sink_stream w s"
    and nz: "tx s1 \<noteq> None \<or> status s1 \<noteq> None \<or> terminal s1 \<noteq> None"
  proof (cases "tx s1")
    case None
    then show ?thesis
      using run eo r1 inv1 str [symmetric] nz closed sink_stream_tx(1) [OF None, of w1]
      by (auto simp: try_send_def)
  next
    case (Some i)
    obtain r2 w2 where p: "push_at i x w1 = (r2, w2)"
      by fastforce
    show ?thesis
      using inv1 Some p
    proof (cases rule: push_stream_cases)
      case p_ok
      then show ?thesis
        using run eo r1 Some p str ok by (simp add: try_send_def)
    next
      case p_full
      then show ?thesis
        using run eo r1 Some p str inv1 full by (simp add: try_send_def)
    next
      case p_closed
      then show ?thesis
        using run eo r1 Some p str closed by (simp add: try_send_def tx_set_none_def)
    qed
  qed
  show ?thesis
    using inv eo
  proof (cases rule: ensure_open_cases)
    case already
    then show ?thesis
      using main inv by simp
  next
    case opened
    then show ?thesis
      using main by simp
  next
    case rejected
    with run eo that(4) show ?thesis
      by (simp add: try_send_def)
  qed
qed

subsection \<open>Observing the verdict\<close>

lemma settle_frame:
  assumes "settle r w s = (w', s', v)"
  shows "backends w' = backends w" "tx s' = tx s" "status s' = status s" "recycle_rx s' = recycle_rx s"
    "terminal s' \<noteq> None"
  using assms by (auto simp: settle_def mark_complete_def Let_def split: outcome.splits option.splits)

lemma poll_status_cases:
  assumes "poll_status w s = (w', s', v)"
  obtains (cached) t where "terminal s = Some t" "w' = w" "s' = s" "v = Some (map_sum (Custom Other) id t)"
  | (idle) "terminal s = None" "status s = None" "w' = w" "s' = s"
      "v = Some (Inl (Custom NotConnected (Text ''no update in progress'')))"
  | (joined) i r x where "terminal s = None" "status s = Some i" "i < length (backends w)"
      "status_state (backends w ! i) = Joined r" "settle r w (s\<lparr>status := None\<rparr>) = (w', s', x)" "v = Some x"
  | (pending) i where "terminal s = None" "status s = Some i" "w' = w" "s' = s" "v = None"
      "i < length (backends w) \<longrightarrow> (\<forall>r. status_state (backends w ! i) \<noteq> Joined r)"
  using assms by (auto simp: poll_status_def split: option.splits if_splits status_task.splits prod.splits)

lemma poll_status_inv: "sink_inv w s \<Longrightarrow> poll_status w s = (w', s', v) \<Longrightarrow> sink_inv w' s'"
proof (erule poll_status_cases)
  fix i r x
  assume "sink_inv w s" "settle r w (s\<lparr>status := None\<rparr>) = (w', s', x)" "status s = Some i"
  then show ?thesis
    using settle_frame [of r w "s\<lparr>status := None\<rparr>" w' s' x]
    by (auto simp: sink_inv_def arena_wf_def session_wf_def)
qed auto

lemma poll_status_stream:
  "poll_status w s = (w', s', v) \<Longrightarrow> sink_stream w' s' = sink_stream w s"
proof (erule poll_status_cases)
  fix i r x
  assume "settle r w (s\<lparr>status := None\<rparr>) = (w', s', x)" "terminal s = None" "status s = Some i"
  then show ?thesis
    using settle_frame [of r w "s\<lparr>status := None\<rparr>" w' s' x]
    by (cases "tx s") (auto simp: sink_stream_tx)
qed auto

text \<open>A verdict once given is given again, and its success task is spawned once.\<close>

lemma settle_terminal:
  "settle r w s = (w', s', x) \<Longrightarrow> terminal s' = Some (map_sum err_to_string id x)"
  by (auto simp: settle_def mark_complete_def Let_def split: outcome.splits)

lemma settle_success:
  assumes "settle r w s = (w', s', x)"
  shows "success_tasks w' = success_tasks w @ (if r = Ok () then (case update_type s of None \<Rightarrow> [] | Some u \<Rightarrow> [u]) else [])"
  using assms by (cases r; cases "update_type s") (auto simp: settle_def mark_complete_def Let_def)

lemma poll_status_again:
  assumes "poll_status w s = (w', s', Some v)" "status s \<noteq> None"
    "terminal s = None"
  shows "poll_status w'' s' = (w'', s', Some (map_sum (\<lambda>e. Custom Other (err_to_string e)) id v))"
  using assms(1)
proof (cases rule: poll_status_cases)
  case (joined i r x)
  then show ?thesis
    using settle_terminal [OF joined(5)] by (cases x) (simp_all add: poll_status_def)
qed (use assms in auto)

subsection \<open>Ending\<close>

lemma eof_inv: "sink_inv w s \<Longrightarrow> eof w s = (w', s') \<Longrightarrow> sink_inv w' s'"
  by (simp add: eof_def tx_set_none_inv)

lemma cancel_status_frame [simp]: "sender (cancel_status b) = sender b"
  by (simp add: cancel_status_def drop_queue_def)

lemma cancel_status_wf: "backend_wf b \<Longrightarrow> backend_wf (cancel_status b)"
  using owner_step_wf [of b CancelStatus] by simp

lemma abort_frame:
  assumes "abort w s = (w', s')"
  shows "s' = s\<lparr>tx := None, recycle_rx := None, status := None, terminal := None\<rparr>"
    "length (backends w') = length (backends w)"
  using assms by (auto simp: abort_def Let_def split: option.splits)

lemma abort_arena: "arena_wf w \<Longrightarrow> arena_wf (fst (abort w s))"
  by (simp add: abort_def Let_def arena_drop_recycle arena_drop_tx arena_wf_modify cancel_status_wf
      split: option.split)

lemma session_new_simps [simp]:
  "tx (session_new p n) = None" "status (session_new p n) = None" "terminal (session_new p n) = None"
  "recycle_rx (session_new p n) = None" "is_open (session_new p n) = False"
  "sink_stream w (session_new p n) = Some []" "params (session_new p n) = p"
  "max_block_size (session_new p n) = n"
  by (simp_all add: session_new_def is_open_def sink_stream_def)

lemma session_new_inv: "arena_wf w \<Longrightarrow> sink_inv w (session_new p n)"
  by (simp add: sink_inv_def session_wf_def)

lemma session_drop_arena: "arena_wf w \<Longrightarrow> arena_wf (session_drop s w)"
  by (simp add: session_drop_def arena_drop_recycle arena_drop_tx)

lemma take_recycled_frame [simp]:
  "rx_alive (b\<lparr>recycled := q\<rparr>) = rx_alive b" "stream_of (b\<lparr>recycled := q\<rparr>) = stream_of b"
  by (simp_all add: rx_alive_def stream_of_def in_flight_def split: drain_task.splits)

lemma take_recycled_cases:
  assumes "take_recycled w s = (w', r)"
  obtains (none) "w' = w" "r = None"
  | (some) i q rest where "recycle_rx s = Some i" "i < length (backends w)" "r = Some q"
    "recycled (backends w ! i) = q # rest" "w' = modify_backend i (\<lambda>b. b\<lparr>recycled := rest\<rparr>) w"
proof (cases "recycle_rx s")
  case None
  then show ?thesis
    using assms none by (simp add: take_recycled_def)
next
  case (Some i)
  show ?thesis
  proof (cases "i < length (backends w) \<and> recycled (backends w ! i) \<noteq> []")
    case True
    then obtain q rest where "recycled (backends w ! i) = q # rest"
      by (cases "recycled (backends w ! i)") auto
    then show ?thesis
      using assms Some True some [of i q rest] by (simp add: take_recycled_def)
  next
    case False
    then show ?thesis
      using assms Some none by (auto simp: take_recycled_def split: if_splits)
  qed
qed

lemma buffer_data: "buffer c w s = (w', b) \<Longrightarrow> data b = []"
  by (auto simp: buffer_def fit_buffer_def split: prod.splits option.splits)

lemma buffer_world: "fst (buffer c w s) = fst (take_recycled w s)"
  by (simp add: buffer_def split: prod.splits option.splits)

lemma session_wf_frame:
  assumes "length (backends w') = length (backends w)"
    "\<And>j. j < length (backends w) \<Longrightarrow> sender (backends w' ! j) = sender (backends w ! j) \<and>
      status_state (backends w' ! j) = status_state (backends w ! j)"
  shows "session_wf w' s = session_wf w s"
  unfolding session_wf_def using assms by (cases "tx s"; cases "status s") auto

lemma take_recycled_inv:
  assumes "sink_inv w s" "take_recycled w s = (w', r)"
  shows "(sink_inv w' s'' \<longleftrightarrow> sink_inv w s'') \<and> sink_stream w' s'' = sink_stream w s'' \<and>
    restart_pending w' = restart_pending w"
  using assms(2)
proof (cases rule: take_recycled_cases)
  case (some i q rest)
  have "backend_wf (backends w ! i)"
    using some assms(1) by (simp add: sink_inv_def arena_wf_nth)
  then have "backend_wf ((backends w ! i)\<lparr>recycled := rest\<rparr>)"
    using some by (simp add: backend_wf_def)
  then have "arena_wf w'"
    using some assms(1) unfolding sink_inv_def arena_wf_def list_all_length
    by (simp add: nth_list_modify)
  moreover have "session_wf w' s'' \<longleftrightarrow> session_wf w s''"
    using some by (intro session_wf_frame) (simp_all add: nth_list_modify)
  moreover have "sink_stream w' s'' = sink_stream w s''"
    using some by (cases "tx s''") (auto simp: sink_stream_tx nth_list_modify)
  ultimately show ?thesis
    using some assms(1) by (simp add: sink_inv_def)
qed auto

lemma buffer_inv:
  assumes "sink_inv w s" "buffer c w s = (w', b)"
  shows "sink_inv w' s'' \<longleftrightarrow> sink_inv w s''" "sink_stream w' s'' = sink_stream w s''"
    "restart_pending w' = restart_pending w"
proof -
  obtain r where "take_recycled w s = (w', r)"
    using buffer_world [of c w s] assms(2) by (cases "take_recycled w s") auto
  note take_recycled_inv [OF assms(1) this, of s'']
  then show "sink_inv w' s'' \<longleftrightarrow> sink_inv w s''" "sink_stream w' s'' = sink_stream w s''"
    "restart_pending w' = restart_pending w"
    by simp_all
qed

subsection \<open>The session is a firmware sink\<close>

lemma try_send_inv:
  assumes "sink_inv w s" "try_send x w s = (w', s', r)"
  shows "sink_inv w' s'"
  using assms by (cases rule: try_send_cases) (use assms(1) in simp_all)

lemma try_send_ok:
  assumes "sink_inv w s" "try_send x w s = (w', s', Ok (FeedOk n))"
  shows "n = bm_len x \<and> (\<exists>y. sink_stream w s = Some y \<and> sink_stream w' s' = Some (y @ data x))"
  using assms by (cases rule: try_send_cases) auto

lemma try_send_other:
  assumes "sink_inv w s" "try_send x w s = (w', s', r)"
  shows "r = Ok (FeedFull x') \<Longrightarrow> x' = x \<and> sink_stream w' s' = sink_stream w s"
    "r = Ok FeedClosed \<Longrightarrow> sink_stream w' s' = None"
    "r = Err e \<Longrightarrow> sink_stream w' s' = sink_stream w s"
    "r \<noteq> Panic"
  using assms by (cases rule: try_send_cases; simp)+

interpretation snk: firmware_sink try_send try_finished env_step sink_inv sink_stream
proof unfold_locales
  fix w s x w' s' r n x' e v a y
  assume inv: "sink_inv w s"
  show "try_send x w s = (w', s', r) \<Longrightarrow> sink_inv w' s'"
    using inv by (rule try_send_inv)
  show "try_send x w s = (w', s', Ok (FeedOk n)) \<Longrightarrow>
      n = bm_len x \<and> (\<exists>y. sink_stream w s = Some y \<and> sink_stream w' s' = Some (y @ data x))"
    using inv by (rule try_send_ok)
  show "try_send x w s = (w', s', Ok (FeedFull x')) \<Longrightarrow> x' = x \<and> sink_stream w' s' = sink_stream w s"
    using try_send_other(1) [OF inv, of x w' s' _ x'] by simp
  show "try_send x w s = (w', s', Ok FeedClosed) \<Longrightarrow> sink_stream w' s' = None"
    using try_send_other(2) [OF inv, of x w' s'] by simp
  show "try_send x w s = (w', s', Err e) \<Longrightarrow> sink_stream w' s' = sink_stream w s"
    using try_send_other(3) [OF inv, of x w' s' _ e] by simp
  show "try_send x w s \<noteq> (w', s', Panic)"
    using try_send_other(4) [OF inv, of x w' s' Panic] by auto
  show "try_finished w s = (w', s', v) \<Longrightarrow> sink_inv w' s'"
    using inv by (simp add: try_finished_def poll_status_inv)
  show "try_finished w s = (w', s', v) \<Longrightarrow> sink_stream w' s' = sink_stream w s"
    by (simp add: try_finished_def poll_status_stream)
  show "sink_inv (env_step a w) s"
    using inv by (rule env_step_inv)
  show "sink_stream (env_step a w) s = Some y \<Longrightarrow> sink_stream w s = Some y"
    using inv by (rule env_step_stream)
qed

subsection \<open>Blocking send\<close>

lemma send_wait_Some:
  assumes "sink_inv w s" "tx s = Some i" "send_wait i x as w = Some (ok, w')"
  shows "sink_inv w' s \<and>
    (ok \<longrightarrow> (\<forall>z. sink_stream w' s = Some z \<longrightarrow> (\<exists>y. sink_stream w s = Some y \<and> z = y @ data x))) \<and>
    (\<not> ok \<longrightarrow> sink_stream w' s = None)"
  using assms
proof (induction as arbitrary: w)
  case Nil
  obtain r w1 where p: "push_at i x w = (r, w1)" by fastforce
  show ?case
    using Nil(1,2) p
    by (cases rule: push_stream_cases) (use Nil p in \<open>auto simp: send_wait.simps env_run_def\<close>)
next
  case (Cons a as)
  obtain r w1 where p: "push_at i x w = (r, w1)" by fastforce
  show ?case
    using Cons.prems(1,2) p
  proof (cases rule: push_stream_cases)
    case p_ok
    then have "w' = env_run (a # as) w1" "ok"
      using Cons.prems(3) p by (auto simp: send_wait.simps)
    then show ?thesis
      using p_ok env_run_inv env_run_stream [of w1 s "a # as"] by (auto simp del: not_None_eq)
  next
    case p_full
    then have "send_wait i x as (env_step a w) = Some (ok, w')"
      using Cons.prems(3) p by (simp add: send_wait.simps [of i x "a # as"])
    then show ?thesis
      using Cons.IH [of "env_step a w"] Cons.prems(1,2) env_step_inv env_step_stream by metis
  next
    case p_closed
    then have "w' = env_run (a # as) w" "\<not> ok"
      using Cons.prems(3) p by (auto simp: send_wait.simps)
    then show ?thesis
      using p_closed(3) env_run_inv [OF Cons.prems(1)] env_run_stream [OF Cons.prems(1), of "a # as"]
      by (cases "sink_stream w' s") auto
  qed
qed

lemma send_wait_alive:
  assumes "i < length (backends w)" "rx_alive (backends w ! i)"
  shows "length (queue (backends w ! i)) < capacity (backends w ! i) \<Longrightarrow> \<exists>w'. send_wait i x as w = Some (True, w')"
    "\<not> length (queue (backends w ! i)) < capacity (backends w ! i) \<Longrightarrow>
      send_wait i x (a # as) w = send_wait i x as (env_step a w)"
  using assms by (simp_all add: send_wait.simps [of i x _ w] push_at_def try_push_def)

text \<open>With the drain task running, a send that waits is accepted after one round.\<close>

lemma send_wait_progress:
  assumes "arena_wf w" "i < length (backends w)"
    "drain_state (backends w ! i) = Receiving \<or> (\<exists>blk. drain_state (backends w ! i) = Writing blk)"
  shows "\<exists>w'. send_wait i x [BackendAct i DrainWrote, BackendAct i DrainRecv] w = Some (True, w')"
proof (cases "length (queue (backends w ! i)) < capacity (backends w ! i)")
  case True
  then show ?thesis
    using send_wait_alive(1) [OF assms(2)] assms(3) by (auto simp: rx_alive_def)
next
  case full: False
  let ?b = "backends w ! i"
  let ?w1 = "env_step (BackendAct i DrainWrote) w" and ?w2 = "env_step (BackendAct i DrainRecv) (env_step (BackendAct i DrainWrote) w)"
  have b1: "drain_state (drain_wrote ?b) = Receiving" "queue (drain_wrote ?b) = queue ?b"
    "capacity (drain_wrote ?b) = capacity ?b"
    using assms(3) by (auto simp: drain_wrote_def)
  have "queue ?b \<noteq> []"
    using full arena_wf_nth [OF assms(1,2)] by (auto simp: backend_wf_def)
  then obtain q0 q where "queue ?b = q0 # q"
    by (cases "queue ?b") auto
  then have b2: "rx_alive (drain_recv (drain_wrote ?b))"
    "length (queue (drain_recv (drain_wrote ?b))) < capacity (drain_recv (drain_wrote ?b))"
    using b1 arena_wf_nth [OF assms(1,2)] by (auto simp: drain_recv_def rx_alive_def backend_wf_def)
  have "send_wait i x [BackendAct i DrainWrote, BackendAct i DrainRecv] w = send_wait i x [BackendAct i DrainRecv] ?w1"
    using send_wait_alive(2) [OF assms(2) _ full] assms(3) by (auto simp: rx_alive_def)
  also have "\<dots> = send_wait i x [] ?w2"
    using send_wait_alive(2) [of i ?w1] full assms(2) b1 by (simp add: rx_alive_def)
  finally show ?thesis
    using send_wait_alive(1) [of i ?w2] assms(2) b2 by simp
qed

subsection \<open>Restart latch\<close>

lemma restart_pending_blocks_open:
  "restart_pending w \<Longrightarrow> \<not> is_open s \<Longrightarrow>
   session_open w s = (w, s\<lparr>terminal := None\<rparr>,
     Err (other_error ''restart pending after successful SWUpdate; rejecting new update''))"
  by (simp add: session_open_def reject_if_restart_pending_def Let_def)

lemma env_step_restart_mono: "restart_pending w \<Longrightarrow> restart_pending (env_step a w)"
  by (cases a) (auto simp: on_update_success_def split: list.splits)

lemma env_run_restart_mono: "restart_pending w \<Longrightarrow> restart_pending (env_run as w)"
  by (induction as arbitrary: w) (simp_all add: env_run_def env_step_restart_mono)

subsection \<open>Buffers\<close>

lemma fit_buffer_cap: "bm_wf b \<Longrightarrow> cap b \<le> cap (fit_buffer c b)"
  by (auto simp: fit_buffer_def clear_def reserve_def bm_wf_def)

lemma fit_buffer_fresh: "cap (fit_buffer c (with_capacity c)) = c"
  by (simp add: fit_buffer_def clear_def with_capacity_def)

subsection \<open>Aborting\<close>

lemma env_run_map_backend:
  assumes "i < length (backends w)"
  shows "backends (env_run (map (BackendAct i) as) w) ! i = fold backend_step as (backends w ! i)"
  using assms
proof (induction as arbitrary: w)
  case (Cons a as)
  then show ?case
    using Cons.IH [of "modify_backend i (backend_step a) w"] by (simp add: env_run_def)
qed (simp add: env_run_def)

lemma abort_backend:
  assumes "i < length (backends w)" "tx s = Some i" "drain_state (backends w ! i) \<noteq> NotSpawned" "backend_wf (backends w ! i)"
  shows "drain_state (backends (fst (abort w s)) ! i) = drain_state (backends w ! i)"
    "queue (backends (fst (abort w s)) ! i) = queue (backends w ! i)"
    "stream_of (backends (fst (abort w s)) ! i) = stream_of (backends w ! i)"
    "\<not> sender (backends (fst (abort w s)) ! i)"
  using assms by (auto simp: abort_def Let_def drop_recycle_def drop_tx_def nth_list_modify cancel_status_def
      drop_queue_def stream_of_def in_flight_def backend_wf_def split: option.splits drain_task.splits)

subsection \<open>Properties\<close>

text \<open>
  C4.  A fresh session fed with any blocks, polled for the verdict and interleaved with any steps of
  the other tasks stays well formed, and as long as it still feeds a live queue the bytes it has taken
  are exactly the accepted blocks in order: nothing is dropped, repeated or reordered.
\<close>

theorem session_feeds_in_order:
  assumes "arena_wf w" "sink_run try_send try_finished env_step es w (session_new p n) = (acc, w', s')"
  shows "sink_inv w' s' \<and> (\<forall>z. sink_stream w' s' = Some z \<longrightarrow> z = acc)"
  using snk.run_inv [OF session_new_inv [OF assms(1)] assms(2)]
    snk.run_taken [OF session_new_inv [OF assms(1)] assms(2)] by auto

theorem session_feeds_in_order_witness:
  "\<exists>w' s'. sink_run try_send try_finished env_step
      [FeedBlock \<lparr>data = [1, 2], cap = 2\<rparr>, Tick (BackendAct 0 Connected), PollVerdict,
       Tick (BackendAct 0 DrainRecv), FeedBlock \<lparr>data = [3], cap = 2\<rparr>]
      idle_world (session_new default_params 64) = ([1, 2, 3], w', s') \<and>
    sink_inv w' s' \<and> sink_stream w' s' = Some [1, 2, 3]"
proof -
  let ?es = "[FeedBlock \<lparr>data = [1, 2], cap = 2\<rparr>, Tick (BackendAct 0 Connected), PollVerdict,
       Tick (BackendAct 0 DrainRecv), FeedBlock \<lparr>data = [3], cap = 2\<rparr>] :: env_action sink_event list"
  obtain acc w' s' where r: "sink_run try_send try_finished env_step ?es
      idle_world (session_new default_params 64) = (acc, w', s')"
    by (metis prod.exhaust)
  have c: "queue_capacity 64 = 32768"
    by (simp add: queue_capacity_def div_ceil_def TARGET_QUEUE_BYTES_def)
  have "acc = [1, 2, 3] \<and> sink_stream w' s' \<noteq> None"
    using r by (auto simp: idle_world_def session_new_def try_send_def ensure_open_def session_open_def is_open_def
       reject_if_restart_pending_def push_at_def try_push_def spawn_def rx_alive_def drop_recycle_def
       modify_backend_def list_modify_def step_defs try_finished_def poll_status_def c Let_def sink_stream_def)
  then show ?thesis
    using r session_feeds_in_order [OF _ r] by (auto simp: arena_wf_def idle_world_def)
qed

text \<open>
  C21.  Aborting a session never leaves SWUpdate waiting: if the drain task of the aborted transfer is
  running, it still writes every byte that was queued and then closes the writer, whatever block it was
  writing at the time.
\<close>

theorem abort_drains_and_closes:
  assumes "sink_inv w s" "tx s = Some i"
    "drain_state (backends w ! i) = Receiving \<or> (\<exists>x. drain_state (backends w ! i) = Writing x)"
    "length (queue (backends w ! i)) \<le> n"
  shows "let (w', s') = abort w s;
      b = backends (env_run (map (BackendAct i) (DrainWrote # drain_rounds n @ [DrainClose])) w') ! i
    in \<not> is_open s' \<and> drain_state b = DrainShut \<and> written b = stream_of (backends w ! i)"
proof -
  obtain w' s' where ab: "abort w s = (w', s')"
    by fastforce
  have i: "i < length (backends w)" "backend_wf (backends w ! i)"
    using assms(1,2) by (auto simp: sink_inv_def session_wf_def arena_wf_nth)
  note frame = abort_backend [OF i(1) assms(2) _ i(2), unfolded ab fst_conv]
  have "drain_state (backends w ! i) \<noteq> NotSpawned"
    using assms(3) by auto
  note frame = frame [OF this]
  have "let b' = fold backend_step (DrainWrote # drain_rounds n @ [DrainClose]) (backends w' ! i) in
    drain_state b' = DrainShut \<and> written b' = stream_of (backends w' ! i)"
    using assms(3,4) frame by (intro drain_completes) simp_all
  moreover have "i < length (backends w')"
    using abort_frame(2) [OF ab] i(1) by simp
  ultimately show ?thesis
    using abort_frame(1) [OF ab] frame(3) ab
    by (simp add: Let_def env_run_map_backend is_open_def del: list.map map_append)
qed


lemma busy_inv: "sink_inv busy_world busy_session"
  by (simp add: sink_inv_def session_wf_def arena_wf_def backend_wf_def busy_world_def busy_session_def
      busy_backend_def idle_world_def session_new_def spawn_def rx_alive_def)

theorem abort_drains_and_closes_witness:
  "let (w', s') = abort busy_world busy_session;
      b = backends (env_run (map (BackendAct 0) (DrainWrote # drain_rounds 1 @ [DrainClose])) w') ! 0
    in \<not> is_open s' \<and> drain_state b = DrainShut \<and> written b = [1, 2, 3]"
proof -
  have "stream_of (backends busy_world ! 0) = [1, 2, 3]"
    by (simp add: busy_world_def busy_backend_def stream_of_def in_flight_def spawn_def)
  then show ?thesis
    using abort_drains_and_closes [OF busy_inv, of 0 1]
    by (simp add: busy_session_def busy_world_def busy_backend_def)
qed

text \<open>
  C20.  A blocking send into a transfer whose drain task runs returns, with the block accepted, as soon
  as the drain task has finished its current block and fetched the next one.
\<close>

theorem send_completes:
  assumes "sink_inv w s" "tx s = Some i"
    "drain_state (backends w ! i) = Receiving \<or> (\<exists>blk. drain_state (backends w ! i) = Writing blk)"
  shows "\<exists>w'. send [BackendAct i DrainWrote, BackendAct i DrainRecv] x w s = Some (w', s, Ok (FeedOk (bm_len x))) \<and>
    sink_inv w' s \<and> (\<forall>z. sink_stream w' s = Some z \<longrightarrow> sink_stream w s \<noteq> None \<and> z = the (sink_stream w s) @ data x)"
proof -
  have "arena_wf w" "i < length (backends w)"
    using assms(1,2) by (auto simp: sink_inv_def session_wf_def)
  then obtain w' where w': "send_wait i x [BackendAct i DrainWrote, BackendAct i DrainRecv] w = Some (True, w')"
    using send_wait_progress assms(3) by blast
  then show ?thesis
    using send_wait_Some [OF assms(1,2) w'] assms(2) by (auto simp: send_def ensure_open_def)
qed

theorem send_completes_witness:
  "\<exists>w'. send [BackendAct 0 DrainWrote, BackendAct 0 DrainRecv] \<lparr>data = [9], cap = 1\<rparr> busy_world busy_session =
     Some (w', busy_session, Ok (FeedOk 1))"
  using send_completes [OF busy_inv, of 0 "\<lparr>data = [9], cap = 1\<rparr>"]
  by (auto simp: busy_session_def busy_world_def busy_backend_def bm_len_def)

text \<open>
  C24.  The verdict is observed once and remembered.  When polling a running transfer yields a verdict, every later
  poll and every later wait for the verdict, whatever the other tasks have done meanwhile, yields the same one at
  once: success again, or an error of kind Other with the text of the first error.  They change nothing: the task
  that schedules the restart is spawned exactly when the verdict is success, by the first poll only.
\<close>

theorem verdict_remembered:
  assumes "status s = Some i" "terminal s = None" "update_type s = Some u"
    "poll_status w s = (w', s', Some v)"
  shows "success_tasks w' = success_tasks w @ (if v = Inr () then [u] else []) \<and>
    (let w'' = env_run as w'; v' = map_sum (\<lambda>e. Custom Other (err_to_string e)) id v in
      poll_status w'' s' = (w'', s', Some v') \<and> try_finished w'' s' = (w'', s', Some v') \<and>
      finished bs w'' s' = Some (env_run bs w'', s', v'))"
proof -
  have "success_tasks w' = success_tasks w @ (if v = Inr () then [u] else [])"
    using assms(4)
  proof (cases rule: poll_status_cases)
    case (joined j r x)
    moreover have "r = Ok () \<longleftrightarrow> x = Inr ()"
      using joined(5) by (cases r) (auto simp: settle_def mark_complete_def Let_def)
    ultimately show ?thesis
      using settle_success [OF joined(5)] assms(3) by simp
  qed (use assms in auto)
  then show ?thesis
    using poll_status_again [OF assms(4), of "env_run as w'"] assms(1,2) by (simp add: Let_def try_finished_def finished.simps)
qed

theorem verdict_remembered_witness:
  "\<exists>w' s'. poll_status done_world busy_session = (w', s', Some (Inr ())) \<and>
    success_tasks w' = [Slot (ascii ''full-b'')] \<and>
    finished [] (env_run [RunSuccess] w') s' = Some (env_run [RunSuccess] w', s', Inr ())"
proof -
  obtain w' s' v where p: "poll_status done_world busy_session = (w', s', v)"
    by (metis prod.exhaust)
  have v: "v = Some (Inr ())"
    using p by (simp add: poll_status_def busy_session_def session_new_def done_world_def settle_def
        mark_complete_def split: prod.splits)
  then show ?thesis
    using p verdict_remembered [of busy_session 0 "Slot (ascii ''full-b'')" done_world w' s' "Inr ()" "[RunSuccess]" "[]"]
    by (simp add: busy_session_def session_new_def done_world_def busy_world_def idle_world_def Let_def env_run_def [of "[]"])
qed

text \<open>
  C25.  After a slot update succeeded and its success task ran, the reboot is scheduled and no session
  can be opened any more: opening reports the pending restart and starts no transfer.
\<close>

theorem restart_blocks_updates:
  assumes "success_tasks w = Slot m # us" "w' = env_run as (env_step RunSuccess w)" "\<not> is_open s"
  shows "reboots (env_step RunSuccess w) = reboots w + 1 \<and>
    session_open w' s = (w', s\<lparr>terminal := None\<rparr>,
      Err (other_error ''restart pending after successful SWUpdate; rejecting new update''))"
  using assms env_run_restart_mono [of "env_step RunSuccess w" as]
  by (simp add: on_update_success_def restart_pending_blocks_open)

theorem restart_blocks_updates_witness:
  "let w = idle_world\<lparr>success_tasks := [Slot (ascii ''full-a'')]\<rparr> in
    reboots (env_step RunSuccess w) = 1 \<and>
    \<not> is_Ok (snd (snd (session_open (env_run [BackendAct 0 Connected] (env_step RunSuccess w)) (session_new default_params 64))))"
  using restart_blocks_updates [of "idle_world\<lparr>success_tasks := [Slot (ascii ''full-a'')]\<rparr>" "ascii ''full-a''" "[]"
     _ "[BackendAct 0 Connected]" "session_new default_params 64", OF _ refl]
  by (simp add: idle_world_def)

text \<open>
  C31.  What an update is asked to write.  On a single-slot boot (SD card, initramfs) opening a session
  starts a \<open>complete\<close> update through the pipe transport; otherwise it goes through the IPC socket and
  its mode names one of the two slots, never the one the board runs from.
\<close>

theorem open_targets_inactive_slot:
  assumes "\<not> is_open s" "\<not> restart_pending w" "session_open w s = (w', s', r)"
  shows "r = Ok () \<and> length (backends w') = Suc (length (backends w)) \<and>
    (let b = backends w' ! length (backends w) in
      (if is_single_slot (boot w) then use_pipe b \<and> mode_arg b = ascii ''complete''
       else \<not> use_pipe b \<and> (\<exists>side. mode_arg b = unwrap_or (ascii ''full'') (image_mode (params s)) @ ascii ''-'' @ side \<and>
         side \<in> {ascii ''a'', ascii ''b''} \<and> current_side_option (boot w) \<noteq> Some side)))"
proof -
  let ?b = "spawn (use_pipe_mode (boot w)) (running_mode (resolve (params s) (boot w)))
    (queue_capacity (max_block_size s))"
  have eqs: "r = Ok ()" "w' = drop_recycle (s\<lparr>terminal := None\<rparr>) (w\<lparr>backends := backends w @ [?b]\<rparr>)"
    using assms by (auto simp: session_open_def reject_if_restart_pending_def Let_def)
  have frame: "use_pipe (backends w' ! length (backends w)) = use_pipe ?b"
    "mode_arg (backends w' ! length (backends w)) = mode_arg ?b"
    by (auto simp: eqs(2) drop_recycle_def nth_list_modify split: option.splits)
  have ne: "current_side_option (boot w) \<noteq> Some (inactive_side (current_side_option (boot w)))"
    using inactive_side_differs [of "boot w"] by (cases "current_side_option (boot w)") force+
  show ?thesis
    using eqs(1) frame ne inactive_side_slot [of "current_side_option (boot w)"]
    by (auto simp: eqs(2) Let_def spawn_def use_pipe_mode_def resolve_def is_single_slot_def)
qed

theorem open_targets_inactive_slot_witness:
  "let w = idle_world\<lparr>boot := \<lparr>root_dev_type = ascii ''mmc'', current_side = ascii ''b'', hw_part_number = None\<rparr>\<rparr>;
       (w', s', r) = session_open w (session_new default_params 64)
   in r = Ok () \<and> length (backends w') = 1 \<and> mode_arg (backends w' ! 0) = ascii ''full-a''"
proof -
  let ?w = "idle_world\<lparr>boot := \<lparr>root_dev_type = ascii ''mmc'', current_side = ascii ''b'', hw_part_number = None\<rparr>\<rparr>"
  obtain w' s' r where p: "session_open ?w (session_new default_params 64) = (w', s', r)"
    by (metis prod.exhaust)
  from open_targets_inactive_slot [OF _ _ p] show ?thesis
    using p by (auto simp: idle_world_def Let_def is_single_slot_def is_running_on_sd_def
        is_running_on_initramfs_def current_side_option_def default_params_def unwrap_or_def is_open_def)
qed

lemma div_ceil_bounds: "0 < m \<Longrightarrow> t \<le> div_ceil t m * m \<and> div_ceil t m * m < t + m"
proof -
  assume m: "0 < m"
  define q r where "q = t div m" and "r = t mod m"
  have e: "t = q * m + r" "r < m"
    using m by (simp_all add: q_def r_def)
  have "div_ceil t m = (if 0 < r then q + 1 else q)"
    by (simp add: div_ceil_def q_def r_def)
  with e show ?thesis
    by (simp add: algebra_simps)
qed

text \<open>
  The memory a queue may hold stays near the 2 MiB target: the capacity times the block size
  reaches the target, and exceeds it by less than one block unless the queue has its minimum of two
  slots.
\<close>

theorem queue_memory_bound:
  "let m = max n 1 in TARGET_QUEUE_BYTES \<le> queue_capacity n * m \<and> 2 \<le> queue_capacity n \<and>
    (queue_capacity n * m < TARGET_QUEUE_BYTES + m \<or> queue_capacity n = 2)"
proof -
  let ?m = "max n 1" and ?c = "div_ceil TARGET_QUEUE_BYTES (max n 1)"
  have b: "TARGET_QUEUE_BYTES \<le> ?c * ?m" "?c * ?m < TARGET_QUEUE_BYTES + ?m"
    using div_ceil_bounds [of ?m TARGET_QUEUE_BYTES] by simp_all
  have "?c * ?m \<le> queue_capacity n * ?m"
    unfolding queue_capacity_def by (rule mult_right_mono) simp_all
  then have "TARGET_QUEUE_BYTES \<le> queue_capacity n * ?m"
    using b(1) by (rule order_trans [rotated])
  moreover have "queue_capacity n = ?c \<or> queue_capacity n = 2"
    by (auto simp: queue_capacity_def max_def)
  ultimately show ?thesis
    using b(2) queue_capacity_ge2 [of n] by (auto simp: Let_def)
qed

text \<open>
  \<open>buffer\<close> does not guarantee the capacity its caller asks for.  The room to add is computed from
  the capacity of the recycled buffer but reserved on top of its contents, which are cleared only
  afterwards, so a recycled buffer that is a little too small is handed out unchanged.
\<close>

theorem buffer_can_be_too_small:
  "\<exists>w s. sink_inv w s \<and> cap (snd (buffer 16384 w s)) = 16367"
proof -
  let ?b = "busy_backend\<lparr>recycled := [\<lparr>data = replicate 495 0, cap = 16367\<rparr>]\<rparr>"
  let ?w = "busy_world\<lparr>backends := [?b]\<rparr>"
  have "sink_inv ?w busy_session"
    using busy_inv by (simp add: sink_inv_def session_wf_def arena_wf_def backend_wf_def busy_world_def
        busy_session_def busy_backend_def idle_world_def session_new_def spawn_def rx_alive_def)
  moreover have "take_recycled ?w busy_session =
      (modify_backend 0 (\<lambda>b. b\<lparr>recycled := []\<rparr>) ?w, Some \<lparr>data = replicate 495 0, cap = 16367\<rparr>)"
    by (simp add: take_recycled_def busy_session_def)
  then have "cap (snd (buffer 16384 ?w busy_session)) = 16367"
    by (simp add: buffer_def fit_buffer_def clear_def reserve_def bm_len_def)
  ultimately show ?thesis
    by blast
qed

end
