(* ===== verification/Healthy_Sink.thy ===== *)
theory Healthy_Sink
  imports Swupdate_Session
begin

text \<open>
  A firmware sink while nothing fails.  \<open>healthy_action\<close> are the steps of the other tasks that are not
  failures; \<open>healthy_sink\<close> is a session that has not been used yet or feeds a live queue.  Feeding,
  polling and the other tasks keep it healthy, and a send that waits is accepted as soon as the drain
  task gets one round.
\<close>

fun healthy_action :: "env_action \<Rightarrow> bool" where
  "healthy_action (BackendAct _ (ConnectFailed _)) = False"
| "healthy_action (BackendAct _ (Verdict (Inl _))) = False"
| "healthy_action (BackendAct _ TaskPanics) = False"
| "healthy_action (BackendAct _ (DrainWriteErr _)) = False"
| "healthy_action _ = True"

definition backend_ok :: "backend \<Rightarrow> bool" where
  "backend_ok b \<longleftrightarrow> rx_alive b \<and> status_state b \<in> {Connecting, Watching, Joined (Ok ())}"

definition unused :: "world \<Rightarrow> SwupdateSession \<Rightarrow> bool" where
  "unused w s \<longleftrightarrow> tx s = None \<and> status s = None \<and> terminal s = None \<and> \<not> restart_pending w \<and> success_tasks w = []"

definition feeding :: "world \<Rightarrow> SwupdateSession \<Rightarrow> bool" where
  "feeding w s \<longleftrightarrow> (case tx s of None \<Rightarrow> False | Some i \<Rightarrow> backend_ok (backends w ! i)) \<and>
     (terminal s = None \<or> terminal s = Some (Inr ()))"

definition healthy_sink :: "world \<Rightarrow> SwupdateSession \<Rightarrow> bool" where
  "healthy_sink w s \<longleftrightarrow> sink_inv w s \<and> (unused w s \<or> feeding w s)"

text \<open>One round of the tasks of a transfer: connected, the current block written, the next one fetched.\<close>

definition drain_round :: "nat \<Rightarrow> env_action list" where
  "drain_round i = [BackendAct i Connected, BackendAct i DrainWrote, BackendAct i DrainRecv]"

subsection \<open>A sink that does not fail\<close>

lemma healthy_stream:
  assumes "healthy_sink w s"
  obtains y where "sink_stream w s = Some y" "unused w s \<Longrightarrow> y = []"
    "\<And>i. tx s = Some i \<Longrightarrow> y = stream_of (backends w ! i)"
proof (cases "unused w s")
  case True
  then show ?thesis
    by (intro that [of "[]"]) (simp_all add: unused_def sink_stream_tx)
next
  case False
  then obtain i where i: "tx s = Some i" "backend_ok (backends w ! i)"
    using assms by (auto simp: healthy_sink_def feeding_def split: option.splits)
  then have "i < length (backends w)"
    using assms by (simp add: healthy_sink_def sink_inv_def session_wf_def)
  then show ?thesis
    using i False by (intro that [of "stream_of (backends w ! i)"]) (simp_all add: sink_stream_tx backend_ok_def)
qed

lemma backend_step_ok:
  assumes "backend_wf b" "sender b" "backend_ok b" "healthy_action (BackendAct i a)"
  shows "backend_ok (backend_step a b) \<and> stream_of (backend_step a b) = stream_of b"
proof (cases a)
  case (Verdict v)
  then show ?thesis
    using assms by (cases v) (auto simp: backend_ok_def step_defs rx_alive_def stream_of_def in_flight_def
       backend_wf_def split: drain_task.splits)
qed (use assms in \<open>auto simp: backend_ok_def step_defs rx_alive_def stream_of_def in_flight_def
       backend_wf_def split: drain_task.splits list.splits if_splits\<close>)

lemma feeding_index:
  assumes "sink_inv w s" "feeding w s"
  obtains i where "tx s = Some i" "i < length (backends w)" "backend_ok (backends w ! i)"
    "sender (backends w ! i)" "backend_wf (backends w ! i)"
    "status s = Some i \<or> status s = None \<and> terminal s = Some (Inr ())"
proof (cases "tx s")
  case None
  then show ?thesis
    using assms(2) by (simp add: feeding_def)
next
  case (Some i)
  then show ?thesis
    using assms by (intro that [of i]) (auto simp: feeding_def sink_inv_def session_wf_def arena_wf_nth)
qed

lemma healthy_env_step:
  assumes "healthy_sink w s" "healthy_action a"
  shows "healthy_sink (env_step a w) s \<and> sink_stream (env_step a w) s = sink_stream w s"
proof (cases "feeding w s")
  case True
  then obtain i where i: "tx s = Some i" "i < length (backends w)" "backend_ok (backends w ! i)"
    "sender (backends w ! i)" "backend_wf (backends w ! i)"
    using assms(1) unfolding healthy_sink_def by (blast elim: feeding_index)
  have "backend_ok (backends (env_step a w) ! i) \<and>
      stream_of (backends (env_step a w) ! i) = stream_of (backends w ! i)"
  proof (cases a)
    case (BackendAct j b)
    then show ?thesis
      using backend_step_ok [OF i(5,4,3)] i assms(2) by (auto simp: nth_list_modify)
  next
    case RunSuccess
    then show ?thesis
      using i by (simp del: env_step.simps)
  qed
  then show ?thesis
    using i assms(1) True env_step_inv [of w s a]
    by (simp add: healthy_sink_def feeding_def sink_stream_tx backend_ok_def del: env_step.simps)
next
  case False
  then have u: "unused w s" "sink_inv w s"
    using assms(1) by (auto simp: healthy_sink_def)
  then have "unused (env_step a w) s"
    by (cases a) (auto simp: unused_def)
  then show ?thesis
    using u env_step_inv [of w s a] by (simp add: healthy_sink_def unused_def sink_stream_tx)
qed

lemma healthy_env_run:
  assumes "healthy_sink w s" "list_all healthy_action as"
  shows "healthy_sink (env_run as w) s \<and> sink_stream (env_run as w) s = sink_stream w s"
  using assms
proof (induction as arbitrary: w)
  case (Cons a as)
  then show ?case
    using healthy_env_step [of w s a] by (simp add: env_run_def del: env_step.simps)
qed (simp add: env_run_def)

lemma unused_open:
  assumes "sink_inv w s" "unused w s" "ensure_open w s = (w', s', r)"
  shows "r = Ok () \<and> sink_inv w' s' \<and> feeding w' s' \<and> sink_stream w' s' = Some []"
proof -
  let ?b = "spawn (use_pipe_mode (boot w)) (running_mode (resolve (params s) (boot w)))
    (queue_capacity (max_block_size s))"
  have no: "\<not> is_open s"
    using assms(2) by (simp add: unused_def is_open_def)
  have op: "session_open w s = (w', s', r)"
    using assms(2,3) by (simp add: unused_def ensure_open_def)
  have eqs: "r = Ok ()" "w' = drop_recycle (s\<lparr>terminal := None\<rparr>) (w\<lparr>backends := backends w @ [?b]\<rparr>)"
    using op no assms(2) by (auto simp: session_open_def reject_if_restart_pending_def Let_def unused_def)
  note o = session_open_Ok [OF assms(1) no op [unfolded eqs(1)]]
  have "backend_ok (backends w' ! length (backends w))"
    by (simp add: eqs(2) drop_recycle_frame backend_ok_def)
  then show ?thesis
    using o eqs(1) by (simp add: feeding_def)
qed

lemma feeding_push:
  assumes "sink_inv w s" "feeding w s" "tx s = Some i" "push_at i x w = (r, w')" "sink_stream w s = Some y"
  shows "sink_inv w' s \<and> feeding w' s \<and>
    (r = Pushed \<and> sink_stream w' s = Some (y @ data x) \<or> r = QueueFull \<and> w' = w)"
  using assms(1,3,4)
proof (cases rule: push_stream_cases)
  case p_ok
  have "i < length (backends w)" "arena_wf w"
    using assms(1,3) by (auto simp: sink_inv_def session_wf_def)
  moreover have "w' = modify_backend i (\<lambda>b. b\<lparr>queue := queue b @ [x]\<rparr>) w"
    using \<open>arena_wf w\<close> assms(4) by (cases rule: push_at_cases) (use p_ok in simp_all)
  ultimately have "feeding w' s"
    using assms(2,3) by (simp add: feeding_def backend_ok_def)
  then show ?thesis
    using p_ok assms(5) by simp
qed (use assms in simp_all)

lemma healthy_try_send:
  assumes "healthy_sink w s" "try_send x w s = (w', s', r)" "sink_stream w s = Some y"
  shows "healthy_sink w' s' \<and> feeding w' s' \<and>
    (r = Ok (FeedOk (bm_len x)) \<and> sink_stream w' s' = Some (y @ data x) \<or>
     r = Ok (FeedFull x) \<and> sink_stream w' s' = Some y)"
proof -
  obtain w1 s1 r1 where eo: "ensure_open w s = (w1, s1, r1)"
    by (cases "ensure_open w s")
  have op: "r1 = Ok () \<and> sink_inv w1 s1 \<and> feeding w1 s1 \<and> sink_stream w1 s1 = Some y"
  proof (cases "unused w s")
    case True
    then show ?thesis
      using unused_open [OF _ True eo] assms(1,3) by (simp add: healthy_sink_def unused_def sink_stream_tx)
  next
    case False
    then show ?thesis
      using assms(1,3) eo by (auto simp: healthy_sink_def feeding_def ensure_open_def split: option.splits)
  qed
  then obtain i where i: "tx s1 = Some i"
    by (auto simp: feeding_def split: option.splits)
  obtain r2 w2 where p: "push_at i x w1 = (r2, w2)"
    by fastforce
  have f: "sink_inv w2 s1 \<and> feeding w2 s1 \<and>
    (r2 = Pushed \<and> sink_stream w2 s1 = Some (y @ data x) \<or> r2 = QueueFull \<and> w2 = w1)"
    using feeding_push [OF _ _ i p] op by blast
  then have "(w', s', r) = (w2, s1, if r2 = Pushed then Ok (FeedOk (bm_len x)) else Ok (FeedFull x))"
    using assms(2) eo op i p by (auto simp: try_send_def)
  then show ?thesis
    using f op by (auto simp: healthy_sink_def)
qed

lemma healthy_poll_status:
  assumes "healthy_sink w s" "is_open s" "try_finished w s = (w', s', v)"
  shows "healthy_sink w' s' \<and> sink_stream w' s' = sink_stream w s \<and> (v = None \<or> v = Some (Inr ())) \<and>
    backends w' = backends w \<and> tx s' = tx s"
proof -
  have inv: "sink_inv w s" and f: "feeding w s"
    using assms(1,2) by (auto simp: healthy_sink_def unused_def is_open_def)
  obtain i where i: "tx s = Some i" "i < length (backends w)" "backend_ok (backends w ! i)"
    "status s = Some i \<or> status s = None \<and> terminal s = Some (Inr ())"
    using inv f by (rule feeding_index)
  have run: "poll_status w s = (w', s', v)"
    using assms(3) by (simp add: try_finished_def)
  have inv': "sink_inv w' s'" "sink_stream w' s' = sink_stream w s"
    using poll_status_inv [OF inv run] poll_status_stream [OF run] by simp_all
  from run have "backends w' = backends w \<and> tx s' = tx s \<and> (v = None \<or> v = Some (Inr ())) \<and>
      (terminal s' = None \<or> terminal s' = Some (Inr ()))"
  proof (cases rule: poll_status_cases)
    case (joined j r x)
    have "r = Ok ()"
      using joined(2,4) i by (auto simp: backend_ok_def)
    then have "settle r w (s\<lparr>status := None\<rparr>) = (fst (mark_complete w (s\<lparr>status := None\<rparr>)),
        s\<lparr>status := None, terminal := Some (Inr ())\<rparr>, Inr ())"
      by (simp add: settle_def mark_complete_def split: prod.split)
    then show ?thesis
      using joined settle_frame [OF joined(5)] by simp
  qed (use i f in \<open>auto simp: feeding_def split: option.splits\<close>)
  then show ?thesis
    using inv' f i by (simp add: healthy_sink_def feeding_def)
qed

subsection \<open>Blocking send into a healthy sink\<close>

lemma healthy_send_wait:
  assumes "sink_inv w s" "feeding w s" "tx s = Some i" "sink_stream w s = Some y" "list_all healthy_action as"
    "send_wait i x as w = Some (ok, w')"
  shows "ok \<and> healthy_sink w' s \<and> feeding w' s \<and> sink_stream w' s = Some (y @ data x)"
  using assms
proof (induction as arbitrary: w)
  case Nil
  obtain r w1 where p: "push_at i x w = (r, w1)" by fastforce
  show ?case
    using feeding_push [OF Nil(1,2,3) p Nil(4)] Nil(6) p
    by (auto simp: send_wait.simps env_run_def healthy_sink_def)
next
  case (Cons a as)
  obtain r w1 where p: "push_at i x w = (r, w1)" by fastforce
  from feeding_push [OF Cons.prems(1,2,3) p Cons.prems(4)] consider
      (pushed) "r = Pushed" "sink_inv w1 s" "feeding w1 s" "sink_stream w1 s = Some (y @ data x)"
    | (full) "r = QueueFull" "w1 = w"
    by blast
  then show ?case
  proof cases
    case pushed
    then have "w' = env_run (a # as) w1" "ok"
      using Cons.prems(6) p by (auto simp: send_wait.simps)
    moreover have "healthy_sink w1 s"
      using pushed by (simp add: healthy_sink_def)
    ultimately show ?thesis
      using healthy_env_run [of w1 s "a # as"] Cons.prems(3,5) pushed
      by (auto simp: healthy_sink_def unused_def)
  next
    case full
    have "healthy_sink w s"
      using Cons.prems(1,2) by (simp add: healthy_sink_def)
    then have h: "healthy_sink (env_step a w) s" "sink_stream (env_step a w) s = Some y"
      using healthy_env_step [of w s a] Cons.prems(4,5) by simp_all
    then have "sink_inv (env_step a w) s" "feeding (env_step a w) s"
      using Cons.prems(3) by (auto simp: healthy_sink_def unused_def)
    moreover have "send_wait i x as (env_step a w) = Some (ok, w')"
      using Cons.prems(6) p full by (simp add: send_wait.simps [of i x "a # as"])
    ultimately show ?thesis
      using Cons.IH [of "env_step a w"] Cons.prems(3,5) h(2) by simp
  qed
qed

lemma send_wait_append: "send_wait i x as w \<noteq> None \<Longrightarrow> send_wait i x (as @ bs) w \<noteq> None"
proof (induction as arbitrary: w)
  case Nil
  then show ?case
    by (subst (asm) send_wait.simps, subst send_wait.simps) (auto split: prod.splits push_result.splits)
next
  case (Cons a as)
  then show ?case
    by (subst (asm) send_wait.simps, subst send_wait.simps) (auto split: prod.splits push_result.splits)
qed

lemma send_wait_Cons: "send_wait i x as (env_step a w) \<noteq> None \<Longrightarrow> send_wait i x (a # as) w \<noteq> None"
  by (subst send_wait.simps) (auto split: prod.splits push_result.splits)

text \<open>With one round of its tasks among what happens, a send into a healthy sink returns.\<close>

lemma healthy_send_wait_returns:
  assumes "healthy_sink w s" "tx s = Some i" "list_all healthy_action xs"
  shows "send_wait i x (xs @ drain_round i @ ys) w \<noteq> None"
  using assms
proof (induction xs arbitrary: w)
  case Nil
  have inv: "sink_inv w s" and fd: "feeding w s"
    using Nil(1,2) by (auto simp: healthy_sink_def unused_def)
  have i: "i < length (backends w)" "backend_ok (backends w ! i)" "backend_wf (backends w ! i)"
    using feeding_index [OF inv fd] Nil(2) by (metis option.inject)+
  let ?w1 = "env_step (BackendAct i Connected) w"
  have "drain_state (backends ?w1 ! i) = Receiving \<or> (\<exists>blk. drain_state (backends ?w1 ! i) = Writing blk)"
    using i by (auto simp: step_defs backend_ok_def rx_alive_def backend_wf_def split: drain_task.splits)
  moreover have "arena_wf ?w1" "i < length (backends ?w1)"
    using env_step_inv [OF inv, of "BackendAct i Connected"] i(1) by (simp_all add: sink_inv_def)
  ultimately obtain w' where "send_wait i x [BackendAct i DrainWrote, BackendAct i DrainRecv] ?w1 = Some (True, w')"
    using send_wait_progress [of ?w1 i x] by blast
  then have "send_wait i x [BackendAct i DrainWrote, BackendAct i DrainRecv] ?w1 \<noteq> None"
    by simp
  from send_wait_append [OF send_wait_Cons [OF this]] show ?case
    by (simp add: drain_round_def)
next
  case (Cons a xs)
  have "healthy_sink (env_step a w) s"
    using healthy_env_step [OF Cons.prems(1), of a] Cons.prems(3) by simp
  moreover have "list_all healthy_action xs"
    using Cons.prems(3) by simp
  ultimately show ?case
    using send_wait_Cons [OF Cons.IH [OF _ Cons.prems(2)]] by simp
qed

lemma healthy_send:
  assumes "healthy_sink w s" "tx s = Some i" "sink_stream w s = Some y" "list_all healthy_action as"
    "as = xs @ drain_round i @ ys"
  shows "\<exists>w'. send as x w s = Some (w', s, Ok (FeedOk (bm_len x))) \<and> healthy_sink w' s \<and>
    sink_stream w' s = Some (y @ data x)"
proof -
  obtain ok w' where sw: "send_wait i x as w = Some (ok, w')"
    using healthy_send_wait_returns [OF assms(1,2), of xs x ys] assms(4,5) by fastforce
  moreover have "sink_inv w s" "feeding w s"
    using assms(1,2) by (auto simp: healthy_sink_def unused_def)
  ultimately have "ok \<and> healthy_sink w' s \<and> sink_stream w' s = Some (y @ data x)"
    using healthy_send_wait [OF _ _ assms(2,3,4) sw] by blast
  then show ?thesis
    using sw assms(2) by (auto simp: send_def ensure_open_def)
qed

end
