(* ===== verification/Sink_Account.thy ===== *)
theory Sink_Account
  imports Swupdate_Session
begin

text \<open>
  Accounting for one transfer of a session.  \<open>handed i w xs w'\<close> says what the tasks of transfer \<open>i\<close> have been given
  between two worlds: if nothing that was queued has been thrown away, exactly \<open>xs\<close>.  A session is \<open>linked\<close> to the
  transfer while it feeds its queue or the queue has lost its receiver.  Every operation of the session keeps the account
  (\<open>accounts\<close>); an operation after which the session still holds the sender has had every block accepted (\<open>kept\<close>).
  \<open>failed_at\<close> is a transfer that ended with a failure.
\<close>

definition handed :: "nat \<Rightarrow> world \<Rightarrow> bytes \<Rightarrow> world \<Rightarrow> bool" where
  "handed i w xs w' \<longleftrightarrow> (intact (backends w' ! i) \<longrightarrow>
     intact (backends w ! i) \<and> stream_of (backends w' ! i) = stream_of (backends w ! i) @ xs)"

definition linked :: "nat \<Rightarrow> world \<Rightarrow> SwupdateSession \<Rightarrow> bool" where
  "linked i w s \<longleftrightarrow> i < length (backends w) \<and> (tx s = Some i \<or> \<not> intact (backends w ! i))"

definition accounts :: "nat \<Rightarrow> world \<Rightarrow> SwupdateSession \<Rightarrow> bytes \<Rightarrow> world \<Rightarrow> SwupdateSession \<Rightarrow> bool" where
  "accounts i w s xs w' s' \<longleftrightarrow> (linked i w s \<longrightarrow> linked i w' s' \<and> handed i w xs w')"

definition kept :: "nat \<Rightarrow> world \<Rightarrow> SwupdateSession \<Rightarrow> bytes \<Rightarrow> world \<Rightarrow> SwupdateSession \<Rightarrow> bool" where
  "kept i w s xs w' s' \<longleftrightarrow> (tx s = Some i \<longrightarrow> tx s' = Some i \<and> handed i w xs w')"

definition attached :: "nat \<Rightarrow> SwupdateSession \<Rightarrow> bool" where
  "attached i s \<longleftrightarrow> status s = Some i \<or> terminal s = Some (Inr ())"

definition failed_at :: "nat \<Rightarrow> world \<Rightarrow> bool" where
  "failed_at i w \<longleftrightarrow> i < length (backends w) \<and>
    (case status_state (backends w ! i) of Joined r \<Rightarrow> r \<noteq> Ok () | _ \<Rightarrow> False)"

subsection \<open>Composition\<close>

lemma handed_refl: "handed i w [] w"
  by (simp add: handed_def)

lemma handed_trans: "handed i w xs w1 \<Longrightarrow> handed i w1 ys w2 \<Longrightarrow> handed i w (xs @ ys) w2"
  by (auto simp: handed_def)

lemma accounts_refl: "accounts i w s [] w s"
  by (simp add: accounts_def handed_refl)

lemma accounts_trans: "accounts i w s xs w1 s1 \<Longrightarrow> accounts i w1 s1 ys w2 s2 \<Longrightarrow> accounts i w s (xs @ ys) w2 s2"
  unfolding accounts_def using handed_trans by blast

lemma kept_refl: "kept i w s [] w s"
  by (simp add: kept_def handed_refl)

lemma kept_trans: "kept i w s xs w1 s1 \<Longrightarrow> kept i w1 s1 ys w2 s2 \<Longrightarrow> kept i w s (xs @ ys) w2 s2"
  unfolding kept_def using handed_trans by blast

text \<open>Nothing happens to the queue: the other fields of the session may change.\<close>

lemma account_frame:
  "backends w' = backends w \<Longrightarrow> tx s' = tx s \<Longrightarrow> accounts i w s [] w' s'"
  "backends w' = backends w \<Longrightarrow> tx s' = tx s \<Longrightarrow> kept i w s [] w' s'"
  by (simp_all add: accounts_def kept_def linked_def handed_def)

subsection \<open>The other tasks\<close>

lemma env_step_handed: "arena_wf w \<Longrightarrow> i < length (backends w) \<Longrightarrow> handed i w [] (env_step a w)"
proof (cases a)
  case (BackendAct j b)
  assume "arena_wf w" "i < length (backends w)"
  then show ?thesis
    using BackendAct backend_step_whole [of "backends w ! i" b] by (auto simp: handed_def nth_list_modify arena_wf_nth)
next
  case RunSuccess
  then show ?thesis
    by (simp add: handed_def del: env_step.simps)
qed

lemma env_run_handed: "arena_wf w \<Longrightarrow> i < length (backends w) \<Longrightarrow> handed i w [] (env_run as w)"
proof (induction as arbitrary: w)
  case (Cons a as)
  then show ?case
    using handed_trans [OF env_step_handed [of w i a]] env_step_arena [of w a] by (fastforce simp: env_run_def)
qed (simp add: env_run_def handed_refl)

lemma length_env_run [simp]: "length (backends (env_run as w)) = length (backends w)"
  by (induction as arbitrary: w) (simp_all add: env_run_def del: env_step.simps)

lemma env_run_account:
  assumes "sink_inv w s"
  shows "accounts i w s [] (env_run as w) s" "kept i w s [] (env_run as w) s"
  using env_run_handed [of w i as] assms
  by (auto simp: accounts_def kept_def linked_def handed_def sink_inv_def session_wf_def)

lemma backend_step_joined: "status_state b = Joined r \<Longrightarrow> status_state (backend_step a b) = Joined r"
  by (cases a) (auto simp: step_defs split: drain_task.splits list.splits)

lemma failed_at_env_step: "failed_at i w \<Longrightarrow> failed_at i (env_step a w)"
proof (cases a)
  case (BackendAct j b)
  assume "failed_at i w"
  then show ?thesis
    using BackendAct by (auto simp: failed_at_def nth_list_modify backend_step_joined split: status_task.splits)
qed (simp add: failed_at_def del: env_step.simps)

lemma failed_at_env_run: "failed_at i w \<Longrightarrow> failed_at i (env_run as w)"
  by (induction as arbitrary: w) (simp_all add: env_run_def failed_at_env_step del: env_step.simps)

subsection \<open>The operations of the session\<close>

lemma intact_frame:
  assumes "i < length (backends w)"
  shows "intact (backends (drop_tx s w) ! i) = intact (backends w ! i)"
    "intact (backends (drop_recycle s w) ! i) = intact (backends w ! i)"
    "stream_of (backends (drop_recycle s w) ! i) = stream_of (backends w ! i)"
  using assms by (auto simp: drop_tx_def drop_recycle_def nth_list_modify intact_def rx_alive_def stream_of_def in_flight_def
      split: option.splits drain_task.splits)

lemma intact_push [simp]: "intact (b\<lparr>queue := q\<rparr>) = intact b"
  by (simp add: intact_def)

text \<open>An open session is not opened again; an unused one opens a new transfer and leaves the others alone.\<close>

lemma ensure_open_account:
  assumes "sink_inv w s" "ensure_open w s = (w', s', r)"
  shows "accounts i w s [] w' s'" "kept i w s [] w' s'" "sink_inv w' s'" "attached i s \<Longrightarrow> w' = w \<and> s' = s \<and> r = Ok ()"
proof -
  have "accounts i w s [] w' s' \<and> kept i w s [] w' s' \<and> sink_inv w' s'"
    using assms
  proof (cases rule: ensure_open_cases)
    case opened
    have "session_open w s = (w', s', Ok ())"
      using assms(2) opened by (simp add: ensure_open_def)
    then have w': "\<exists>b. w' = drop_recycle (s\<lparr>terminal := None\<rparr>) (w\<lparr>backends := backends w @ [b]\<rparr>)"
      using opened(2,3) by (auto simp: session_open_def is_open_def reject_if_restart_pending_def Let_def split: if_splits)
    then have "accounts i w s [] w' s'"
      using opened(2) by (auto simp: accounts_def linked_def handed_def intact_frame nth_append)
    then show ?thesis
      using opened by (simp add: kept_def)
  qed (use assms in \<open>simp_all add: accounts_refl kept_refl\<close>)
  then show "accounts i w s [] w' s'" "kept i w s [] w' s'" "sink_inv w' s'"
    by simp_all
  show "attached i s \<Longrightarrow> w' = w \<and> s' = s \<and> r = Ok ()"
    using assms(2) by (auto simp: attached_def ensure_open_def)
qed

text \<open>The queue of a session that has lost its receiver.\<close>

lemma closed_account:
  assumes "sink_inv w s" "tx s = Some j" "\<not> rx_alive (backends w ! j)"
  shows "accounts i w s xs (drop_tx s w) (s\<lparr>tx := None\<rparr>)"
proof -
  have "j < length (backends w)" "sender (backends w ! j)" "backend_wf (backends w ! j)"
    using assms(1,2) by (auto simp: sink_inv_def session_wf_def arena_wf_nth)
  then have "\<not> intact (backends w ! j)"
    using assms(3) by (auto simp: intact_def backend_wf_def)
  then show ?thesis
    using assms(2) by (auto simp: accounts_def linked_def handed_def intact_frame)
qed

lemma push_account:
  assumes "arena_wf w" "tx s = Some j" "push_at j x w = (Pushed, w')"
  shows "accounts i w s (data x) w' s" "kept i w s (data x) w' s"
proof -
  have "j < length (backends w)" "w' = modify_backend j (\<lambda>b. b\<lparr>queue := queue b @ [x]\<rparr>) w"
    using assms(1,3) by (cases rule: push_at_cases; simp)+
  then show "accounts i w s (data x) w' s" "kept i w s (data x) w' s"
    using assms(2) by (auto simp: accounts_def kept_def linked_def handed_def nth_list_modify)
qed

lemma try_send_account:
  assumes "sink_inv w s" "try_send x w s = (w', s', r)"
  shows "r = Ok (FeedOk n) \<Longrightarrow> accounts i w s (data x) w' s' \<and> kept i w s (data x) w' s'"
    "r = Ok (FeedFull x') \<Longrightarrow> accounts i w s [] w' s' \<and> kept i w s [] w' s'"
    "r = Ok FeedClosed \<Longrightarrow> accounts i w s xs w' s'"
    "attached i s \<Longrightarrow> attached i s' \<and> (\<exists>f. r = Ok f)"
proof -
  obtain w1 s1 r1 where eo: "ensure_open w s = (w1, s1, r1)"
    by (cases "ensure_open w s")
  note e = ensure_open_account(1,2) [OF assms(1) eo, of i] ensure_open_account(3) [OF assms(1) eo]
    ensure_open_account(4) [OF assms(1) eo, of i]
  have main: "(\<forall>n. r = Ok (FeedOk n) \<longrightarrow> accounts i w s (data x) w' s' \<and> kept i w s (data x) w' s') \<and>
      (\<forall>x'. r = Ok (FeedFull x') \<longrightarrow> accounts i w s [] w' s' \<and> kept i w s [] w' s') \<and>
      (r = Ok FeedClosed \<longrightarrow> accounts i w s xs w' s') \<and> (r1 = Ok () \<longrightarrow> status s' = status s1 \<and> terminal s' = terminal s1 \<and> (\<exists>f. r = Ok f))"
  proof (cases "r1 = Ok ()")
    case False
    then show ?thesis
      using assms(2) eo by (cases r1) (auto simp: try_send_def)
  next
    case r1: True
    show ?thesis
    proof (cases "tx s1")
      case None
      then have "w' = w1" "s' = s1" "r = Ok FeedClosed"
        using assms(2) eo r1 by (simp_all add: try_send_def)
      moreover have "accounts i w1 s1 xs w1 s1"
        using None by (auto simp: accounts_def linked_def handed_def)
      ultimately show ?thesis
        using accounts_trans [OF e(1)] by fastforce
    next
      case (Some j)
      obtain q w2 where p: "push_at j x w1 = (q, w2)"
        by fastforce
      have arena: "arena_wf w1"
        using e(3) by (simp add: sink_inv_def)
      show ?thesis
        using arena p
      proof (cases rule: push_at_cases)
        case pushed
        then have "w' = w2" "s' = s1" "r = Ok (FeedOk (bm_len x))"
          using assms(2) eo r1 Some p by (simp_all add: try_send_def)
        then show ?thesis
          using accounts_trans [OF e(1) push_account(1) [OF arena Some p [unfolded pushed(1)], of i]]
            kept_trans [OF e(2) push_account(2) [OF arena Some p [unfolded pushed(1)], of i]] by simp
      next
        case full
        then have "w' = w1" "s' = s1" "r = Ok (FeedFull x)"
          using assms(2) eo r1 Some p by (simp_all add: try_send_def)
        then show ?thesis
          using e by simp
      next
        case closed
        then have "w' = drop_tx s1 w1" "s' = s1\<lparr>tx := None\<rparr>" "r = Ok FeedClosed"
          using assms(2) eo r1 Some p by (simp_all add: try_send_def tx_set_none_def)
        moreover have "j < length (backends w1)"
          using e(3) Some by (auto simp: sink_inv_def session_wf_def)
        ultimately show ?thesis
          using accounts_trans [OF e(1) closed_account [OF e(3) Some, of i xs]] closed(3) by simp
      qed
    qed
  qed
  then show "r = Ok (FeedOk n) \<Longrightarrow> accounts i w s (data x) w' s' \<and> kept i w s (data x) w' s'"
    "r = Ok (FeedFull x') \<Longrightarrow> accounts i w s [] w' s' \<and> kept i w s [] w' s'"
    "r = Ok FeedClosed \<Longrightarrow> accounts i w s xs w' s'"
    by simp_all
  show "attached i s \<Longrightarrow> attached i s' \<and> (\<exists>f. r = Ok f)"
    using main e(4) by (auto simp: attached_def)
qed

lemma env_run_dead:
  "arena_wf w \<Longrightarrow> j < length (backends w) \<Longrightarrow> \<not> rx_alive (backends w ! j) \<Longrightarrow> \<not> rx_alive (backends (env_run as w) ! j)"
proof (induction as arbitrary: w)
  case (Cons a as)
  have "\<not> rx_alive (backends (env_step a w) ! j)"
  proof (cases a)
    case (BackendAct k b)
    then show ?thesis
      using Cons.prems backend_step_dead [of "backends w ! j" b] by (auto simp: nth_list_modify arena_wf_nth)
  qed (use Cons.prems in \<open>simp del: env_step.simps\<close>)
  then show ?case
    using Cons.IH [of "env_step a w"] Cons.prems env_step_arena [of w a] by (simp add: env_run_def del: env_step.simps)
qed (simp add: env_run_def)

lemma send_wait_account:
  assumes "sink_inv w s" "tx s = Some j" "send_wait j x as w = Some (ok, w')"
  shows "sink_inv w' s \<and> (ok \<longrightarrow> accounts i w s (data x) w' s \<and> kept i w s (data x) w' s) \<and>
    (\<not> ok \<longrightarrow> accounts i w s [] w' s \<and> \<not> rx_alive (backends w' ! j))"
  using assms
proof (induction as arbitrary: w)
  case Nil
  obtain r w1 where p: "push_at j x w = (r, w1)" by fastforce
  have arena: "arena_wf w" and j: "j < length (backends w)"
    using Nil(1,2) by (auto simp: sink_inv_def session_wf_def)
  show ?case
    using arena p
  proof (cases rule: push_at_cases)
    case pushed
    then show ?thesis
      using Nil p push_account [OF arena Nil(2), of x w1 i] push_inv [OF Nil(1) p] by (simp add: send_wait.simps env_run_def)
  qed (use Nil p j accounts_refl [of i w s] in \<open>auto simp: send_wait.simps env_run_def\<close>)
next
  case (Cons a as)
  obtain r w1 where p: "push_at j x w = (r, w1)" by fastforce
  have arena: "arena_wf w" and j: "j < length (backends w)"
    using Cons.prems(1,2) by (auto simp: sink_inv_def session_wf_def)
  show ?case
    using arena p
  proof (cases rule: push_at_cases)
    case pushed
    then have e: "w' = env_run (a # as) w1" "ok"
      using Cons.prems(3) p by (auto simp: send_wait.simps)
    note a = push_account [OF arena Cons.prems(2) p [unfolded pushed(1)], of i]
    have inv: "sink_inv w1 s"
      using push_inv [OF Cons.prems(1) p] .
    show ?thesis
      using accounts_trans [OF a(1) env_run_account(1) [OF inv, of i "a # as"]] kept_trans [OF a(2) env_run_account(2) [OF inv, of i "a # as"]]
        env_run_inv [OF inv] e by simp
  next
    case full
    then have s1: "send_wait j x as (env_step a w) = Some (ok, w')"
      using Cons.prems(3) p by (simp add: send_wait.simps [of j x "a # as"])
    have inv: "sink_inv (env_step a w) s"
      by (rule env_step_inv [OF Cons.prems(1)])
    have st: "accounts i w s [] (env_step a w) s" "kept i w s [] (env_step a w) s"
      using env_run_account [OF Cons.prems(1), of i "[a]"] by (simp_all add: env_run_def)
    show ?thesis
      using Cons.IH [OF inv Cons.prems(2) s1] accounts_trans [OF st(1)] kept_trans [OF st(2)] by fastforce
  next
    case closed
    then have e: "w' = env_run (a # as) w" "\<not> ok"
      using Cons.prems(3) p by (auto simp: send_wait.simps)
    then show ?thesis
      using env_run_account(1) [OF Cons.prems(1)] env_run_inv [OF Cons.prems(1)] env_run_dead [OF arena j] closed(3) j by simp
  qed
qed

lemma send_account:
  assumes "sink_inv w s" "send as x w s = Some (w', s', r)"
  shows "r = Ok (FeedOk n) \<Longrightarrow> accounts i w s (data x) w' s' \<and> kept i w s (data x) w' s'"
    "r = Ok FeedClosed \<Longrightarrow> accounts i w s xs w' s'"
    "attached i s \<Longrightarrow> attached i s' \<and> (\<exists>f. r = Ok f)"
    "r \<noteq> Ok (FeedFull x')"
proof -
  obtain w1 s1 r1 where eo: "ensure_open w s = (w1, s1, r1)"
    by (cases "ensure_open w s")
  note e = ensure_open_account(1,2) [OF assms(1) eo, of i] ensure_open_account(3) [OF assms(1) eo]
    ensure_open_account(4) [OF assms(1) eo, of i]
  have main: "(\<forall>n. r = Ok (FeedOk n) \<longrightarrow> accounts i w s (data x) w' s' \<and> kept i w s (data x) w' s') \<and>
      (r = Ok FeedClosed \<longrightarrow> accounts i w s xs w' s') \<and> r \<noteq> Ok (FeedFull x') \<and>
      (r1 = Ok () \<longrightarrow> status s' = status s1 \<and> terminal s' = terminal s1 \<and> (\<exists>f. r = Ok f))"
  proof (cases "r1 = Ok ()")
    case False
    then show ?thesis
      using assms(2) eo by (cases r1) (auto simp: send_def)
  next
    case r1: True
    show ?thesis
    proof (cases "tx s1")
      case None
      then have "w' = w1" "s' = s1" "r = Ok FeedClosed"
        using assms(2) eo r1 by (simp_all add: send_def)
      moreover have "accounts i w1 s1 xs w1 s1"
        using None by (auto simp: accounts_def linked_def handed_def)
      ultimately show ?thesis
        using accounts_trans [OF e(1)] by fastforce
    next
      case (Some j)
      obtain ok w2 where p: "send_wait j x as w1 = Some (ok, w2)"
        using assms(2) eo r1 Some by (cases "send_wait j x as w1") (auto simp: send_def)
      note a = send_wait_account [OF e(3) Some p, of i]
      show ?thesis
      proof (cases ok)
        case True
        then have "w' = w2" "s' = s1" "r = Ok (FeedOk (bm_len x))"
          using assms(2) eo r1 Some p by (simp_all add: send_def)
        then show ?thesis
          using accounts_trans [OF e(1)] kept_trans [OF e(2)] a True by fastforce
      next
        case False
        then have "w' = drop_tx s1 w2" "s' = s1\<lparr>tx := None\<rparr>" "r = Ok FeedClosed"
          using assms(2) eo r1 Some p by (simp_all add: send_def tx_set_none_def)
        then show ?thesis
          using accounts_trans [OF accounts_trans [OF e(1), of "[]" w2 s1], of xs] closed_account [of w2 s1 j i xs] a False Some by simp
      qed
    qed
  qed
  then show "r = Ok (FeedOk n) \<Longrightarrow> accounts i w s (data x) w' s' \<and> kept i w s (data x) w' s'"
    "r = Ok FeedClosed \<Longrightarrow> accounts i w s xs w' s'" "r \<noteq> Ok (FeedFull x')"
    by simp_all
  show "attached i s \<Longrightarrow> attached i s' \<and> (\<exists>f. r = Ok f)"
    using main e(4) by (auto simp: attached_def)
qed

lemma poll_status_account:
  assumes "sink_inv w s" "poll_status w s = (w', s', v)"
  shows "accounts i w s [] w' s'" "kept i w s [] w' s'"
    "attached i s \<Longrightarrow> v = Some (Inl e) \<Longrightarrow> failed_at i w'"
    "attached i s \<Longrightarrow> (\<And>e. v \<noteq> Some (Inl e)) \<Longrightarrow> attached i s'"
proof -
  from assms(2) have "backends w' = backends w \<and> tx s' = tx s \<and>
      (attached i s \<longrightarrow> (\<forall>e. v = Some (Inl e) \<longrightarrow> failed_at i w') \<and> ((\<forall>e. v \<noteq> Some (Inl e)) \<longrightarrow> attached i s'))"
  proof (cases rule: poll_status_cases)
    case (joined j r x)
    have j: "j < length (backends w)"
      using assms(1) joined by (auto simp: sink_inv_def session_wf_def)
    show ?thesis
    proof (cases "r = Ok ()")
      case True
      then have "settle r w (s\<lparr>status := None\<rparr>) = (fst (mark_complete w (s\<lparr>status := None\<rparr>)),
          s\<lparr>status := None, terminal := Some (Inr ())\<rparr>, Inr ())"
        by (simp add: settle_def mark_complete_def split: prod.split)
      then show ?thesis
        using joined settle_frame [OF joined(5)] by (simp add: attached_def)
    next
      case False
      then have "\<exists>e. x = Inl e"
        using joined(5) by (cases r) (auto simp: settle_def Let_def)
      then show ?thesis
        using joined settle_frame [OF joined(5)] j False by (auto simp: attached_def failed_at_def)
    qed
  qed (use assms(1) in \<open>auto simp: attached_def sink_inv_def session_wf_def\<close>)
  then show "accounts i w s [] w' s'" "kept i w s [] w' s'"
    "attached i s \<Longrightarrow> v = Some (Inl e) \<Longrightarrow> failed_at i w'"
    "attached i s \<Longrightarrow> (\<And>e. v \<noteq> Some (Inl e)) \<Longrightarrow> attached i s'"
    by (auto intro: account_frame)
qed

lemma finished_account:
  assumes "sink_inv w s" "finished as w s = Some (w', s', v)"
  shows "accounts i w s [] w' s' \<and> kept i w s [] w' s' \<and> sink_inv w' s' \<and>
    (attached i s \<longrightarrow> (case v of Inl _ \<Rightarrow> failed_at i w' | Inr _ \<Rightarrow> attached i s'))"
  using assms
proof (induction as arbitrary: w s)
  case Nil
  obtain w1 s1 q where p: "poll_status w s = (w1, s1, q)"
    by (cases "poll_status w s")
  then have "q = Some v" "w' = w1" "s' = s1"
    using Nil(2) by (auto simp: finished.simps env_run_def split: option.splits)
  then show ?case
    using poll_status_account [OF Nil(1) p, of i] poll_status_inv [OF Nil(1) p] by (auto split: sum.splits)
next
  case (Cons a as)
  obtain w1 s1 q where p: "poll_status w s = (w1, s1, q)"
    by (cases "poll_status w s")
  note a = poll_status_account [OF Cons.prems(1) p, of i]
  have inv: "sink_inv w1 s1"
    using poll_status_inv [OF Cons.prems(1) p] .
  show ?case
  proof (cases q)
    case None
    then have f: "finished as (env_step a w1) s1 = Some (w', s', v)"
      using Cons.prems(2) p by (simp add: finished.simps [of "a # as"])
    have st: "accounts i w s [] (env_step a w1) s1" "kept i w s [] (env_step a w1) s1"
      using accounts_trans [OF a(1) env_run_account(1) [OF inv, of i "[a]"]] kept_trans [OF a(2) env_run_account(2) [OF inv, of i "[a]"]]
      by (simp_all add: env_run_def)
    show ?thesis
      using Cons.IH [OF env_step_inv [OF inv] f] accounts_trans [OF st(1)] kept_trans [OF st(2)] a(4) None
      by (fastforce split: sum.splits)
  next
    case (Some x)
    then have e: "w' = env_run (a # as) w1" "s' = s1" "v = x"
      using Cons.prems(2) p by (auto simp: finished.simps)
    then show ?thesis
      using accounts_trans [OF a(1) env_run_account(1) [OF inv, of i "a # as"]] kept_trans [OF a(2) env_run_account(2) [OF inv, of i "a # as"]]
        env_run_inv [OF inv] a(3,4) Some failed_at_env_run by (auto split: sum.splits)
  qed
qed

lemma buffer_account:
  assumes "sink_inv w s" "buffer n w s = (w', b)"
  shows "accounts i w s [] w' s" "kept i w s [] w' s" "failed_at i w \<Longrightarrow> failed_at i w'"
proof -
  obtain x where t: "take_recycled w s = (w', x)"
    using buffer_world [of n w s] assms(2) by (cases "take_recycled w s") auto
  have "intact (backends w' ! i) = intact (backends w ! i) \<and> stream_of (backends w' ! i) = stream_of (backends w ! i) \<and>
      status_state (backends w' ! i) = status_state (backends w ! i) \<and> length (backends w') = length (backends w)"
    if "i < length (backends w)"
    using t by (cases rule: take_recycled_cases) (use that in \<open>auto simp: nth_list_modify intact_def rx_alive_def stream_of_def
      in_flight_def split: drain_task.splits\<close>)
  then show "accounts i w s [] w' s" "failed_at i w \<Longrightarrow> failed_at i w'"
    by (auto simp: accounts_def linked_def handed_def failed_at_def)
  moreover have "tx s = Some i \<Longrightarrow> i < length (backends w)"
    using assms(1) by (simp add: sink_inv_def session_wf_def)
  ultimately show "kept i w s [] w' s"
    by (auto simp: kept_def accounts_def linked_def)
qed

end
