(* ===== verification/Async_Io.thy ===== *)
theory Async_Io
  imports Healthy_Sink Sink_Account
begin

text \<open>
  Asynchronous code over a network connection.

  An \<^verbatim>\<open>async fn\<close> that returns \<^verbatim>\<open>io::Result\<close> is a \<open>prog\<close>: a function from the state to None when it
  is still waiting (or its loop has not ended), or to the new state and an outcome.  \<open>andthen\<close> is
  \<^verbatim>\<open>?\<close> followed by the rest of the body, \<open>attempt\<close> is awaiting a call without \<^verbatim>\<open>?\<close>.

  A \<open>client\<close> is one connection with the firmware sink it feeds.  What the peer does is the list
  \<open>inbox\<close>: segments that arrive, lapses of the inactivity timeout, and receive errors; its end is the
  peer's close.  What the other tasks do while the task waits at its n-th await point is \<open>sched n\<close>.
  The outcome of each write is scripted by \<open>wr_script\<close>; a failed write may have sent a part.
\<close>

subsection \<open>Programs\<close>

type_synonym ('c, 'a) prog = "'c \<Rightarrow> ('c \<times> 'a outcome) option"

definition ret :: "'a \<Rightarrow> ('c, 'a) prog" where
  "ret x c = Some (c, Ok x)"

text \<open>A program that has not returned.\<close>

definition stuck :: "('c, 'a) prog" where
  "stuck c = None"

definition raise :: "io_error \<Rightarrow> ('c, 'a) prog" where
  "raise e c = Some (c, Err e)"

definition andthen :: "('c, 'a) prog \<Rightarrow> ('a \<Rightarrow> ('c, 'b) prog) \<Rightarrow> ('c, 'b) prog" where
  "andthen m f c =
    (case m c of
       None \<Rightarrow> None
     | Some (c', r) \<Rightarrow> (case r of Ok x \<Rightarrow> f x c' | Err e \<Rightarrow> Some (c', Err e) | Panic \<Rightarrow> Some (c', Panic)))"

definition attempt :: "('c, 'a) prog \<Rightarrow> ('c, io_error + 'a) prog" where
  "attempt m c =
    (case m c of
       None \<Rightarrow> None
     | Some (c', r) \<Rightarrow>
        Some (c', case r of Ok x \<Rightarrow> Ok (Inr x) | Err e \<Rightarrow> Ok (Inl e) | Panic \<Rightarrow> Panic))"

definition modify :: "('c \<Rightarrow> 'c) \<Rightarrow> ('c, unit) prog" where
  "modify f c = Some (f c, Ok ())"

definition query :: "('c \<Rightarrow> 'a) \<Rightarrow> ('c, 'a) prog" where
  "query f c = Some (c, Ok (f c))"

fun of_result :: "io_error + 'a \<Rightarrow> ('c, 'a) prog" where
  "of_result (Inl e) = raise e"
| "of_result (Inr x) = ret x"

text \<open>
  \<open>wp m Q c\<close>: if the program returns from \<open>c\<close>, state and outcome satisfy \<open>Q\<close>; \<open>returns m Q c\<close>: it
  does return, and they do.
\<close>

definition wp :: "('c, 'a) prog \<Rightarrow> ('c \<Rightarrow> 'a outcome \<Rightarrow> bool) \<Rightarrow> 'c \<Rightarrow> bool" where
  "wp m Q c \<longleftrightarrow> (case m c of None \<Rightarrow> True | Some (c', r) \<Rightarrow> Q c' r)"

definition returns :: "('c, 'a) prog \<Rightarrow> ('c \<Rightarrow> 'a outcome \<Rightarrow> bool) \<Rightarrow> 'c \<Rightarrow> bool" where
  "returns m Q c \<longleftrightarrow> (case m c of None \<Rightarrow> False | Some (c', r) \<Rightarrow> Q c' r)"

subsection \<open>A connection\<close>

datatype net_event = Arrive bytes | Idle | RecvErr io_error

datatype write_outcome = Wrote | WriteFailed nat io_error

datatype shut_outcome = ShutOk | ShutErr io_error | ShutTimeout

record client =
  inbox :: "net_event list"
  outbox :: bytes
  wr_script :: "write_outcome list"
  fin_script :: shut_outcome
  inactivity_timeout :: "64 word option"
  sys :: world
  fsink :: SwupdateSession
  sched :: "nat \<Rightarrow> env_action list"
  now :: nat

text \<open>An await point: the other tasks run.\<close>

definition pause :: "('c client_scheme, unit) prog" where
  "pause c = Some (c\<lparr>sys := env_run (sched c (now c)) (sys c), now := Suc (now c)\<rparr>, Ok ())"

text \<open>\<^verbatim>\<open>AsyncReadExt::read\<close> into a slice of \<open>n\<close> bytes; 0 bytes is the end of the stream.\<close>

fun net_read :: "nat \<Rightarrow> io_error option \<Rightarrow> net_event list \<Rightarrow> net_event list \<times> bytes outcome" where
  "net_read n lim [] = ([], Ok [])"
| "net_read n lim (Arrive bs # es) =
    (if bs = [] then net_read n lim es
     else (if length bs \<le> n then es else Arrive (drop n bs) # es, Ok (take n bs)))"
| "net_read n lim (Idle # es) = (case lim of None \<Rightarrow> net_read n lim es | Some e \<Rightarrow> (es, Err e))"
| "net_read n lim (RecvErr e # es) = (es, Err e)"

text \<open>\<^verbatim>\<open>AsyncReadExt::read_exact\<close> into a slice of \<open>n\<close> bytes.\<close>

fun net_read_exact :: "nat \<Rightarrow> io_error option \<Rightarrow> net_event list \<Rightarrow> net_event list \<times> bytes outcome" where
  "net_read_exact 0 lim es = (es, Ok [])"
| "net_read_exact n lim [] = ([], Err (Custom UnexpectedEof (Text ''early eof'')))"
| "net_read_exact n lim (Arrive bs # es) =
    (if length bs \<le> n
     then (case net_read_exact (n - length bs) lim es of
        (es', Ok r) \<Rightarrow> (es', Ok (bs @ r)) | (es', Err e) \<Rightarrow> (es', Err e) | (es', Panic) \<Rightarrow> (es', Panic))
     else (Arrive (drop n bs) # es, Ok (take n bs)))"
| "net_read_exact n lim (Idle # es) = (case lim of None \<Rightarrow> net_read_exact n lim es | Some e \<Rightarrow> (es, Err e))"
| "net_read_exact n lim (RecvErr e # es) = (es, Err e)"

definition sock_read :: "io_error option \<Rightarrow> nat \<Rightarrow> ('c client_scheme, bytes) prog" where
  "sock_read lim n = andthen pause (\<lambda>_ c.
    let (es, r) = net_read n lim (inbox c) in Some (c\<lparr>inbox := es\<rparr>, r))"

definition sock_read_exact :: "io_error option \<Rightarrow> nat \<Rightarrow> ('c client_scheme, bytes) prog" where
  "sock_read_exact lim n = andthen pause (\<lambda>_ c.
    let (es, r) = net_read_exact n lim (inbox c) in Some (c\<lparr>inbox := es\<rparr>, r))"

text \<open>\<^verbatim>\<open>write_all\<close> followed by \<^verbatim>\<open>flush\<close>, which does nothing on a socket.\<close>

definition write_all :: "bytes \<Rightarrow> ('c client_scheme, unit) prog" where
  "write_all bs = andthen pause (\<lambda>_ c.
    case wr_script c of
      [] \<Rightarrow> Some (c\<lparr>outbox := outbox c @ bs\<rparr>, Ok ())
    | Wrote # rest \<Rightarrow> Some (c\<lparr>outbox := outbox c @ bs, wr_script := rest\<rparr>, Ok ())
    | WriteFailed n e # rest \<Rightarrow> Some (c\<lparr>outbox := outbox c @ take n bs, wr_script := rest\<rparr>, Err e))"

text \<open>\<^verbatim>\<open>stream.shutdown()\<close> under a timeout.\<close>

definition sock_shutdown :: "io_error \<Rightarrow> ('c client_scheme, unit) prog" where
  "sock_shutdown late = andthen pause (\<lambda>_ c.
    case fin_script c of
      ShutOk \<Rightarrow> Some (c, Ok ()) | ShutErr e \<Rightarrow> Some (c, Err e) | ShutTimeout \<Rightarrow> Some (c, Err late))"

subsection \<open>The sink of a connection\<close>

definition sink_buffer :: "nat \<Rightarrow> ('c client_scheme, BytesMut) prog" where
  "sink_buffer n c = (case buffer n (sys c) (fsink c) of (w, b) \<Rightarrow> Some (c\<lparr>sys := w\<rparr>, Ok b))"

definition sink_open :: "('c client_scheme, unit) prog" where
  "sink_open c = (case session_open (sys c) (fsink c) of (w, s, r) \<Rightarrow> Some (c\<lparr>sys := w, fsink := s\<rparr>, r))"

definition sink_send :: "BytesMut \<Rightarrow> ('c client_scheme, Feed) prog" where
  "sink_send blk c =
    (case send (sched c (now c)) blk (sys c) (fsink c) of
       None \<Rightarrow> None
     | Some (w, s, r) \<Rightarrow> Some (c\<lparr>sys := w, fsink := s, now := Suc (now c)\<rparr>, r))"

definition sink_eof :: "('c client_scheme, unit) prog" where
  "sink_eof c = (case eof (sys c) (fsink c) of (w, s) \<Rightarrow> Some (c\<lparr>sys := w, fsink := s\<rparr>, Ok ()))"

definition sink_try_finished :: "('c client_scheme, (io_error + unit) option) prog" where
  "sink_try_finished c =
    (case try_finished (sys c) (fsink c) of (w, s, v) \<Rightarrow> Some (c\<lparr>sys := w, fsink := s\<rparr>, Ok v))"

definition sink_finished :: "('c client_scheme, io_error + unit) prog" where
  "sink_finished c =
    (case finished (sched c (now c)) (sys c) (fsink c) of
       None \<Rightarrow> None
     | Some (w, s, v) \<Rightarrow> Some (c\<lparr>sys := w, fsink := s, now := Suc (now c)\<rparr>, Ok v))"

definition sink_abort :: "('c client_scheme, unit) prog" where
  "sink_abort c = (case abort (sys c) (fsink c) of (w, s) \<Rightarrow> Some (c\<lparr>sys := w, fsink := s\<rparr>, Ok ()))"

text \<open>\<open>pump_to_swupdate\<close>: read blocks and feed them until the source ends or SWUpdate does.\<close>

datatype PumpToSwupdateEnd = InputClosed | SwupdateFinished "io_error + unit"

text \<open>One block of the loop; None means the loop goes on.\<close>

definition pump_block :: "BytesMut \<Rightarrow> ('c client_scheme, PumpToSwupdateEnd option) prog" where
  "pump_block block =
    andthen (query (\<lambda>c. is_open (fsink c))) (\<lambda>opened.
    andthen (if opened then sink_try_finished else ret None) (\<lambda>seen.
      case seen of
        Some result \<Rightarrow> ret (Some (SwupdateFinished result))
      | None \<Rightarrow>
          andthen (sink_send block) (\<lambda>fed.
            if fed = FeedClosed
            then andthen sink_finished (\<lambda>v. ret (Some (SwupdateFinished v)))
            else ret None)))"

fun pump_to_swupdate :: "nat \<Rightarrow> ('c client_scheme, BytesMut option) prog
    \<Rightarrow> ('c client_scheme, PumpToSwupdateEnd) prog" where
  "pump_to_swupdate 0 next_block = stuck"
| "pump_to_swupdate (Suc n) next_block =
    andthen next_block (\<lambda>got.
      case got of
        None \<Rightarrow> ret InputClosed
      | Some block \<Rightarrow>
          andthen (pump_block block) (\<lambda>ended.
            case ended of Some e \<Rightarrow> ret e | None \<Rightarrow> pump_to_swupdate n next_block))"

subsection \<open>Reasoning about programs\<close>

lemmas prog_defs = stuck_def ret_def raise_def andthen_def attempt_def modify_def query_def

lemma wp_simps [simp]:
  "wp stuck Q0 c"
  "wp (ret x) Q1 c = Q1 c (Ok x)"
  "wp (raise e) Q2 c = Q2 c (Err e)"
  "wp (modify f) Q3 c = Q3 (f c) (Ok ())"
  "wp (query g) Q4 c = Q4 c (Ok (g c))"
  by (simp_all add: wp_def stuck_def ret_def raise_def modify_def query_def)

lemma wp_andthen:
  "wp (andthen m h) Q c =
    wp m (\<lambda>c' r. case r of Ok x \<Rightarrow> wp (h x) Q c' | Err e \<Rightarrow> Q c' (Err e) | Panic \<Rightarrow> Q c' Panic) c"
  by (auto simp: wp_def andthen_def split: option.split outcome.split prod.split)

lemma wp_attempt:
  "wp (attempt m) Q c =
    wp m (\<lambda>c' r. case r of Ok x \<Rightarrow> Q c' (Ok (Inr x)) | Err e \<Rightarrow> Q c' (Ok (Inl e)) | Panic \<Rightarrow> Q c' Panic) c"
  by (auto simp: wp_def attempt_def split: option.split outcome.split prod.split)

lemma wp_steps [simp]:
  "wp (andthen (ret x) f1) Q1 c = wp (f1 x) Q1 c"
  "wp (andthen (modify g) f2) Q2 c = wp (f2 ()) Q2 (g c)"
  "wp (andthen (query h) f3) Q3 c = wp (f3 (h c)) Q3 c"
  "wp (andthen (raise e) f4) Q4 c = Q4 c (Err e)"
  by (simp_all add: wp_andthen)

lemma returns_simps [simp]:
  "\<not> returns stuck Q0 c"
  "returns (ret x) Q1 c = Q1 c (Ok x)"
  "returns (raise e) Q2 c = Q2 c (Err e)"
  "returns (modify f) Q3 c = Q3 (f c) (Ok ())"
  "returns (query g) Q4 c = Q4 c (Ok (g c))"
  by (simp_all add: returns_def stuck_def ret_def raise_def modify_def query_def)

lemma returns_andthen:
  "returns (andthen m h) Q c =
    returns m (\<lambda>c' r. case r of Ok x \<Rightarrow> returns (h x) Q c' | Err e \<Rightarrow> Q c' (Err e) | Panic \<Rightarrow> Q c' Panic) c"
  by (auto simp: returns_def andthen_def split: option.split outcome.split prod.split)

lemma returns_attempt:
  "returns (attempt m) Q c =
    returns m (\<lambda>c' r. case r of Ok x \<Rightarrow> Q c' (Ok (Inr x)) | Err e \<Rightarrow> Q c' (Ok (Inl e)) | Panic \<Rightarrow> Q c' Panic) c"
  by (auto simp: returns_def attempt_def split: option.split outcome.split prod.split)

lemma returns_steps [simp]:
  "returns (andthen (ret x) f1) Q1 c = returns (f1 x) Q1 c"
  "returns (andthen (modify g) f2) Q2 c = returns (f2 ()) Q2 (g c)"
  "returns (andthen (query h) f3) Q3 c = returns (f3 (h c)) Q3 c"
  "returns (andthen (raise e) f4) Q4 c = Q4 c (Err e)"
  by (simp_all add: returns_andthen)

lemma wp_mono: "wp m P c \<Longrightarrow> (\<And>c' r. P c' r \<Longrightarrow> Q c' r) \<Longrightarrow> wp m Q c"
  by (auto simp: wp_def split: option.splits)

lemma returns_mono: "returns m P c \<Longrightarrow> (\<And>c' r. P c' r \<Longrightarrow> Q c' r) \<Longrightarrow> returns m Q c"
  by (auto simp: returns_def split: option.splits)

lemma returns_bind:
  assumes "returns m P c" "\<And>c' x. P c' (Ok x) \<Longrightarrow> returns (f x) Q c'" "\<And>c' e. P c' (Err e) \<Longrightarrow> Q c' (Err e)"
    "\<And>c'. P c' Panic \<Longrightarrow> Q c' Panic"
  shows "returns (andthen m f) Q c"
  using assms(1) by (auto elim!: returns_mono simp: assms(2-) returns_andthen split: outcome.split)

lemma wp_bind:
  assumes "wp m P c" "\<And>c' x. P c' (Ok x) \<Longrightarrow> wp (f x) Q c'" "\<And>c' e. P c' (Err e) \<Longrightarrow> Q c' (Err e)"
    "\<And>c'. P c' Panic \<Longrightarrow> Q c' Panic"
  shows "wp (andthen m f) Q c"
  using assms(1) by (auto elim!: wp_mono simp: assms(2-) wp_andthen split: outcome.split)

lemma andthen_OkD:
  "andthen m f c = Some (c', Ok x) \<Longrightarrow> \<exists>c1 y. m c = Some (c1, Ok y) \<and> f y c1 = Some (c', Ok x)"
  by (auto simp: andthen_def split: option.splits outcome.splits)

lemma andthen_simps:
  "andthen (ret x) f c = f x c" "andthen (modify g) f' c = f' () (g c)" "andthen (query h) f'' c = f'' (h c) c"
  by (simp_all add: prog_defs)

lemma returns_wp: "returns m Q c \<longleftrightarrow> m c \<noteq> None \<and> wp m Q c"
  by (auto simp: wp_def returns_def split: option.splits)

lemma returnsD: "returns m Q c \<Longrightarrow> \<exists>c' r. m c = Some (c', r) \<and> Q c' r"
  by (auto simp: returns_def split: option.splits)

lemma wpD: "wp m Q c \<Longrightarrow> m c = Some (c', r) \<Longrightarrow> Q c' r"
  by (simp add: wp_def)

lemma wpI: "(\<And>c' r. m c = Some (c', r) \<Longrightarrow> Q c' r) \<Longrightarrow> wp m Q c"
  by (auto simp: wp_def split: option.splits)

lemma returns_conj: "returns m P c \<Longrightarrow> wp m Q c \<Longrightarrow> returns m (\<lambda>c' r. P c' r \<and> Q c' r) c"
  by (auto simp: returns_def wp_def split: option.splits)

lemma wp_conj: "wp m P c \<Longrightarrow> wp m Q c \<Longrightarrow> wp m (\<lambda>c' r. P c' r \<and> Q c' r) c"
  by (auto simp: wp_def split: option.splits)

subsection \<open>Arriving bytes\<close>

text \<open>A connection that neither fails nor stalls: only segments arrive, cut in any way.\<close>

fun is_segment :: "net_event \<Rightarrow> bool" where
  "is_segment (Arrive _) = True"
| "is_segment _ = False"

fun segment :: "net_event \<Rightarrow> bytes" where
  "segment (Arrive bs) = bs"
| "segment _ = []"

definition steady :: "net_event list \<Rightarrow> bool" where
  "steady es \<longleftrightarrow> list_all is_segment es"

definition net_bytes :: "net_event list \<Rightarrow> bytes" where
  "net_bytes es = concat (map segment es)"

lemma steady_simps [simp]:
  "steady []" "steady (Arrive bs # es) = steady es" "\<not> steady (Idle # es)" "\<not> steady (RecvErr e # es)"
  by (simp_all add: steady_def)

lemma net_bytes_simps [simp]:
  "net_bytes [] = []" "net_bytes (Arrive bs # es) = bs @ net_bytes es"
  by (simp_all add: net_bytes_def)

lemma net_read_steady:
  assumes "steady es" "net_read n lim es = (es', r)"
  shows "\<exists>bs. r = Ok bs \<and> steady es' \<and> net_bytes es = bs @ net_bytes es' \<and> length bs \<le> n \<and>
    (bs = [] \<longrightarrow> n = 0 \<or> net_bytes es = [])"
  using assms by (induction n lim es rule: net_read.induct) (auto split: if_splits)

lemma net_read_exact_steady:
  assumes "steady es" "n \<le> length (net_bytes es)"
  shows "\<exists>es'. net_read_exact n lim es = (es', Ok (take n (net_bytes es))) \<and> steady es' \<and>
    net_bytes es' = drop n (net_bytes es)"
  using assms
proof (induction n lim es rule: net_read_exact.induct)
  case (3 n lim bs es)
  show ?case
  proof (cases "length bs \<le> Suc n")
    case True
    then obtain es' where "net_read_exact (Suc n - length bs) lim es = (es', Ok (take (Suc n - length bs) (net_bytes es)))"
      "steady es'" "net_bytes es' = drop (Suc n - length bs) (net_bytes es)"
      using 3(1) [OF True] 3(2,3) by (simp only: steady_simps net_bytes_simps length_append) fastforce
    then show ?thesis
      using True by simp
  qed (use 3 in simp)
qed auto

lemma net_read_exact_numeral [simp]:
  "net_read_exact (numeral k) lim [] = ([], Err (Custom UnexpectedEof (Text ''early eof'')))"
  "net_read_exact (numeral k) lim (Arrive bs # es) =
    (if length bs \<le> numeral k
     then (case net_read_exact (numeral k - length bs) lim es of
        (es', Ok r) \<Rightarrow> (es', Ok (bs @ r)) | (es', Err e) \<Rightarrow> (es', Err e) | (es', Panic) \<Rightarrow> (es', Panic))
     else (Arrive (drop (numeral k) bs) # es, Ok (take (numeral k) bs)))"
  by (simp_all only: numeral_eq_Suc net_read_exact.simps)

lemma net_read_no_panic: "snd (net_read n lim es) \<noteq> Panic"
  by (induction n lim es rule: net_read.induct) (auto split: option.splits)

lemma net_read_length: "net_read n lim es = (es', Ok bs) \<Longrightarrow> length bs \<le> n"
  by (induction n lim es rule: net_read.induct) (auto split: option.splits if_splits)

lemma net_read_exact_no_panic: "snd (net_read_exact n lim es) \<noteq> Panic"
  by (induction n lim es rule: net_read_exact.induct) (auto split: option.splits outcome.splits prod.splits)

lemma net_read_exact_length: "net_read_exact n lim es = (es', Ok bs) \<Longrightarrow> length bs = n"
  by (induction n lim es arbitrary: es' bs rule: net_read_exact.induct)
    (auto split: option.splits outcome.splits prod.splits if_splits)

subsection \<open>The invariant of a connection\<close>

definition client_inv :: "'c client_scheme \<Rightarrow> bool" where
  "client_inv c \<longleftrightarrow> sink_inv (sys c) (fsink c)"

definition fed :: "'c client_scheme \<Rightarrow> bytes option" where
  "fed c = sink_stream (sys c) (fsink c)"

text \<open>A program that keeps the invariant and does not panic.\<close>

definition safe :: "('c client_scheme, 'a) prog \<Rightarrow> bool" where
  "safe m \<longleftrightarrow> (\<forall>c. client_inv c \<longrightarrow> wp m (\<lambda>c' r. client_inv c' \<and> r \<noteq> Panic) c)"

named_theorems safe_intros \<open>programs that keep the invariant\<close>

lemma safeD: "safe m \<Longrightarrow> client_inv c \<Longrightarrow> m c = Some (c', r) \<Longrightarrow> client_inv c' \<and> r \<noteq> Panic"
  by (auto simp: safe_def wp_def)

lemma safe_ret [safe_intros]: "safe (ret x)"
  by (simp add: safe_def)

lemma safe_raise [safe_intros]: "safe (raise e)"
  by (simp add: safe_def)

lemma safe_query [safe_intros]: "safe (query g)"
  by (simp add: safe_def)

lemma safe_modify [safe_intros]: "(\<And>c. client_inv c \<Longrightarrow> client_inv (f c)) \<Longrightarrow> safe (modify f)"
  by (simp add: safe_def)

lemma safe_andthen [safe_intros]: "safe m \<Longrightarrow> (\<And>x. safe (f x)) \<Longrightarrow> safe (andthen m f)"
  unfolding safe_def wp_andthen wp_attempt by (auto elim!: wp_mono split: outcome.split)

lemma safe_attempt [safe_intros]: "safe m \<Longrightarrow> safe (attempt m)"
  unfolding safe_def wp_andthen wp_attempt by (auto elim!: wp_mono split: outcome.split)

lemma safe_of_result [safe_intros]: "safe (of_result r)"
  by (cases r) (simp_all add: safe_intros)

lemma safe_if [safe_intros]: "safe a \<Longrightarrow> safe b \<Longrightarrow> safe (if P then a else b)"
  by simp

lemma safe_case_option [safe_intros]:
  "safe a \<Longrightarrow> (\<And>x. safe (f x)) \<Longrightarrow> safe (case v of None \<Rightarrow> a | Some x \<Rightarrow> f x)"
  by (cases v) simp_all

lemma safe_case_sum [safe_intros]:
  "(\<And>e. safe (f e)) \<Longrightarrow> (\<And>x. safe (g x)) \<Longrightarrow> safe (case v of Inl e \<Rightarrow> f e | Inr x \<Rightarrow> g x)"
  by (cases v) simp_all

lemma safe_stuck [safe_intros]: "safe stuck"
  by (simp add: safe_def)

lemma safe_pause [safe_intros]: "safe pause"
  by (simp add: safe_def wp_def pause_def client_inv_def env_run_inv)

lemma client_inv_inbox [simp]: "client_inv (c\<lparr>inbox := es\<rparr>) = client_inv c"
  by (simp add: client_inv_def)

lemma client_inv_outbox [simp]: "client_inv (c\<lparr>outbox := es\<rparr>) = client_inv c"
  by (simp add: client_inv_def)

lemma client_inv_wr_script [simp]: "client_inv (c\<lparr>wr_script := ws\<rparr>) = client_inv c"
  by (simp add: client_inv_def)

lemma safe_sock_read [safe_intros]: "safe (sock_read lim n)"
  unfolding sock_read_def
proof (rule safe_andthen [OF safe_pause])
  show "safe (\<lambda>c. let (es, r) = net_read n lim (inbox c) in Some (c\<lparr>inbox := es\<rparr>, r))"
    using net_read_no_panic [of n lim] by (auto simp: safe_def wp_def Let_def split: prod.splits) (metis snd_conv)
qed

lemma safe_sock_read_exact [safe_intros]: "safe (sock_read_exact lim n)"
  unfolding sock_read_exact_def
proof (rule safe_andthen [OF safe_pause])
  show "safe (\<lambda>c. let (es, r) = net_read_exact n lim (inbox c) in Some (c\<lparr>inbox := es\<rparr>, r))"
    using net_read_exact_no_panic [of n lim] by (auto simp: safe_def wp_def Let_def split: prod.splits) (metis snd_conv)
qed

lemma safe_write_all [safe_intros]: "safe (write_all bs)"
  unfolding write_all_def
  by (intro safe_intros) (simp add: safe_def wp_def split: list.split write_outcome.split)

lemma safe_sock_shutdown [safe_intros]: "safe (sock_shutdown e)"
  unfolding sock_shutdown_def
  by (intro safe_intros) (simp add: safe_def wp_def split: shut_outcome.split)

lemma safe_sink_buffer [safe_intros]: "safe (sink_buffer n)"
  by (auto simp: safe_def wp_def sink_buffer_def client_inv_def buffer_inv split: prod.split)

lemma session_open_inv:
  assumes "sink_inv w s" "session_open w s = (w', s', r)"
  shows "sink_inv w' s'" "r \<noteq> Panic"
proof -
  have "sink_inv w' s' \<and> r \<noteq> Panic"
  proof (cases "is_open s")
    case True
    then show ?thesis
      using assms by (auto simp: session_open_def)
  next
    case False
    show ?thesis
    proof (cases "r = Ok ()")
      case True
      then show ?thesis
        using session_open_Ok(1) [OF assms(1) False] assms(2) by simp
    next
      case neq: False
      have "sink_inv w (s\<lparr>terminal := None\<rparr>)"
        using assms(1) False by (auto simp: sink_inv_def session_wf_def is_open_def)
      then show ?thesis
        using session_open_not_Ok [OF assms(2) neq] by simp
    qed
  qed
  then show "sink_inv w' s'" "r \<noteq> Panic"
    by simp_all
qed

lemma safe_sink_open [safe_intros]: "safe sink_open"
  by (auto simp: safe_def wp_def sink_open_def client_inv_def split: prod.split dest: session_open_inv)

lemma safe_sink_eof [safe_intros]: "safe sink_eof"
  by (auto simp: safe_def wp_def sink_eof_def client_inv_def split: prod.split dest: eof_inv)

lemma safe_sink_try_finished [safe_intros]: "safe sink_try_finished"
  by (auto simp: safe_def wp_def sink_try_finished_def client_inv_def try_finished_def split: prod.split
      dest: poll_status_inv)

lemma abort_inv: "sink_inv w s \<Longrightarrow> abort w s = (w', s') \<Longrightarrow> sink_inv w' s'"
  using abort_frame(1) [of w s w' s'] abort_arena [of w s]
  by (simp add: sink_inv_def session_wf_def)

lemma safe_sink_abort [safe_intros]: "safe sink_abort"
  by (auto simp: safe_def wp_def sink_abort_def client_inv_def split: prod.split dest: abort_inv)

lemma finished_inv:
  "sink_inv w s \<Longrightarrow> finished as w s = Some (w', s', v) \<Longrightarrow> sink_inv w' s'"
proof (induction as arbitrary: w s)
  case Nil
  then show ?case
    by (auto simp: finished.simps env_run_def split: prod.splits option.splits dest: poll_status_inv)
next
  case (Cons a as)
  obtain w1 s1 v1 where p: "poll_status w s = (w1, s1, v1)"
    by (metis prod.exhaust)
  note inv1 = poll_status_inv [OF Cons.prems(1) p]
  show ?case
  proof (cases v1)
    case None
    then show ?thesis
      using Cons.prems(2) p by (intro Cons.IH [OF env_step_inv [OF inv1]]) (simp add: finished.simps [of "a # as"])
  next
    case (Some x)
    then show ?thesis
      using Cons.prems p env_run_inv [OF inv1] by (auto simp: finished.simps [of "a # as"])
  qed
qed

lemma safe_sink_finished [safe_intros]: "safe sink_finished"
  by (auto simp: safe_def wp_def sink_finished_def client_inv_def split: option.split dest: finished_inv)

text \<open>The branches of a blocking send.\<close>

lemma send_cases:
  assumes inv: "sink_inv w s" and run: "send as x w s = Some (w', s', r)"
  obtains (ok) "r = Ok (FeedOk (bm_len x))" "sink_inv w' s'" "tx s' \<noteq> None" "terminal s' = terminal s"
      "\<And>z. sink_stream w' s' = Some z \<Longrightarrow> \<exists>y. sink_stream w s = Some y \<and> z = y @ data x"
  | (closed) "r = Ok FeedClosed" "sink_inv w' s'" "sink_stream w' s' = None" "tx s' = None"
  | (rejected) "r = Err (other_error ''restart pending after successful SWUpdate; rejecting new update'')"
      "w' = w" "s' = s" "restart_pending w" "tx s = None" "status s = None" "terminal s = None"
proof -
  obtain w1 s1 r1 where eo: "ensure_open w s = (w1, s1, r1)"
    by (cases "ensure_open w s")
  have main: ?thesis if r1: "r1 = Ok ()" and inv1: "sink_inv w1 s1" and str: "sink_stream w1 s1 = sink_stream w s"
    and nz: "tx s1 \<noteq> None \<or> status s1 \<noteq> None \<or> terminal s1 \<noteq> None" and tm: "terminal s1 = terminal s"
  proof (cases "tx s1")
    case None
    then show ?thesis
      using run eo r1 inv1 nz closed sink_stream_tx(1) [OF None, of w1] by (auto simp: send_def)
  next
    case (Some i)
    then obtain b w2 where sw: "send_wait i x as w1 = Some (b, w2)"
      using run eo r1 by (auto simp: send_def split: option.splits)
    note f = send_wait_Some [OF inv1 Some sw]
    show ?thesis
    proof (cases b)
      case True
      then show ?thesis
        using run eo r1 Some sw f str tm by (intro ok) (auto simp: send_def)
    next
      case False
      have "w' = drop_tx s1 w2" "s' = s1\<lparr>tx := None\<rparr>" "r = Ok FeedClosed"
        using run eo r1 Some sw False by (auto simp: send_def tx_set_none_def)
      moreover have "sink_inv (drop_tx s1 w2) (s1\<lparr>tx := None\<rparr>)"
        using tx_set_none_inv [of w2 s1] f by (simp add: tx_set_none_def)
      moreover have "status s1 \<noteq> None \<or> terminal s1 \<noteq> None"
        using inv1 Some by (auto simp: sink_inv_def session_wf_def)
      ultimately show ?thesis
        by (intro closed) (auto simp: sink_stream_def)
    qed
  qed
  show ?thesis
    using inv eo
  proof (cases rule: ensure_open_cases)
    case already
    then show ?thesis
      using main inv by simp
  next
    case opened
    moreover have "terminal s1 = None"
      using session_open_Ok(5) [OF inv] opened eo by (simp add: ensure_open_def is_open_def)
    ultimately show ?thesis
      using main by simp
  next
    case rejected
    with run eo that(3) show ?thesis
      by (simp add: send_def)
  qed
qed

lemma safe_sink_send [safe_intros]: "safe (sink_send x)"
  unfolding safe_def
proof (intro allI impI wpI)
  fix c c' r
  assume inv: "client_inv c" and run: "sink_send x c = Some (c', r)"
  then obtain w s where s: "send (sched c (now c)) x (sys c) (fsink c) = Some (w, s, r)"
    "c' = c\<lparr>sys := w, fsink := s, now := Suc (now c)\<rparr>"
    by (auto simp: sink_send_def split: option.splits)
  show "client_inv c' \<and> r \<noteq> Panic"
    using inv [unfolded client_inv_def] s(1)
    by (cases rule: send_cases) (use inv s in \<open>simp_all add: client_inv_def\<close>)
qed

lemma safe_pump_block [safe_intros]: "safe (pump_block blk)"
  unfolding pump_block_def by (intro safe_intros)

lemma safe_pump [safe_intros]:
  assumes "safe nb"
  shows "safe (pump_to_swupdate n nb)"
proof (induction n)
  case 0
  show ?case
    by (simp add: safe_intros)
next
  case (Suc n)
  show ?case
    unfolding pump_to_swupdate.simps by (intro safe_intros assms Suc)
qed

subsection \<open>A connection on which nothing fails\<close>

text \<open>Nothing fails: the session is healthy and the other tasks only take healthy steps.\<close>

definition healthy_client :: "'c client_scheme \<Rightarrow> bool" where
  "healthy_client c \<longleftrightarrow> healthy_sink (sys c) (fsink c) \<and> (\<forall>k. list_all healthy_action (sched c k))"

text \<open>The other tasks of a transfer are scheduled at every await point.\<close>

definition lively :: "nat \<Rightarrow> (nat \<Rightarrow> env_action list) \<Rightarrow> bool" where
  "lively i sc \<longleftrightarrow> (\<forall>k. \<exists>xs ys. sc k = xs @ drain_round i @ ys)"

lemma take_recycled_healthy:
  assumes "healthy_sink w s" "take_recycled w s = (w', r)"
  shows "healthy_sink w' s"
  using assms(2)
proof (cases rule: take_recycled_cases)
  case (some i q rest)
  have "sink_inv w s"
    using assms(1) by (simp add: healthy_sink_def)
  then have "sink_inv w' s"
    using take_recycled_inv [OF _ assms(2), of s] by simp
  moreover have "unused w' s = unused w s" "feeding w' s = feeding w s"
    using some \<open>sink_inv w s\<close> by (auto simp: unused_def feeding_def backend_ok_def nth_list_modify sink_inv_def session_wf_def
        split: option.splits)
  ultimately show ?thesis
    using assms(1) by (simp add: healthy_sink_def)
qed (use assms in simp)

lemma buffer_healthy: "healthy_sink w s \<Longrightarrow> buffer n w s = (w', b) \<Longrightarrow> healthy_sink w' s"
  using take_recycled_healthy [of w s] buffer_world [of n w s] by (metis fst_conv prod.exhaust)

lemma poll_status_success: "poll_status w s = (w', s', Some (Inr ())) \<Longrightarrow> terminal s' = Some (Inr ())"
proof (erule poll_status_cases)
  fix t
  assume "terminal s = Some t" "s' = s" "Some (Inr ()) = Some (map_sum (Custom Other) id t)"
  then show ?thesis
    by (cases t) auto
next
  fix i r x
  assume "settle r w (s\<lparr>status := None\<rparr>) = (w', s', x)" "Some (Inr ()) = Some x"
  then show ?thesis
    using settle_terminal by fastforce
qed auto

lemma finished_success:
  "finished as w s = Some (w', s', Inr ()) \<Longrightarrow> terminal s' = Some (Inr ())"
proof (induction as arbitrary: w s)
  case Nil
  then show ?case
    by (subst (asm) finished.simps) (auto split: prod.splits option.splits dest: poll_status_success)
next
  case (Cons a as)
  then show ?case
    by (subst (asm) finished.simps) (auto split: prod.splits option.splits dest: poll_status_success)
qed

lemma healthy_client_inv: "healthy_client c \<Longrightarrow> client_inv c"
  by (simp add: healthy_client_def healthy_sink_def client_inv_def)

end
