(* ===== verification/Crc32.thy ===== *)
theory Crc32
  imports Crc32_Table
begin

text \<open>
  The CRC-32 hasher of the vendored \<^verbatim>\<open>crc32fast\<close> crate, as the DFU handler uses it.

  Both implementations a board can select are modelled: the table-driven one (\<^verbatim>\<open>baseline.rs\<close>: sixteen bytes at once, the
  rest byte by byte) and the one that uses the CRC instructions of aarch64 (\<^verbatim>\<open>specialized/aarch64.rs\<close>: three interleaved
  streams joined by \<^verbatim>\<open>combine.rs\<close>, wherever the buffer happens to be aligned).  Both are proved equal to the bit-serial
  reference.  The interface the DFU handler relies on is the locale \<open>stream_hasher\<close>: feeding a stream in pieces is the
  same as feeding it at once.
\<close>

subsection \<open>The table-driven implementation\<close>

definition fold_16 :: "32 word \<Rightarrow> bytes \<Rightarrow> 32 word" where
  "fold_16 crc block =
    (let w0 = of_nat (of_le [block ! 0, block ! 1, block ! 2, block ! 3]) XOR crc
     in CRC32_TABLE ! 0x0 ! unat (block ! 0xf)
        XOR CRC32_TABLE ! 0x1 ! unat (block ! 0xe)
        XOR CRC32_TABLE ! 0x2 ! unat (block ! 0xd)
        XOR CRC32_TABLE ! 0x3 ! unat (block ! 0xc)
        XOR CRC32_TABLE ! 0x4 ! unat (block ! 0xb)
        XOR CRC32_TABLE ! 0x5 ! unat (block ! 0xa)
        XOR CRC32_TABLE ! 0x6 ! unat (block ! 0x9)
        XOR CRC32_TABLE ! 0x7 ! unat (block ! 0x8)
        XOR CRC32_TABLE ! 0x8 ! unat (block ! 0x7)
        XOR CRC32_TABLE ! 0x9 ! unat (block ! 0x6)
        XOR CRC32_TABLE ! 0xa ! unat (block ! 0x5)
        XOR CRC32_TABLE ! 0xb ! unat (block ! 0x4)
        XOR CRC32_TABLE ! 0xc ! unat (drop_bit 24 w0)
        XOR CRC32_TABLE ! 0xd ! unat (drop_bit 16 w0 AND 0xFF)
        XOR CRC32_TABLE ! 0xe ! unat (drop_bit 8 w0 AND 0xFF)
        XOR CRC32_TABLE ! 0xf ! unat (w0 AND 0xFF))"

fun slow_loop :: "32 word \<Rightarrow> bytes \<Rightarrow> 32 word" where
  "slow_loop crc [] = crc"
| "slow_loop crc (b # bs) =
    slow_loop (CRC32_TABLE ! 0 ! unat ((ucast crc :: byte) XOR b) XOR drop_bit 8 crc) bs"

definition update_slow :: "32 word \<Rightarrow> bytes \<Rightarrow> 32 word" where
  "update_slow prev buf = NOT (slow_loop (NOT prev) buf)"

text \<open>The two block loops, on the checksum and the bytes to come; four blocks per turn, then one.\<close>

definition fold_block :: "32 word \<times> bytes \<Rightarrow> 32 word \<times> bytes" where
  "fold_block x = (fold_16 (fst x) (snd x), drop 16 (snd x))"

function unrolled_loop :: "32 word \<times> bytes \<Rightarrow> 32 word \<times> bytes" where
  "unrolled_loop x = (if length (snd x) \<ge> 64 then unrolled_loop ((fold_block ^^ 4) x) else x)"
  by auto
termination
  by (relation "measure (\<lambda>x. length (snd x))") (auto simp: fold_block_def numeral_eq_Suc)

function block_loop :: "32 word \<times> bytes \<Rightarrow> 32 word \<times> bytes" where
  "block_loop x = (if length (snd x) \<ge> 16 then block_loop (fold_block x) else x)"
  by auto
termination
  by (relation "measure (\<lambda>x. length (snd x))") (auto simp: fold_block_def)

definition update_fast_16 :: "32 word \<Rightarrow> bytes \<Rightarrow> 32 word" where
  "update_fast_16 prev buf =
    (case block_loop (unrolled_loop (NOT prev, buf)) of (crc, rest) \<Rightarrow> update_slow (NOT crc) rest)"

subsection \<open>Joining two checksums\<close>

definition POLY :: "32 word" where "POLY = 0xedb88320"

definition X2N_TABLE :: "32 word list" where
  "X2N_TABLE = [
    0x00800000, 0x00008000, 0xedb88320, 0xb1e6b092, 0xa06a2517, 0xed627dae, 0x88d14467, 0xd7bbfe6a,
    0xec447f11, 0x8e7ea170, 0x6427800e, 0x4d47bae0, 0x09fe548f, 0x83852d0f, 0x30362f1a, 0x7b5a9cc3,
    0x31fec169, 0x9fec022a, 0x6c8dedc4, 0x15d6874d, 0x5fde7a4e, 0xbad90e37, 0x2e4e5eef, 0x4eaba214,
    0xa8a472c0, 0x429a969e, 0x148d302a, 0xc40ba6d0, 0xc4e22c3c, 0x40000000, 0x20000000, 0x08000000]"

definition multiply_step :: "32 word \<Rightarrow> nat \<Rightarrow> 32 word \<times> 32 word \<Rightarrow> 32 word \<times> 32 word" where
  "multiply_step a i x =
    (case x of (p, b) \<Rightarrow> (p XOR (b AND - (drop_bit (31 - i) a AND 1)), drop_bit 1 b XOR (- (b AND 1) AND POLY)))"

definition multiply :: "32 word \<Rightarrow> 32 word \<Rightarrow> 32 word" where
  "multiply a b = fst (fold (multiply_step a) [0..<32] (0, b))"

text \<open>
  \<open>combine\<close>, with the length as a number: it is the length of a slice, which fits the \<^verbatim>\<open>u64\<close>.  The loop runs over
  its bits, lowest first.
\<close>

fun combine_loop :: "nat \<Rightarrow> nat \<Rightarrow> 32 word \<Rightarrow> 32 word" where
  "combine_loop i len2 p =
    (if len2 = 0 then p
     else combine_loop (i + 1) (len2 div 2) (if odd len2 then multiply (X2N_TABLE ! (i mod 32)) p else p))"

definition combine :: "32 word \<Rightarrow> 32 word \<Rightarrow> nat \<Rightarrow> 32 word" where
  "combine crc1 crc2 len2 = (if len2 = 0 then crc1 else combine_loop 0 len2 crc1 XOR crc2)"

subsection \<open>The implementation with CRC instructions\<close>

text \<open>
  The instructions: \<open>crc32b\<close> advances the checksum by one byte of data, \<open>crc32d\<close> by the eight bytes of a word, the
  lowest first.
\<close>

definition crc32b :: "32 word \<Rightarrow> byte \<Rightarrow> 32 word" where
  "crc32b acc b = (crc_bit ^^ 8) (acc XOR ucast b)"

definition crc32d :: "32 word \<Rightarrow> 64 word \<Rightarrow> 32 word" where
  "crc32d acc q = foldl crc32b acc (le_bytes 8 (unat q))"

definition crc_bytes :: "32 word \<Rightarrow> bytes \<Rightarrow> 32 word" where
  "crc_bytes crc bytes = NOT (foldl crc32b (NOT crc) bytes)"

text \<open>\<^verbatim>\<open>slice::chunks_exact\<close>: the whole chunks and the remainder.\<close>

definition chunks_exact :: "nat \<Rightarrow> 'a list \<Rightarrow> 'a list list \<times> 'a list" where
  "chunks_exact n xs =
    (map (\<lambda>i. take n (drop (i * n) xs)) [0..<length xs div n], drop (length xs div n * n) xs)"

definition crc_quads :: "32 word \<Rightarrow> 64 word list \<Rightarrow> 32 word" where
  "crc_quads crc quads =
    (let (chunks, remainder) = chunks_exact 8 quads; c = foldl (foldl crc32d) (NOT crc) chunks
     in NOT (foldl crc32d c remainder))"

text \<open>
  \<^verbatim>\<open>slice::align_to\<close> of a buffer whose first aligned byte is at \<open>off\<close>: the bytes before it, whole little-endian words,
  and the bytes after them.
\<close>

definition align_to :: "nat \<Rightarrow> bytes \<Rightarrow> bytes \<times> 64 word list \<times> bytes" where
  "align_to off data =
    (let (chunks, post) = chunks_exact 8 (drop off data) in (take off data, map (\<lambda>c. of_nat (of_le c)) chunks, post))"

definition MIN_TRIPLE_QUADS :: nat where "MIN_TRIPLE_QUADS = 192"

type_synonym crc_triple = "32 word \<times> 32 word \<times> 32 word"

definition triple_step :: "crc_triple \<Rightarrow> 64 word \<times> 64 word \<times> 64 word \<Rightarrow> crc_triple" where
  "triple_step s q =
    (case (s, q) of ((c0, c1, c2), (qa, qb, qc)) \<Rightarrow> (crc32d c0 qa, crc32d c1 qb, crc32d c2 qc))"

definition triple_chunk :: "crc_triple \<Rightarrow> 64 word list \<times> 64 word list \<times> 64 word list \<Rightarrow> crc_triple" where
  "triple_chunk s q = (case q of (qa, qb, qc) \<Rightarrow> foldl triple_step s (map (\<lambda>k. (qa ! k, qb ! k, qc ! k)) [0..<4]))"

text \<open>Three equal blocks of the words in lockstep, joined, and the words left over.\<close>

definition triple_quads :: "32 word \<Rightarrow> 64 word list \<Rightarrow> 32 word" where
  "triple_quads r quads =
    (let n3 = length quads div 3;
         block_len = n3 * 8;
         (chunks_a, rem_a) = chunks_exact 4 (take n3 quads);
         (chunks_b, rem_b) = chunks_exact 4 (take n3 (drop n3 quads));
         (chunks_c, rem_c) = chunks_exact 4 (take n3 (drop (2 * n3) quads));
         s = foldl triple_chunk (NOT r, NOT 0, NOT 0) (zip chunks_a (zip chunks_b chunks_c));
         (c0, c1, c2) = foldl triple_step s (zip rem_a (zip rem_b rem_c));
         r = combine (NOT c0) (NOT c1) block_len;
         r = combine r (NOT c2) block_len
     in crc_quads r (drop (3 * n3) quads))"

definition calculate :: "nat \<Rightarrow> 32 word \<Rightarrow> bytes \<Rightarrow> 32 word" where
  "calculate off crc data =
    (let (pre_quad, quads, post_quad) = align_to off data;
         r = crc_bytes crc pre_quad;
         r = (if length quads \<ge> MIN_TRIPLE_QUADS then triple_quads r quads else crc_quads r quads)
     in crc_bytes r post_quad)"

subsection \<open>The hasher\<close>

datatype HasherState = Baseline "32 word" | Specialized "32 word"

record Hasher =
  amount :: "64 word"
  crc_state :: HasherState

text \<open>The constructor, on a CPU with or without the CRC instructions.\<close>

definition new_with_initial_len :: "bool \<Rightarrow> 32 word \<Rightarrow> 64 word \<Rightarrow> Hasher" where
  "new_with_initial_len crc_feature init amt =
    \<lparr>amount = amt, crc_state = (if crc_feature then Specialized init else Baseline init)\<rparr>"

definition hasher_new_on :: "bool \<Rightarrow> Hasher" where
  "hasher_new_on crc_feature = new_with_initial_len crc_feature 0 0"

text \<open>An update with a buffer whose first aligned byte is at \<open>off\<close>.\<close>

definition hasher_update_at :: "nat \<Rightarrow> Hasher \<Rightarrow> bytes \<Rightarrow> Hasher" where
  "hasher_update_at off h buf =
    \<lparr>amount = amount h + of_nat (length buf),
     crc_state = (case crc_state h of
         Baseline s \<Rightarrow> Baseline (update_fast_16 s buf)
       | Specialized s \<Rightarrow> Specialized (calculate off s buf))\<rparr>"

definition hasher_finalize :: "Hasher \<Rightarrow> 32 word" where
  "hasher_finalize h = (case crc_state h of Baseline s \<Rightarrow> s | Specialized s \<Rightarrow> s)"

text \<open>
  The hasher of the DFU handler.  Neither the CPU nor the place of a buffer changes a checksum (\<open>crc_on.digest_fresh\<close>,
  \<open>hasher_update_at_eq\<close>), so the handler is modelled with the CPU of the boards without CRC instructions and with
  aligned buffers.
\<close>

definition hasher_new :: Hasher where
  "hasher_new = hasher_new_on False"

definition hasher_update :: "Hasher \<Rightarrow> bytes \<Rightarrow> Hasher" where
  "hasher_update h buf = hasher_update_at 0 h buf"

text \<open>
  Notions for the proofs: the sum of the advanced copies of \<open>b\<close> that \<open>multiply\<close> forms, the same from the inside out,
  and the unit of the multiplication.
\<close>

fun products :: "32 word \<Rightarrow> nat \<Rightarrow> 32 word \<Rightarrow> 32 word" where
  "products a 0 b = 0"
| "products a (Suc n) b = products a n b XOR (if bit a (31 - n) then (crc_bit ^^ n) b else 0)"

fun horner :: "bool list \<Rightarrow> 32 word \<Rightarrow> 32 word" where
  "horner [] b = 0"
| "horner (x # xs) b = crc_bit (horner xs b) XOR (if x then b else 0)"

definition crc_one :: "32 word" where "crc_one = push_bit 31 1"

subsection \<open>The interface of an incremental hasher\<close>

locale stream_hasher =
  fixes fresh :: 'h
    and feed :: "'h \<Rightarrow> bytes \<Rightarrow> 'h"
    and digest :: "'h \<Rightarrow> 32 word"
    and reference :: "bytes \<Rightarrow> 32 word"
  assumes feed_Nil: "feed h [] = h"
    and feed_append: "feed h (a @ b) = feed (feed h a) b"
    and digest_fresh: "digest (feed fresh a) = reference a"
begin

lemma feed_concat: "foldl feed h bss = feed h (concat bss)"
  by (induction bss arbitrary: h) (simp_all add: feed_Nil feed_append)

lemma digest_pieces: "digest (foldl feed fresh bss) = reference (concat bss)"
  by (simp add: feed_concat digest_fresh)

end

subsection \<open>The table-driven loops compute the reference\<close>

lemma crc_byte_table:
  "crc_byte c b = CRC32_TABLE ! 0 ! unat ((ucast c :: byte) XOR b) XOR drop_bit 8 c"
proof -
  let ?hi = "push_bit 8 (drop_bit 8 c)"
  have split: "c XOR ucast b = ucast ((ucast c :: byte) XOR b) XOR ?hi"
    by (rule bit_word_eqI) (auto simp: bit_simps dest: bit_imp_le_length)
  have "(crc_bit ^^ 8) ?hi = drop_bit 8 ?hi"
    by (rule crc_bits_shift) (auto simp: bit_simps)
  also have "\<dots> = drop_bit 8 c"
    by (rule bit_word_eqI) (auto simp: bit_simps dest: bit_imp_le_length)
  finally show ?thesis
    unfolding crc_byte_def split crc_bits_xor using table_nth [of 0] by simp
qed

lemma slow_loop_foldl: "slow_loop c bs = foldl crc_byte c bs"
  by (induction c bs rule: slow_loop.induct) (simp_all add: crc_byte_table)

lemma update_slow_eq: "update_slow p bs = NOT (foldl crc_byte (NOT p) bs)"
  by (simp add: update_slow_def slow_loop_foldl)

text \<open>A checksum that starts at \<open>c\<close> is \<open>c\<close> advanced over the length of the data, plus the checksum that starts at zero.\<close>

lemma crc_bytes_split: "foldl crc_byte c bs = (crc_bit ^^ (8 * length bs)) c XOR foldl crc_byte 0 bs"
proof (induction bs arbitrary: c rule: rev_induct)
  case (snoc b bs)
  show ?case
    unfolding foldl_append foldl_Cons foldl_Nil crc_byte_def snoc [of c, unfolded crc_byte_def]
    by (simp add: crc_bits_xor crc_bits_add ac_simps)
qed simp

lemma crc_bytes_Cons:
  "foldl crc_byte 0 (b # bs) = (crc_bit ^^ (8 * Suc (length bs))) (ucast b) XOR foldl crc_byte 0 bs"
  by (subst foldl_Cons, subst crc_bytes_split) (simp add: crc_byte_def crc_bits_add add.commute)

text \<open>The four bytes of a word, advanced together.\<close>

lemma crc_bits_byte: "n \<le> 24 \<Longrightarrow> n \<le> m \<Longrightarrow> (crc_bit ^^ m) (push_bit n (ucast (b :: byte))) = (crc_bit ^^ (m - n)) (ucast b)"
proof -
  assume n: "n \<le> 24" "n \<le> m"
  have "(crc_bit ^^ n) (push_bit n (ucast b)) = drop_bit n (push_bit n (ucast b))"
    using n by (intro crc_bits_shift) (auto simp: bit_simps)
  also have "\<dots> = ucast b"
    using n by (intro bit_word_eqI) (auto simp: bit_simps dest: bit_imp_le_length)
  finally show ?thesis
    using n crc_bits_add [of "m - n" n] by (metis le_add_diff_inverse2)
qed

lemma word_of_byte: "(of_nat (unat b + 256 * n) :: 32 word) = ucast (b :: byte) XOR push_bit 8 (of_nat n)"
proof -
  have "(of_nat (unat b + 256 * n) :: 32 word) = ucast b + push_bit 8 (of_nat n)"
    by (simp add: push_bit_eq_mult)
  moreover have "(ucast b :: 32 word) AND push_bit 8 (of_nat n) = 0"
    by (intro bit_word_eqI) (auto simp: bit_simps dest: bit_imp_le_length)
  ultimately show ?thesis
    by (simp only: disjunctive_add_eq_xor)
qed

lemma word_of_bytes:
  "of_nat (of_le [b0, b1, b2, b3]) =
   (ucast b0 :: 32 word) XOR push_bit 8 (ucast b1) XOR push_bit 16 (ucast b2) XOR push_bit 24 (ucast b3)"
  by (simp only: of_le.simps word_of_byte of_nat_0 push_bit_xor push_bit_push_bit push_bit_of_0 xor.right_neutral) (simp add: ac_simps)

lemma word_split:
  "w = ucast (ucast w :: byte) XOR push_bit 8 (ucast (ucast (drop_bit 8 w) :: byte)) XOR
    push_bit 16 (ucast (ucast (drop_bit 16 w) :: byte)) XOR push_bit 24 (ucast (ucast (drop_bit 24 w) :: byte))"
  for w :: "32 word"
  by (rule bit_word_eqI) (auto simp: bit_simps dest: bit_imp_le_length)

lemma word_advance:
  "(crc_bit ^^ 128) w = (crc_bit ^^ 128) (ucast (ucast w :: byte)) XOR (crc_bit ^^ 120) (ucast (ucast (drop_bit 8 w) :: byte)) XOR
    (crc_bit ^^ 112) (ucast (ucast (drop_bit 16 w) :: byte)) XOR (crc_bit ^^ 104) (ucast (ucast (drop_bit 24 w) :: byte))"
  by (subst word_split [of w]) (simp only: crc_bits_xor, simp add: crc_bits_byte)

lemma unat_ucast_byte: "unat (ucast (b :: byte) :: 32 word) = unat b"
  using byte_less [of b] by (simp add: unsigned_ucast_eq take_bit_nat_eq_self)

lemma low_byte: "w AND 0xFF = ucast (ucast w :: byte)" for w :: "32 word"
proof -
  have "w AND 0xFF = take_bit 8 w"
    by (simp add: take_bit_eq_mask mask_eq_exp_minus_1)
  also have "\<dots> = ucast (ucast w :: byte)"
    by (rule bit_word_eqI) (auto simp: bit_simps dest: bit_imp_le_length)
  finally show ?thesis .
qed

lemma high_byte: "drop_bit 24 w = ucast (ucast (drop_bit 24 w) :: byte)" for w :: "32 word"
  by (rule bit_word_eqI) (auto simp: bit_simps dest: bit_imp_le_length)

lemma unat_low_byte: "unat (w AND 0xFF) = unat (ucast w :: byte)" for w :: "32 word"
  by (simp only: low_byte unat_ucast_byte)

lemma unat_high_byte: "unat (drop_bit 24 w) = unat (ucast (drop_bit 24 w) :: byte)" for w :: "32 word"
  by (subst high_byte) (rule unat_ucast_byte)

lemma take_map_nth: "n \<le> length b \<Longrightarrow> take n b = map ((!) b) [0..<n]"
  by (simp add: list_eq_iff_nth_eq)

lemma take_16:
  "16 \<le> length b \<Longrightarrow> take 16 b = [b ! 0, b ! 1, b ! 2, b ! 3, b ! 4, b ! 5, b ! 6, b ! 7, b ! 8, b ! 9, b ! 10, b ! 11,
     b ! 12, b ! 13, b ! 14, b ! 15]"
  using take_map_nth [of 16 b] by (simp add: upt_rec numeral_eq_Suc)

lemma fold_16_eq: "16 \<le> length block \<Longrightarrow> fold_16 crc block = foldl crc_byte crc (take 16 block)"
proof -
  assume len: "16 \<le> length block"
  define w0 where "w0 = of_nat (of_le [block ! 0, block ! 1, block ! 2, block ! 3]) XOR crc"
  have w0: "(crc_bit ^^ 128) w0 = (crc_bit ^^ 128) crc XOR (crc_bit ^^ 128) (ucast (block ! 0)) XOR
      (crc_bit ^^ 120) (ucast (block ! 1)) XOR (crc_bit ^^ 112) (ucast (block ! 2)) XOR (crc_bit ^^ 104) (ucast (block ! 3))"
    unfolding w0_def word_of_bytes crc_bits_xor by (simp add: crc_bits_byte ac_simps)
  show ?thesis
    unfolding fold_16_def w0_def [symmetric] Let_def take_16 [OF len] crc_bytes_split [of crc] unat_low_byte unat_high_byte
    by (simp add: table_nth crc_bytes_Cons del: foldl_Cons)
      (use w0 [unfolded word_advance [of w0]] in \<open>simp add: ac_simps\<close>)
qed

lemma fold_block_eq:
  "16 \<le> length (snd x) \<Longrightarrow> foldl crc_byte (fst (fold_block x)) (snd (fold_block x)) = foldl crc_byte (fst x) (snd x)"
  by (simp add: fold_block_def fold_16_eq flip: foldl_append)

lemma block_loop_eq: "foldl crc_byte (fst (block_loop x)) (snd (block_loop x)) = foldl crc_byte (fst x) (snd x)"
proof (induction x rule: block_loop.induct)
  case (1 x)
  then show ?case
    by (subst (1 2) block_loop.simps) (simp add: fold_block_eq del: block_loop.simps)
qed

lemma unrolled_loop_eq: "foldl crc_byte (fst (unrolled_loop x)) (snd (unrolled_loop x)) = foldl crc_byte (fst x) (snd x)"
proof (induction x rule: unrolled_loop.induct)
  case (1 x)
  have "foldl crc_byte (fst ((fold_block ^^ 4) x)) (snd ((fold_block ^^ 4) x)) = foldl crc_byte (fst x) (snd x)"
    if "64 \<le> length (snd x)"
  proof -
    have len: "length (snd (fold_block y)) = length (snd y) - 16" for y
      by (simp add: fold_block_def)
    show ?thesis
      using that by (simp add: numeral_eq_Suc fold_block_eq len)
  qed
  with 1 show ?case
    by (subst (1 2) unrolled_loop.simps) (simp del: unrolled_loop.simps)
qed

lemma update_fast_16_eq: "update_fast_16 p bs = NOT (foldl crc_byte (NOT p) bs)"
proof -
  obtain crc rest where l: "block_loop (unrolled_loop (NOT p, bs)) = (crc, rest)"
    by fastforce
  then have "foldl crc_byte crc rest = foldl crc_byte (NOT p) bs"
    using block_loop_eq [of "unrolled_loop (NOT p, bs)"] unrolled_loop_eq [of "(NOT p, bs)"] by simp
  then show ?thesis
    by (simp add: update_fast_16_def l update_slow_eq del: block_loop.simps unrolled_loop.simps)
qed

subsection \<open>Joining checksums\<close>

lemma and_neg_bit: "b AND - (drop_bit k a AND 1) = (if bit a k then b else 0)" for a b :: "32 word"
  by (cases "odd (drop_bit k a)") (simp_all add: and_one_eq bit_iff_odd_drop_bit odd_iff_mod_2_eq_one even_iff_mod_2_eq_zero)

lemma crc_bit_alt: "drop_bit 1 b XOR (- (b AND 1) AND POLY) = crc_bit b"
  by (cases "odd b") (simp_all add: crc_bit_def POLY_def and_one_eq bit_0 odd_iff_mod_2_eq_one even_iff_mod_2_eq_zero)

lemma multiply_fold: "fold (multiply_step a) [0..<n] (0, b) = (products a n b, (crc_bit ^^ n) b)"
  by (induction n) (simp_all add: multiply_step_def and_neg_bit crc_bit_alt [simplified])

lemma multiply_eq: "multiply a b = products a 32 b"
  by (simp add: multiply_def multiply_fold)

lemma products_xor: "products a n (x XOR y) = products a n x XOR products a n y"
  by (induction n) (simp_all add: crc_bits_xor ac_simps)

lemma products_0 [simp]: "products a n 0 = 0"
  by (induction n) simp_all

lemma products_crc: "products a n ((crc_bit ^^ k) x) = (crc_bit ^^ k) (products a n x)"
  by (induction n) (simp_all add: crc_bits_xor crc_bits_add add.commute)

lemma products_swap: "products a n (products b m x) = products b m (products a n x)"
  by (induction n) (simp_all add: products_xor products_crc)

lemma bit_crc_one: "bit crc_one j \<longleftrightarrow> j = 31"
  unfolding crc_one_def bit_push_bit_iff by (auto simp: bit_1_iff)

lemma crc_bits_top: "n \<le> 31 \<Longrightarrow> (crc_bit ^^ n) crc_one = 2 ^ (31 - n)"
  by (subst crc_bits_shift) (auto simp: bit_crc_one bit_drop_bit_eq bit_exp_iff intro!: bit_word_eqI)

lemma products_top: "n \<le> 32 \<Longrightarrow> bit (products a n crc_one) j \<longleftrightarrow> bit a j \<and> 32 - n \<le> j"
proof (induction n)
  case 0
  then show ?case
    by (auto dest: bit_imp_le_length)
next
  case (Suc n)
  then have "bit (products a (Suc n) crc_one) j \<longleftrightarrow>
      (bit a j \<and> 32 - n \<le> j) \<noteq> (bit a (31 - n) \<and> j = 31 - n)"
    by (auto simp: crc_bits_top bit_simps)
  then show ?case
    using Suc.prems by (cases "j = 31 - n") auto
qed

lemma multiply_one: "multiply a crc_one = a"
  by (rule bit_word_eqI) (simp add: multiply_eq products_top)

lemma multiply_commute: "multiply a b = multiply b a"
  using products_swap [of a 32 b 32 crc_one] multiply_one [of a] multiply_one [of b]
  by (simp add: multiply_eq)

lemma multiply_power: "multiply ((crc_bit ^^ n) crc_one) b = (crc_bit ^^ n) b"
  using multiply_one [of b] by (subst multiply_commute) (simp add: multiply_eq products_crc)

lemma horner_snoc: "horner (xs @ [x]) b = horner xs b XOR (if x then (crc_bit ^^ length xs) b else 0)"
  by (induction xs) (simp_all add: crc_bit_xor crc_bit_numeral(1) ac_simps)

lemma products_horner: "products a n b = horner (map (\<lambda>i. bit a (31 - i)) [0..<n]) b"
  by (induction n) (simp_all add: horner_snoc)

lemma x2n_0: "X2N_TABLE ! 0 = (crc_bit ^^ 8) crc_one"
  by (simp add: X2N_TABLE_def crc_bits_top)

lemma x2n_squares: "list_all (\<lambda>i. X2N_TABLE ! (Suc i mod 32) = multiply (X2N_TABLE ! i) (X2N_TABLE ! i)) [0..<32]"
  unfolding X2N_TABLE_def multiply_eq products_horner by (simp add: upt_rec crc_bit_numeral)

lemma x2n_square: "X2N_TABLE ! (Suc i mod 32) = multiply (X2N_TABLE ! (i mod 32)) (X2N_TABLE ! (i mod 32))"
proof -
  have "X2N_TABLE ! (Suc (i mod 32) mod 32) = multiply (X2N_TABLE ! (i mod 32)) (X2N_TABLE ! (i mod 32))"
    using x2n_squares by (simp only: list_all_iff) (simp del: mod_Suc_eq)
  then show ?thesis
    by (simp add: mod_Suc_eq)
qed

lemma x2n: "X2N_TABLE ! (i mod 32) = (crc_bit ^^ (8 * 2 ^ i)) crc_one"
proof (induction i)
  case (Suc i)
  show ?case
    unfolding x2n_square [of i] Suc multiply_power crc_bits_add by (simp add: algebra_simps)
qed (simp add: x2n_0)

lemma combine_loop_eq: "combine_loop i len2 p = (crc_bit ^^ (8 * 2 ^ i * len2)) p"
proof (induction i len2 p rule: combine_loop.induct)
  case (1 i len2 p)
  show ?case
  proof (cases "len2 = 0")
    case False
    define q where "q = (if odd len2 then multiply (X2N_TABLE ! (i mod 32)) p else p)"
    have shift: "8 * 2 ^ (i + 1) * a + 8 * 2 ^ i * b = 8 * 2 ^ i * (2 * a + b)" for a b :: nat
      by (simp add: algebra_simps)
    have q: "q = (crc_bit ^^ (8 * 2 ^ i * (len2 mod 2))) p"
      unfolding q_def x2n multiply_power by (simp add: mod_2_eq_odd)
    have "combine_loop i len2 p = combine_loop (i + 1) (len2 div 2) q"
      using False by (subst combine_loop.simps) (simp add: q_def del: combine_loop.simps)
    also have "\<dots> = (crc_bit ^^ (8 * 2 ^ (i + 1) * (len2 div 2))) q"
      using 1 False unfolding q_def by blast
    also have "\<dots> = (crc_bit ^^ (8 * 2 ^ i * (2 * (len2 div 2) + len2 mod 2))) p"
      unfolding q crc_bits_add shift ..
    finally show ?thesis
      by simp
  qed simp
qed

lemma crc_bits_not: "(crc_bit ^^ n) (NOT x) = (crc_bit ^^ n) x XOR (crc_bit ^^ n) (NOT 0)"
proof -
  have "NOT x = x XOR NOT 0"
    by (rule bit_word_eqI) (simp add: bit_simps)
  then show ?thesis
    by (simp only: crc_bits_xor)
qed

lemma xor_not_cancel: "(a XOR k) XOR NOT (k XOR z) = NOT (a XOR z)" for a k z :: "32 word"
  by (rule bit_word_eqI) (auto simp: bit_simps)

lemma combine_eq:
  "combine (NOT (foldl crc_byte c a)) (NOT (foldl crc_byte (NOT 0) b)) (length b) = NOT (foldl crc_byte c (a @ b))"
proof (cases "b = []")
  case False
  then have "combine (NOT (foldl crc_byte c a)) (NOT (foldl crc_byte (NOT 0) b)) (length b) =
      (crc_bit ^^ (8 * length b)) (NOT (foldl crc_byte c a)) XOR NOT (foldl crc_byte (NOT 0) b)"
    by (simp only: combine_def combine_loop_eq length_0_conv if_False power_0 mult_1_right)
  also have "\<dots> = NOT ((crc_bit ^^ (8 * length b)) (foldl crc_byte c a) XOR foldl crc_byte 0 b)"
    by (simp only: crc_bits_not [of _ "foldl crc_byte c a"] crc_bytes_split [of "NOT 0"] xor_not_cancel)
  finally show ?thesis
    by (simp only: foldl_append crc_bytes_split [of "foldl crc_byte c a"])
qed (simp add: combine_def)

subsection \<open>The instructions compute the reference\<close>

lemma crc32b_eq: "crc32b = crc_byte"
  by (intro ext) (simp add: crc32b_def crc_byte_def)

lemma crc32d_eq: "length c = 8 \<Longrightarrow> crc32d acc (of_nat (of_le c)) = foldl crc_byte acc c"
proof -
  assume c: "length c = 8"
  have "unat (of_nat (of_le c) :: 64 word) = of_le c"
    using of_le_bound [of c] c by (simp add: unsigned_of_nat take_bit_nat_eq_self)
  then show ?thesis
    using le_bytes_of_le [of c] c by (simp add: crc32d_def crc32b_eq del: le_bytes_numeral)
qed

lemma crc32d_chunks:
  "list_all (\<lambda>c. length c = 8) cs \<Longrightarrow> foldl crc32d acc (map (\<lambda>c. of_nat (of_le c)) cs) = foldl crc_byte acc (concat cs)"
  by (induction cs arbitrary: acc) (simp_all add: crc32d_eq)

lemma chunks_exact_whole: "concat (fst (chunks_exact n xs)) @ snd (chunks_exact n xs) = xs"
proof -
  have "concat (map (\<lambda>i. take n (drop (i * n) xs)) [0..<k]) = take (k * n) xs" for k
    by (induction k) (simp_all add: take_add [symmetric] add.commute)
  then show ?thesis
    by (simp add: chunks_exact_def)
qed

lemma chunks_exact_length: "0 < n \<Longrightarrow> list_all (\<lambda>c. length c = n) (fst (chunks_exact n xs))"
proof -
  assume n: "0 < n"
  have "n \<le> length xs - i * n" if "i < length xs div n" for i
  proof -
    have "Suc i * n \<le> length xs"
      using that by (metis Suc_leI le_trans mult_le_mono1 div_times_less_eq_dividend)
    then show ?thesis
      by simp
  qed
  then show ?thesis
    by (auto simp: chunks_exact_def list_all_iff)
qed

lemma foldl_chunks: "foldl (foldl f) c chunks = foldl f c (concat chunks)"
  by (induction chunks arbitrary: c) simp_all

lemma crc_quads_eq: "crc_quads crc qs = NOT (foldl crc32d (NOT crc) qs)"
proof -
  obtain cs rest where c: "chunks_exact 8 qs = (cs, rest)"
    by fastforce
  then have qs: "qs = concat cs @ rest"
    using chunks_exact_whole [of 8 qs] by simp
  have "crc_quads crc qs = NOT (foldl crc32d (NOT crc) (concat cs @ rest))"
    by (simp add: crc_quads_def c foldl_chunks)
  then show ?thesis
    by (simp only: qs)
qed

lemma triple_steps:
  "length ys = length xs \<Longrightarrow> length zs = length xs \<Longrightarrow>
   foldl triple_step (c0, c1, c2) (zip xs (zip ys zs)) = (foldl crc32d c0 xs, foldl crc32d c1 ys, foldl crc32d c2 zs)"
proof (induction xs arbitrary: ys zs c0 c1 c2)
  case (Cons x xs)
  then obtain y ys' z zs' where "ys = y # ys'" "zs = z # zs'"
    by (metis length_Suc_conv)
  with Cons show ?case
    by (simp add: triple_step_def)
qed simp

lemma triple_chunk_eq:
  "length xs = 4 \<Longrightarrow> length ys = 4 \<Longrightarrow> length zs = 4 \<Longrightarrow>
   triple_chunk (c0, c1, c2) (xs, ys, zs) = (foldl crc32d c0 xs, foldl crc32d c1 ys, foldl crc32d c2 zs)"
proof -
  assume len: "length xs = 4" "length ys = 4" "length zs = 4"
  then have "map (\<lambda>k. (xs ! k, ys ! k, zs ! k)) [0..<4] = zip xs (zip ys zs)"
    by (simp add: list_eq_iff_nth_eq)
  then show ?thesis
    using len by (simp add: triple_chunk_def triple_steps del: upt_rec_numeral)
qed

lemma triple_chunks:
  "length ys = length xs \<Longrightarrow> length zs = length xs \<Longrightarrow> list_all (\<lambda>c. length c = 4) xs \<Longrightarrow>
   list_all (\<lambda>c. length c = 4) ys \<Longrightarrow> list_all (\<lambda>c. length c = 4) zs \<Longrightarrow>
   foldl triple_chunk (c0, c1, c2) (zip xs (zip ys zs)) =
     (foldl crc32d c0 (concat xs), foldl crc32d c1 (concat ys), foldl crc32d c2 (concat zs))"
proof (induction xs arbitrary: ys zs c0 c1 c2)
  case (Cons x xs)
  then obtain y ys' z zs' where "ys = y # ys'" "zs = z # zs'"
    by (metis length_Suc_conv)
  with Cons show ?case
    by (simp add: triple_chunk_eq)
qed simp

lemma triple_streams:
  assumes "length b = length a" "length c = length a"
    "chunks_exact 4 a = (ca, ra)" "chunks_exact 4 b = (cb, rb)" "chunks_exact 4 c = (cc, rc)"
  shows "foldl triple_step (foldl triple_chunk (c0, c1, c2) (zip ca (zip cb cc))) (zip ra (zip rb rc)) =
    (foldl crc32d c0 a, foldl crc32d c1 b, foldl crc32d c2 c)"
proof -
  have whole: "a = concat ca @ ra" "b = concat cb @ rb" "c = concat cc @ rc"
    using chunks_exact_whole [of 4 a] chunks_exact_whole [of 4 b] chunks_exact_whole [of 4 c] assms by simp_all
  have "list_all (\<lambda>c. length c = 4) ca" "list_all (\<lambda>c. length c = 4) cb" "list_all (\<lambda>c. length c = 4) cc"
    using chunks_exact_length [of 4 a] chunks_exact_length [of 4 b] chunks_exact_length [of 4 c] assms by simp_all
  moreover have "length cb = length ca" "length cc = length ca" "length rb = length ra" "length rc = length ra"
    using assms by (auto simp: chunks_exact_def)
  ultimately show ?thesis
    unfolding whole foldl_append by (simp add: triple_chunks triple_steps)
qed

lemma length_concat_8: "list_all (\<lambda>c. length c = 8) cs \<Longrightarrow> length (concat cs) = length cs * 8"
  by (induction cs) simp_all

lemma triple_quads_eq:
  assumes "list_all (\<lambda>c. length c = 8) cs"
  shows "triple_quads (NOT r) (map (\<lambda>c. of_nat (of_le c)) cs) = NOT (foldl crc_byte r (concat cs))"
proof -
  define n where "n = length cs div 3"
  define a b c d where "a = take n cs" and "b = take n (drop n cs)" and "c = take n (drop (2 * n) cs)" and "d = drop (3 * n) cs"
  let ?w = "map (\<lambda>c. of_nat (of_le c) :: 64 word)"
  have n: "3 * n \<le> length cs"
    by (simp add: n_def)
  have cs: "cs = a @ b @ c @ d"
    unfolding a_def b_def c_def d_def
    by (metis append_take_drop_id drop_drop mult_2 add.commute numeral_3_eq_3 mult_Suc numeral_2_eq_2)
  then have all: "list_all (\<lambda>c. length c = 8) a" "list_all (\<lambda>c. length c = 8) b" "list_all (\<lambda>c. length c = 8) c"
    "list_all (\<lambda>c. length c = 8) d"
    using assms by simp_all
  have len: "length a = n" "length b = n" "length c = n"
    using n by (simp_all add: a_def b_def c_def)
  have bytes: "n * 8 = length (concat b)" "n * 8 = length (concat c)"
    using length_concat_8 [OF all(2)] length_concat_8 [OF all(3)] len by simp_all
  obtain ca ra cb rb cc rc where ch: "chunks_exact 4 (?w a) = (ca, ra)" "chunks_exact 4 (?w b) = (cb, rb)"
    "chunks_exact 4 (?w c) = (cc, rc)"
    by (meson surj_pair)
  have "triple_quads (NOT r) (?w cs) =
      crc_quads (combine (combine (NOT (foldl crc32d r (?w a))) (NOT (foldl crc32d (NOT 0) (?w b))) (n * 8))
        (NOT (foldl crc32d (NOT 0) (?w c))) (n * 8)) (?w d)"
    unfolding triple_quads_def Let_def length_map n_def [symmetric] take_map drop_map a_def [symmetric] b_def [symmetric]
      c_def [symmetric] d_def [symmetric] ch prod.case bit.double_compl
    using triple_streams [OF _ _ ch] len by simp
  also have "\<dots> = NOT (foldl crc_byte r (concat a @ concat b @ concat c @ concat d))"
    using combine_eq [of r "concat a" "concat b", folded bytes(1)]
      combine_eq [of r "concat a @ concat b" "concat c", folded bytes(2)]
    unfolding crc32d_chunks [OF all(1)] crc32d_chunks [OF all(2)] crc32d_chunks [OF all(3)] crc_quads_eq
    by (simp add: crc32d_chunks [OF all(4)])
  finally show ?thesis
    by (simp add: cs)
qed

lemma calculate_eq: "calculate off crc bs = NOT (foldl crc_byte (NOT crc) bs)"
proof -
  obtain cs post where ch: "chunks_exact 8 (drop off bs) = (cs, post)"
    by fastforce
  have bs: "bs = take off bs @ concat cs @ post"
    using chunks_exact_whole [of 8 "drop off bs"] ch by simp
  have all: "list_all (\<lambda>c. length c = 8) cs"
    using chunks_exact_length [of 8 "drop off bs"] ch by simp
  show ?thesis
    by (subst (2) bs)
      (simp add: calculate_def align_to_def Let_def ch crc_bytes_def crc32b_eq crc_quads_eq crc32d_chunks [OF all]
        triple_quads_eq [OF all])
qed

subsection \<open>The hasher\<close>

lemma hasher_update_at_eq: "hasher_update_at off h buf = hasher_update h buf"
  by (simp add: hasher_update_def hasher_update_at_def calculate_eq split: HasherState.splits)

lemma hasher_laws:
  "hasher_update h [] = h"
  "hasher_update h (a @ b) = hasher_update (hasher_update h a) b"
  "hasher_finalize (hasher_update (hasher_new_on f) a) = crc32 a"
  by (cases h; simp add: hasher_update_def hasher_update_at_def update_fast_16_eq calculate_eq hasher_finalize_def
      hasher_new_on_def new_with_initial_len_def crc32_def add.assoc split: HasherState.splits)+

interpretation crc_on: stream_hasher "hasher_new_on f" hasher_update hasher_finalize crc32 for f
  by unfold_locales (simp_all add: hasher_laws)

interpretation crc: stream_hasher hasher_new hasher_update hasher_finalize crc32
  by unfold_locales (simp_all add: hasher_laws hasher_new_def)

end
