(* ===== verification/Dfu_Protocol.thy ===== *)
theory Dfu_Protocol
  imports Gadget_Prelude
begin

text \<open>
  DFU wire vocabulary (\<^verbatim>\<open>crates/summit-usbgadget-dfu/src/protocol.rs\<close>): request codes, device states,
  status codes and the six-byte \<open>DFU_GETSTATUS\<close> response, with a host-side decoder as its reference.
\<close>

subsection \<open>Requests, states and status codes\<close>

abbreviation (input) "DETACH \<equiv> (0 :: byte)"
abbreviation (input) "DNLOAD \<equiv> (1 :: byte)"
abbreviation (input) "UPLOAD \<equiv> (2 :: byte)"
abbreviation (input) "GETSTATUS \<equiv> (3 :: byte)"
abbreviation (input) "CLRSTATUS \<equiv> (4 :: byte)"
abbreviation (input) "GETSTATE \<equiv> (5 :: byte)"
abbreviation (input) "ABORT \<equiv> (6 :: byte)"

datatype State = AppIdle | AppDetach | DfuIdle | DnloadSync | DnBusy | DnloadIdle | ManifestSync
  | Manifest | ManifestWaitReset | UploadIdle | Error

fun state_code :: "State \<Rightarrow> byte" where
  "state_code AppIdle = 0"
| "state_code AppDetach = 1"
| "state_code DfuIdle = 2"
| "state_code DnloadSync = 3"
| "state_code DnBusy = 4"
| "state_code DnloadIdle = 5"
| "state_code ManifestSync = 6"
| "state_code Manifest = 7"
| "state_code ManifestWaitReset = 8"
| "state_code UploadIdle = 9"
| "state_code Error = 10"

datatype Status = StatusOk | ErrTarget | ErrFile | ErrWrite | ErrErase | ErrCheckErased | ErrProg
  | ErrVerify | ErrAddress | ErrNotDone | ErrFirmware | ErrVendor | ErrUsbr | ErrPor | ErrUnknown
  | ErrStalledPkt

fun status_code :: "Status \<Rightarrow> byte" where
  "status_code StatusOk = 0x00"
| "status_code ErrTarget = 0x01"
| "status_code ErrFile = 0x02"
| "status_code ErrWrite = 0x03"
| "status_code ErrErase = 0x04"
| "status_code ErrCheckErased = 0x05"
| "status_code ErrProg = 0x06"
| "status_code ErrVerify = 0x07"
| "status_code ErrAddress = 0x08"
| "status_code ErrNotDone = 0x09"
| "status_code ErrFirmware = 0x0a"
| "status_code ErrVendor = 0x0b"
| "status_code ErrUsbr = 0x0c"
| "status_code ErrPor = 0x0d"
| "status_code ErrUnknown = 0x0e"
| "status_code ErrStalledPkt = 0x0f"

record GetStatus =
  gs_status :: Status
  gs_poll_timeout_ms :: "32 word"
  gs_state :: State
  gs_string_index :: byte

text \<open>\<open>to_bytes\<close>: the low three bytes of the poll timeout, little endian.\<close>

definition to_bytes :: "GetStatus \<Rightarrow> bytes" where
  "to_bytes g =
    (let poll = le_bytes 4 (unat (gs_poll_timeout_ms g))
     in [status_code (gs_status g), poll ! 0, poll ! 1, poll ! 2, state_code (gs_state g),
         gs_string_index g])"

subsection \<open>The host's reading of the response\<close>

definition all_states :: "State list" where
  "all_states = [AppIdle, AppDetach, DfuIdle, DnloadSync, DnBusy, DnloadIdle, ManifestSync, Manifest,
     ManifestWaitReset, UploadIdle, Error]"

definition all_status :: "Status list" where
  "all_status = [StatusOk, ErrTarget, ErrFile, ErrWrite, ErrErase, ErrCheckErased, ErrProg, ErrVerify,
     ErrAddress, ErrNotDone, ErrFirmware, ErrVendor, ErrUsbr, ErrPor, ErrUnknown, ErrStalledPkt]"

definition nth_opt :: "'a list \<Rightarrow> nat \<Rightarrow> 'a option" where
  "nth_opt xs i = (if i < length xs then Some (xs ! i) else None)"

fun parse_status :: "bytes \<Rightarrow> (Status \<times> nat \<times> State \<times> byte) option" where
  "parse_status [st, p0, p1, p2, s, i] =
    (case (nth_opt all_status (unat st), nth_opt all_states (unat s)) of
       (Some status, Some state) \<Rightarrow> Some (status, of_le [p0, p1, p2], state, i)
     | _ \<Rightarrow> None)"
| "parse_status _ = None"

lemma nth_state_code: "nth_opt all_states (unat (state_code s)) = Some s"
  by (cases s) (simp_all add: nth_opt_def all_states_def)

lemma nth_status_code: "nth_opt all_status (unat (status_code s)) = Some s"
  by (cases s) (simp_all add: nth_opt_def all_status_def)

lemma length_to_bytes [simp]: "length (to_bytes g) = 6"
  by (simp add: to_bytes_def Let_def)

lemma parse_to_bytes:
  "parse_status (to_bytes g) =
    Some (gs_status g, unat (gs_poll_timeout_ms g) mod 2 ^ 24, gs_state g, gs_string_index g)"
proof -
  let ?p = "le_bytes 4 (unat (gs_poll_timeout_ms g))"
  have "[?p ! 0, ?p ! 1, ?p ! 2] = le_bytes 3 (unat (gs_poll_timeout_ms g))"
    by simp
  then have "of_le [?p ! 0, ?p ! 1, ?p ! 2] = unat (gs_poll_timeout_ms g) mod 2 ^ 24"
    by (simp only: of_le_le_bytes) simp
  then show ?thesis
    by (simp add: to_bytes_def Let_def nth_state_code nth_status_code del: of_le.simps)
qed

text \<open>
  What \<open>to_bytes\<close> sends is six bytes from which a host reads back the status, the state and the
  string index, and the poll timeout modulo 2^24 (the field is three bytes wide).
\<close>

theorem get_status_roundtrip:
  "parse_status (to_bytes g) =
    Some (gs_status g, unat (gs_poll_timeout_ms g) mod 2 ^ 24, gs_state g, gs_string_index g)"
  by (rule parse_to_bytes)

end
