(* ===== verification/Dfu_Handler.thy ===== *)
theory Dfu_Handler
  imports Crc32 Dfu_Protocol Swupdate_Session
begin

text \<open>
  The DFU state machine (\<^verbatim>\<open>crates/summit-usbgadget-dfu/src/handler.rs\<close>, \<^verbatim>\<open>config.rs\<close> and the
  configuration in \<^verbatim>\<open>lib.rs\<close>).

  The handler is the record \<open>Dfu\<close>; each method is a function from the world and the handler to the
  world, the handler and the outcome.  A method that awaits the data stage of a control request takes
  the steps the other tasks make meanwhile and the result of the read as arguments.  The upload source
  is the bytes it serves.
\<close>

unbundle bit_operations_syntax

subsection \<open>Configuration\<close>

datatype DfuConfigError = SwupdateErr SwupdateConfigError | UnsupportedUploadTarget bytes

record DfuConfig =
  cfg_download :: SwupdateParams
  cfg_upload :: "bytes option"
  cfg_transfer_size :: "16 word"
  cfg_poll_timeout_ms :: "32 word"

record DfuFnConfig =
  fn_swupdate :: SwupdateConfig
  fn_upload :: "bytes option"
  fn_transfer_size :: "16 word"
  fn_poll_timeout_ms :: "32 word"

text \<open>\<open>to_config\<close>; \<open>sysinfo\<close> is the system information document of \<^verbatim>\<open>system_info_json\<close>.\<close>

definition to_config :: "bytes \<Rightarrow> DfuFnConfig \<Rightarrow> DfuConfigError + DfuConfig" where
  "to_config sysinfo c =
    (let finish = (\<lambda>up. case to_params (fn_swupdate c) of
         Inl e \<Rightarrow> Inl (SwupdateErr e)
       | Inr p \<Rightarrow> Inr \<lparr>cfg_download = p, cfg_upload = up, cfg_transfer_size = fn_transfer_size c,
           cfg_poll_timeout_ms = fn_poll_timeout_ms c\<rparr>)
     in case fn_upload c of
          None \<Rightarrow> finish None
        | Some t \<Rightarrow> if t = ascii ''sysinfo'' then finish (Some sysinfo)
            else Inl (UnsupportedUploadTarget t))"

record DfuDesc =
  can_download :: bool
  can_upload :: bool
  manifest_tolerant :: bool
  will_detach :: bool
  detach_timeout_ms :: "16 word"
  desc_transfer_size :: "16 word"
  dfu_version :: "byte \<times> byte"

definition descriptor :: "DfuConfig \<Rightarrow> DfuDesc" where
  "descriptor c = \<lparr>can_download = True, can_upload = (cfg_upload c \<noteq> None), manifest_tolerant = True,
     will_detach = False, detach_timeout_ms = 1000, desc_transfer_size = cfg_transfer_size c,
     dfu_version = (1, 1)\<rparr>"

subsection \<open>The handler\<close>

abbreviation (input) "DFU_SUFFIX_LEN \<equiv> (16 :: nat)"
abbreviation (input) "DNLOAD_BUSY_POLL_TIMEOUT_MS \<equiv> (100 :: 32 word)"
abbreviation (input) "MANIFEST_POLL_TIMEOUT_MS \<equiv> (100 :: 32 word)"
abbreviation (input) "TRANSFER_IDLE_TIMEOUT_MS \<equiv> (5000 :: nat)"

record CtrlReq =
  request_type :: byte
  request :: byte
  req_value :: "16 word"
  req_index :: "16 word"
  req_length :: "16 word"

datatype InReply = Inline bytes nat | Data bytes

fun as_slice :: "InReply \<Rightarrow> bytes" where
  "as_slice (Inline buf n) = take n buf"
| "as_slice (Data d) = d"

definition from_state :: "State \<Rightarrow> InReply" where
  "from_state s = Inline ((replicate 6 0)[0 := state_code s]) 1"

definition is_dfu_request :: "CtrlReq \<Rightarrow> bool" where
  "is_dfu_request req \<longleftrightarrow> request_type req AND 0x60 = 0x20 \<and> request_type req AND 0x1f = 0x01"

record Dfu =
  transfer_size :: "16 word"
  poll_timeout_ms :: "32 word"
  download :: SwupdateParams
  download_tail :: bytes
  download_crc :: Hasher
  upload :: "bytes option"
  sink :: "SwupdateSession option"
  pending :: "BytesMut option"
  state :: State
  dfu_status :: Status

definition fresh_sink :: "Dfu \<Rightarrow> SwupdateSession" where
  "fresh_sink d = session_new (download d) (unat (transfer_size d))"

definition dfu_new :: "DfuConfig \<Rightarrow> Dfu" where
  "dfu_new c = \<lparr>transfer_size = cfg_transfer_size c, poll_timeout_ms = cfg_poll_timeout_ms c,
     download = cfg_download c, download_tail = [], download_crc = hasher_new,
     upload = cfg_upload c, sink = Some (session_new (cfg_download c) (unat (cfg_transfer_size c))),
     pending = None, state = DfuIdle, dfu_status = StatusOk\<rparr>"

definition fault :: "Status \<Rightarrow> Dfu \<Rightarrow> Dfu" where
  "fault st d = d\<lparr>dfu_status := st, state := Error\<rparr>"

definition is_finishing :: "Dfu \<Rightarrow> bool" where
  "is_finishing d \<longleftrightarrow> state d = Manifest \<or> state d = ManifestSync"

text \<open>Assigning a new session to the sink drops the old one.\<close>

definition replace_sink :: "world \<Rightarrow> Dfu \<Rightarrow> world \<times> Dfu" where
  "replace_sink w d =
    ((case sink d of None \<Rightarrow> w | Some s \<Rightarrow> session_drop s w), d\<lparr>sink := Some (fresh_sink d)\<rparr>)"

definition abort_sink :: "world \<Rightarrow> Dfu \<Rightarrow> world \<times> Dfu" where
  "abort_sink w d =
    (case sink d of None \<Rightarrow> (w, d) | Some s \<Rightarrow> (let (w, s) = abort w s in (w, d\<lparr>sink := Some s\<rparr>)))"

definition abort_transfer :: "world \<Rightarrow> Dfu \<Rightarrow> world \<times> Dfu" where
  "abort_transfer w d =
    (let (w, d) = abort_sink w d; (w, d) = replace_sink w d
     in (w, d\<lparr>pending := None, dfu_status := StatusOk, state := DfuIdle, download_tail := [],
          download_crc := hasher_new\<rparr>))"

definition dfu_idle_timeout :: "Dfu \<Rightarrow> nat option" where
  "dfu_idle_timeout d = (if state d \<noteq> DfuIdle then Some TRANSFER_IDLE_TIMEOUT_MS else None)"

definition reset_on_idle_timeout :: "world \<Rightarrow> Dfu \<Rightarrow> world \<times> Dfu" where
  "reset_on_idle_timeout w d =
    (let (w, d) = abort_sink w d; (w, d) = replace_sink w d
     in (w, d\<lparr>pending := None, dfu_status := StatusOk, state := DfuIdle, download_tail := [],
          download_crc := hasher_new\<rparr>))"

definition abort_with_fault :: "Status \<Rightarrow> world \<Rightarrow> Dfu \<Rightarrow> world \<times> Dfu" where
  "abort_with_fault st w d = (let (w, d) = abort_transfer w d in (w, fault st d))"

text \<open>The end of \<open>push_pending\<close>: nothing is held any more, so manifestation closes the input.\<close>

definition push_eof :: "world \<Rightarrow> Dfu \<Rightarrow> world \<times> Dfu" where
  "push_eof w d =
    (if state d = Manifest then
       (case sink d of None \<Rightarrow> (w, d) | Some s \<Rightarrow> (let (w, s) = eof w s in (w, d\<lparr>sink := Some s\<rparr>)))
     else (w, d))"

definition push_pending :: "world \<Rightarrow> Dfu \<Rightarrow> world \<times> Dfu \<times> bool outcome" where
  "push_pending w d =
    (let finish = (\<lambda>w d. let (w, d) = push_eof w d in (w, d, Ok False)) in
     case pending d of
       None \<Rightarrow> finish w d
     | Some chunk \<Rightarrow>
         (let d = d\<lparr>pending := None\<rparr> in
          case sink d of
            None \<Rightarrow> (w, d\<lparr>pending := Some chunk\<rparr>, Ok True)
          | Some s \<Rightarrow>
              (case try_send chunk w s of (w, s, r) \<Rightarrow>
                 (let d = d\<lparr>sink := Some s\<rparr> in
                  case r of
                    Ok (FeedOk _) \<Rightarrow> finish w d
                  | Ok FeedClosed \<Rightarrow> finish w d
                  | Ok (FeedFull chunk) \<Rightarrow> (w, d\<lparr>pending := Some chunk\<rparr>, Ok True)
                  | Err e \<Rightarrow> (w, d, Err e)
                  | Panic \<Rightarrow> (w, d, Panic)))))"

definition submit_chunk :: "BytesMut \<Rightarrow> world \<Rightarrow> Dfu \<Rightarrow> world \<times> Dfu \<times> unit outcome" where
  "submit_chunk chunk w d =
    (if pending d \<noteq> None then
       (let (w, d) = abort_with_fault ErrStalledPkt w d in (w, d, Ok ()))
     else
       (case push_pending w (d\<lparr>pending := Some chunk\<rparr>) of
          (w, d, Ok _) \<Rightarrow> (w, d, Ok ())
        | (w, d, Err e) \<Rightarrow> (w, d, Err e)
        | (w, d, Panic) \<Rightarrow> (w, d, Panic)))"

text \<open>The verdict part of \<open>poll\<close>.\<close>

definition poll_verdict :: "world \<Rightarrow> Dfu \<Rightarrow> world \<times> Dfu \<times> (io_error + unit) option" where
  "poll_verdict w d =
    (case sink d of
       None \<Rightarrow> (w, d, None)
     | Some s \<Rightarrow>
        if state d = Manifest \<or> is_open s
        then (let (w, s, v) = try_finished w s in (w, d\<lparr>sink := Some s\<rparr>, v))
        else (w, d, None))"

definition poll_apply :: "bool \<Rightarrow> (io_error + unit) option \<Rightarrow> world \<Rightarrow> Dfu \<Rightarrow> world \<times> Dfu" where
  "poll_apply manifesting v w d =
    (case v of
       Some (Inl _) \<Rightarrow>
         (let (w, d) = replace_sink w (d\<lparr>download_crc := hasher_new\<rparr>)
          in (w, fault ErrVerify (d\<lparr>pending := None\<rparr>)))
     | Some (Inr _) \<Rightarrow>
         if manifesting then
           (let (w, d) = replace_sink w (d\<lparr>download_crc := hasher_new\<rparr>)
            in (w, d\<lparr>pending := None, dfu_status := StatusOk, state := ManifestSync\<rparr>))
         else (w, d)
     | None \<Rightarrow> (w, d))"

definition poll :: "world \<Rightarrow> Dfu \<Rightarrow> world \<times> Dfu \<times> unit outcome" where
  "poll w d =
    (case push_pending w d of
       (w, d, Ok _) \<Rightarrow>
         (let (w, d', v) = poll_verdict w d; (w, d') = poll_apply (state d = Manifest) v w d'
          in (w, d', Ok ()))
     | (w, d, Err e) \<Rightarrow> (w, d, Err e)
     | (w, d, Panic) \<Rightarrow> (w, d, Panic))"

definition recycled_chunk_buffer :: "bytes \<Rightarrow> world \<Rightarrow> SwupdateSession \<Rightarrow> world \<times> BytesMut" where
  "recycled_chunk_buffer xs w s = (let (w, buf) = buffer (length xs) w s in (w, extend_from_slice xs buf))"

definition flushable_len :: "nat \<Rightarrow> nat option" where
  "flushable_len n = (if n > DFU_SUFFIX_LEN then Some (n - DFU_SUFFIX_LEN) else None)"

definition has_valid_dfu_suffix :: "Hasher \<Rightarrow> bytes \<Rightarrow> bool" where
  "has_valid_dfu_suffix prefix_crc buf \<longleftrightarrow>
    length buf = DFU_SUFFIX_LEN \<and> take 3 (drop 8 buf) = ascii ''UFD'' \<and> unat (buf ! 11) = DFU_SUFFIX_LEN \<and>
    unat (NOT (hasher_finalize (hasher_update prefix_crc (take (DFU_SUFFIX_LEN - 4) buf)))) =
      of_le (drop (DFU_SUFFIX_LEN - 4) buf)"

definition manifest :: "world \<Rightarrow> Dfu \<Rightarrow> world \<times> Dfu \<times> unit outcome" where
  "manifest w d =
    (let d = d\<lparr>dfu_status := StatusOk, state := Manifest\<rparr>;
         tail = download_tail d;
         d = d\<lparr>download_tail := []\<rparr>
     in if tail = [] \<or> has_valid_dfu_suffix (download_crc d) tail then
          (case push_pending w d of
             (w, d, Ok _) \<Rightarrow> (w, d, Ok ())
           | (w, d, Err e) \<Rightarrow> (w, d, Err e)
           | (w, d, Panic) \<Rightarrow> (w, d, Panic))
        else
          (case sink d of
             None \<Rightarrow> (w, d, Panic)
           | Some s \<Rightarrow>
               (let (w, chunk) = recycled_chunk_buffer tail w s in submit_chunk chunk w d)))"

definition get_status :: "Dfu \<Rightarrow> Dfu \<times> InReply" where
  "get_status d =
    (let st = (case state d of
           DnloadSync \<Rightarrow> if pending d \<noteq> None then DnBusy else DnloadIdle
         | DnBusy \<Rightarrow> if pending d \<noteq> None then DnBusy else DnloadIdle
         | ManifestSync \<Rightarrow> DfuIdle
         | other \<Rightarrow> other);
         t = (case st of
           DnloadIdle \<Rightarrow> 0
         | DnBusy \<Rightarrow> DNLOAD_BUSY_POLL_TIMEOUT_MS
         | Manifest \<Rightarrow> MANIFEST_POLL_TIMEOUT_MS
         | ManifestSync \<Rightarrow> MANIFEST_POLL_TIMEOUT_MS
         | _ \<Rightarrow> poll_timeout_ms d)
     in (d\<lparr>state := st\<rparr>,
         Inline (to_bytes \<lparr>gs_status = dfu_status d, gs_poll_timeout_ms = t, gs_state = st,
           gs_string_index = 0\<rparr>) 6))"

definition upload_block :: "CtrlReq \<Rightarrow> Dfu \<Rightarrow> Dfu \<times> InReply outcome" where
  "upload_block req d =
    (let ts = unat (transfer_size d);
         offset = unat (req_value req) * unat (transfer_size d)
     in case upload d of
          None \<Rightarrow> (d, Err (Custom NotFound (Text ''no DFU upload source configured'')))
        | Some src \<Rightarrow>
            (let start = min offset (length src);
                 stop = min (start + ts) (length src);
                 buf = take (stop - start) (drop start src)
             in (d\<lparr>state := (if length buf < ts then DfuIdle else UploadIdle)\<rparr>, Ok (Data buf))))"

definition handle_out :: "CtrlReq \<Rightarrow> world \<Rightarrow> Dfu \<Rightarrow> world \<times> Dfu \<times> unit outcome" where
  "handle_out req w d =
    (case poll w d of
       (w, d, Ok _) \<Rightarrow>
         (if request req = DETACH then (w, d\<lparr>state := AppDetach\<rparr>, Ok ())
          else if request req = DNLOAD then manifest w d
          else if request req = CLRSTATUS then
            (if state d = Error \<or> is_finishing d
             then (let (w, d) = abort_transfer w d in (w, d, Ok ()))
             else (w, d\<lparr>dfu_status := StatusOk, state := DfuIdle, download_tail := [],
               download_crc := hasher_new\<rparr>, Ok ()))
          else if request req = ABORT then (let (w, d) = abort_transfer w d in (w, d, Ok ()))
          else (w, fault ErrStalledPkt d, Err (Custom InvalidInput (Text ''unsupported DFU request''))))
     | (w, d, Err e) \<Rightarrow> (w, d, Err e)
     | (w, d, Panic) \<Rightarrow> (w, d, Panic))"

definition handle_in :: "CtrlReq \<Rightarrow> world \<Rightarrow> Dfu \<Rightarrow> world \<times> Dfu \<times> InReply outcome" where
  "handle_in req w d =
    (case poll w d of
       (w, d, Ok _) \<Rightarrow>
         (if request req = GETSTATUS then (let (d, r) = get_status d in (w, d, Ok r))
          else if request req = GETSTATE then (w, d, Ok (from_state (state d)))
          else if request req = UPLOAD then (let (d, r) = upload_block req d in (w, d, r))
          else (w, fault ErrStalledPkt d, Err (Custom InvalidInput (Text ''unsupported DFU request''))))
     | (w, d, Err e) \<Rightarrow> (w, d, Err e)
     | (w, d, Panic) \<Rightarrow> (w, d, Panic))"

text \<open>What follows the data stage of a download block: \<open>buf\<close> is the carried tail and the data.\<close>

definition accept_block :: "BytesMut \<Rightarrow> world \<Rightarrow> Dfu \<Rightarrow> world \<times> Dfu \<times> unit outcome" where
  "accept_block buf w d =
    (let d = d\<lparr>state := DnloadSync, dfu_status := StatusOk\<rparr> in
     case flushable_len (bm_len buf) of
       None \<Rightarrow> (w, d\<lparr>download_tail := data buf\<rparr>, Ok ())
     | Some flush \<Rightarrow>
         (let d = d\<lparr>download_tail := drop flush (data buf)\<rparr>;
              buf = bm_truncate flush buf;
              d = d\<lparr>download_crc := hasher_update (download_crc d) (data buf)\<rparr>
          in submit_chunk buf w d))"

text \<open>
  \<open>receive_dnload_block\<close>: \<open>len\<close> is the length the request declares, \<open>as\<close> what the other tasks do while
  the data stage is read, \<open>rcv\<close> the result of reading it (at most \<open>len\<close> bytes are taken).
\<close>

definition receive_dnload_block :: "nat \<Rightarrow> env_action list \<Rightarrow> io_error + bytes \<Rightarrow> world \<Rightarrow> Dfu
    \<Rightarrow> world \<times> Dfu \<times> unit outcome" where
  "receive_dnload_block len as rcv w d =
    (case poll w d of
       (w, d, Ok _) \<Rightarrow>
         (if is_finishing d then (w, d, Err (other_error ''manifestation in progress''))
          else
            (let carry = length (download_tail d) in
             case sink d of
               None \<Rightarrow> (w, d, Panic)
             | Some s \<Rightarrow>
                 (let (w, buf) = buffer (carry + len) w s;
                      buf = resize (carry + len) 0 (extend_from_slice (download_tail d) buf);
                      w = env_run as w
                  in case rcv of
                       Inl e \<Rightarrow> (w, d, Err e)
                     | Inr xs \<Rightarrow>
                         (let received = take len xs;
                              buf = buf\<lparr>data := take carry (data buf) @ received @
                                drop (carry + length received) (data buf)\<rparr>
                          in accept_block (bm_truncate (carry + length received) buf) w d))))
     | (w, d, Err e) \<Rightarrow> (w, d, Err e)
     | (w, d, Panic) \<Rightarrow> (w, d, Panic))"

subsection \<open>Invariant\<close>

text \<open>The handler always has a sink, on a well-formed arena, and carries at most one suffix.\<close>

definition dfu_inv :: "world \<Rightarrow> Dfu \<Rightarrow> bool" where
  "dfu_inv w d \<longleftrightarrow> arena_wf w \<and> length (download_tail d) \<le> DFU_SUFFIX_LEN \<and>
    (case sink d of None \<Rightarrow> False | Some s \<Rightarrow> sink_inv w s)"

text \<open>The handler as it was created, on an unused session.\<close>

definition reset_dfu :: "Dfu \<Rightarrow> Dfu" where
  "reset_dfu d = d\<lparr>sink := Some (fresh_sink d), pending := None, dfu_status := StatusOk, state := DfuIdle,
     download_tail := [], download_crc := hasher_new\<rparr>"

lemma dfu_invE:
  assumes "dfu_inv w d"
  obtains s where "sink d = Some s" "sink_inv w s" "arena_wf w" "length (download_tail d) \<le> 16"
  using assms by (auto simp: dfu_inv_def split: option.splits)

lemma dfu_inv_update:
  "sink_inv w' s' \<Longrightarrow> length (download_tail d) \<le> 16 \<Longrightarrow> dfu_inv w' (d\<lparr>pending := p, sink := Some s'\<rparr>)"
  by (simp add: dfu_inv_def sink_inv_def)

lemma sink_same: "sink d = p \<Longrightarrow> d\<lparr>sink := p\<rparr> = d"
  by (cases d) simp

lemma push_eof_cases:
  assumes "sink d = Some s" "sink_inv w s" "push_eof w d = (w', d')"
  obtains s' where "d' = d\<lparr>sink := Some s'\<rparr>" "sink_inv w' s'"
    "state d \<noteq> Manifest \<Longrightarrow> w' = w \<and> s' = s"
    "state d = Manifest \<Longrightarrow> w' = drop_tx s w \<and> s' = s\<lparr>tx := None\<rparr>"
proof (cases "state d = Manifest")
  case True
  have eq: "w' = drop_tx s w" "d' = d\<lparr>sink := Some (s\<lparr>tx := None\<rparr>)\<rparr>"
    using assms(1,3) True by (simp_all add: push_eof_def eof_def tx_set_none_def)
  show ?thesis
    by (rule that [of "s\<lparr>tx := None\<rparr>"]) (use eq True eof_inv [OF assms(2)] in \<open>simp_all add: eof_def tx_set_none_def\<close>)
next
  case False
  have eq: "w' = w" "d' = d"
    using assms(1,3) False by (simp_all add: push_eof_def)
  show ?thesis
    by (rule that [of s]) (use eq False assms sink_same [of d "Some s"] in simp_all)
qed

lemma pending_same: "pending d = p \<Longrightarrow> d\<lparr>pending := p\<rparr> = d"
  by (cases d) simp

lemma pending_back: "pending d = Some c \<Longrightarrow> d\<lparr>pending := None, sink := x, pending := Some c\<rparr> = d\<lparr>sink := x\<rparr>"
  by (cases d) simp

lemma push_pending_unfold:
  assumes "pending d = Some c" "sink d = Some s" "try_send c w s = (w1, s1, r1)"
  shows "r1 = Ok (FeedOk n) \<Longrightarrow> push_pending w d =
      (let (w, d) = push_eof w1 (d\<lparr>pending := None, sink := Some s1\<rparr>) in (w, d, Ok False))"
    "r1 = Ok FeedClosed \<Longrightarrow> push_pending w d =
      (let (w, d) = push_eof w1 (d\<lparr>pending := None, sink := Some s1\<rparr>) in (w, d, Ok False))"
    "r1 = Ok (FeedFull c') \<Longrightarrow> push_pending w d = (w1, d\<lparr>pending := None, sink := Some s1, pending := Some c'\<rparr>, Ok True)"
    "r1 = Err e \<Longrightarrow> push_pending w d = (w1, d\<lparr>pending := None, sink := Some s1\<rparr>, Err e)"
  using assms by (simp_all add: push_pending_def Let_def)

text \<open>Pushing the held block: a frame, and the four outcomes of the attempt.\<close>

lemma push_pending_cases:
  assumes s: "sink d = Some s" and inv: "sink_inv w s" and run: "push_pending w d = (w', d', r)"
  obtains (none) s' where "pending d = None" "r = Ok False" "d' = d\<lparr>sink := Some s'\<rparr>"
      "push_eof w d = (w', d')" "sink_inv w' s'"
  | (sent) c w1 s1 s' where "pending d = Some c" "r = Ok False" "d' = d\<lparr>pending := None, sink := Some s'\<rparr>"
      "try_send c w s = (w1, s1, Ok (FeedOk (bm_len c)))"
      "push_eof w1 (d\<lparr>pending := None, sink := Some s1\<rparr>) = (w', d')" "sink_inv w' s'"
  | (held) c s' where "pending d = Some c" "r = Ok True" "d' = d\<lparr>sink := Some s'\<rparr>"
      "try_send c w s = (w', s', Ok (FeedFull c))" "sink_inv w' s'"
  | (closed) c w1 s1 s' where "pending d = Some c" "r = Ok False" "d' = d\<lparr>pending := None, sink := Some s'\<rparr>"
      "try_send c w s = (w1, s1, Ok FeedClosed)" "sink_stream w s = None"
      "push_eof w1 (d\<lparr>pending := None, sink := Some s1\<rparr>) = (w', d')" "sink_inv w' s'"
  | (refused) c where "pending d = Some c" "w' = w" "d' = d\<lparr>pending := None\<rparr>" "restart_pending w"
      "tx s = None" "status s = None" "terminal s = None"
      "r = Err (other_error ''restart pending after successful SWUpdate; rejecting new update'')"
proof (cases "pending d")
  case None
  then have "r = Ok False" "push_eof w d = (w', d')"
    using run by (auto simp: push_pending_def Let_def split: prod.splits)
  moreover obtain s' where "d' = d\<lparr>sink := Some s'\<rparr>" "sink_inv w' s'"
    using push_eof_cases [OF s inv \<open>push_eof w d = (w', d')\<close>] by blast
  ultimately show ?thesis
    using none [OF None] by blast
next
  case (Some c)
  let ?d = "\<lambda>s1. d\<lparr>pending := None, sink := Some s1\<rparr>"
  obtain w1 s1 r1 where ts: "try_send c w s = (w1, s1, r1)"
    by (cases "try_send c w s")
  have fin: thesis
    if "r1 = Ok (FeedOk (bm_len c)) \<or> r1 = Ok FeedClosed \<and> sink_stream w s = None" and i1: "sink_inv w1 s1"
  proof -
    have e: "r = Ok False" "push_eof w1 (?d s1) = (w', d')"
      using that(1) push_pending_unfold(1,2) [OF Some s ts, unfolded run] by (auto split: prod.splits)
    have sk: "sink (?d s1) = Some s1"
      by simp
    obtain s' where s': "d' = (?d s1)\<lparr>sink := Some s'\<rparr>" "sink_inv w' s'"
      using push_eof_cases [OF sk i1 e(2)] by blast
    then have d': "d' = ?d s'"
      by simp
    from that(1) show thesis
    proof
      assume "r1 = Ok (FeedOk (bm_len c))"
      then show thesis
        using ts by (intro sent [OF Some e(1) d' _ e(2) s'(2)]) simp
    next
      assume "r1 = Ok FeedClosed \<and> sink_stream w s = None"
      then show thesis
        using ts by (intro closed [OF Some e(1) d' _ _ e(2) s'(2)]) simp_all
    qed
  qed
  from inv ts show ?thesis
  proof (cases rule: try_send_cases)
    case ok
    then show ?thesis
      by (intro fin) simp_all
  next
    case full
    note eq = push_pending_unfold(3) [OF Some s ts full(1), unfolded run]
    show ?thesis
    proof (rule held [OF Some])
      show "r = Ok True" "d' = d\<lparr>sink := Some s1\<rparr>" "try_send c w s = (w', s1, Ok (FeedFull c))"
          "sink_inv w' s1"
        using eq ts full pending_back [OF Some] by simp_all
    qed
  next
    case closed
    then show ?thesis
      by (intro fin) simp_all
  next
    case rejected
    note eq = push_pending_unfold(4) [OF Some s ts rejected(1), unfolded run]
    show ?thesis
    proof (rule refused [OF Some])
      show "w' = w" "d' = d\<lparr>pending := None\<rparr>" "restart_pending w" "tx s = None" "status s = None"
        "terminal s = None"
        "r = Err (other_error ''restart pending after successful SWUpdate; rejecting new update'')"
        using eq rejected sink_same [of "d\<lparr>pending := None\<rparr>" "Some s"] s by simp_all
    qed
  qed
qed

lemma push_pending_frame:
  assumes "dfu_inv w d" "push_pending w d = (w', d', r)"
  shows "dfu_inv w' d' \<and> r \<noteq> Panic \<and> state d' = state d \<and> download_tail d' = download_tail d \<and>
    download_crc d' = download_crc d \<and> dfu_status d' = dfu_status d"
proof -
  obtain s where s: "sink d = Some s" "sink_inv w s" "length (download_tail d) \<le> 16"
    using assms(1) by (rule dfu_invE)
  from s(1,2) assms(2) show ?thesis
  proof (cases rule: push_pending_cases)
    case refused
    then show ?thesis
      using s by (simp add: dfu_inv_def sink_inv_def)
  qed (use s in \<open>simp_all add: dfu_inv_def sink_inv_def\<close>)
qed

lemma replace_sink_inv:
  assumes "arena_wf w" "length (download_tail d) \<le> 16"
  shows "dfu_inv (fst (replace_sink w d)) (snd (replace_sink w d))"
  using assms by (simp add: replace_sink_def dfu_inv_def fresh_sink_def session_drop_arena session_new_inv
      split: option.split)

lemma replace_sink_frame [simp]:
  "snd (replace_sink w d) = d\<lparr>sink := Some (fresh_sink d)\<rparr>"
  by (simp add: replace_sink_def)

lemma fresh_sink_update [simp]:
  "fresh_sink (d\<lparr>sink := x\<rparr>) = fresh_sink d" "fresh_sink (d\<lparr>download_crc := h\<rparr>) = fresh_sink d"
  "fresh_sink (d\<lparr>pending := p\<rparr>) = fresh_sink d" "fresh_sink (d\<lparr>state := z\<rparr>) = fresh_sink d"
  "fresh_sink (d\<lparr>dfu_status := t\<rparr>) = fresh_sink d" "fresh_sink (d\<lparr>download_tail := b\<rparr>) = fresh_sink d"
  by (simp_all add: fresh_sink_def)

lemma abort_sink_arena: "arena_wf w \<Longrightarrow> arena_wf (fst (abort_sink w d))"
  using abort_arena by (simp add: abort_sink_def split: option.split prod.split) (metis fst_conv)

lemma abort_sink_frame: "\<exists>x. snd (abort_sink w d) = d\<lparr>sink := x\<rparr>"
  using sink_same [of d "sink d"]
  by (cases "sink d") (auto simp: abort_sink_def split: prod.split intro: exI [of _ None])

lemma abort_transfer_frame: "snd (abort_transfer w d) = reset_dfu d"
proof -
  obtain x where "snd (abort_sink w d) = d\<lparr>sink := x\<rparr>"
    using abort_sink_frame by blast
  then show ?thesis
    by (cases "abort_sink w d") (simp add: abort_transfer_def reset_dfu_def case_prod_beta Let_def)
qed

lemma abort_transfer_inv: "arena_wf w \<Longrightarrow> dfu_inv (fst (abort_transfer w d)) (snd (abort_transfer w d))"
proof -
  assume "arena_wf w"
  then have "arena_wf (fst (abort_transfer w d))"
    using abort_sink_arena [of w d] by (simp add: abort_transfer_def case_prod_beta Let_def replace_sink_def
        session_drop_arena split: option.split)
  then show ?thesis
    by (simp add: abort_transfer_frame dfu_inv_def reset_dfu_def fresh_sink_def session_new_inv)
qed

lemma reset_is_abort: "reset_on_idle_timeout w d = abort_transfer w d"
  by (simp add: reset_on_idle_timeout_def abort_transfer_def)

lemma fault_inv [simp]: "dfu_inv w (fault st d) = dfu_inv w d"
  by (simp add: dfu_inv_def fault_def)

lemma dfu_inv_state [simp]:
  "dfu_inv w (d\<lparr>state := z\<rparr>) = dfu_inv w d" "dfu_inv w (d\<lparr>dfu_status := t\<rparr>) = dfu_inv w d"
  "dfu_inv w (d\<lparr>pending := p\<rparr>) = dfu_inv w d" "dfu_inv w (d\<lparr>download_crc := h\<rparr>) = dfu_inv w d"
  by (simp_all add: dfu_inv_def)

lemma dfu_inv_arena: "dfu_inv w d \<Longrightarrow> arena_wf w"
  by (simp add: dfu_inv_def)

lemma submit_chunk_inv:
  assumes "dfu_inv w d" "submit_chunk c w d = (w', d', r)"
  shows "dfu_inv w' d' \<and> r \<noteq> Panic"
proof (cases "pending d")
  case None
  then show ?thesis
    using assms push_pending_frame [of w "d\<lparr>pending := Some c\<rparr>"]
    by (auto simp: submit_chunk_def split: prod.splits outcome.splits)
next
  case (Some p)
  then show ?thesis
    using assms abort_transfer_inv [OF dfu_inv_arena [OF assms(1)], of d]
    by (auto simp: submit_chunk_def abort_with_fault_def split: prod.splits)
qed

lemma poll_verdict_cases:
  assumes "dfu_inv w d" "poll_verdict w d = (w', d', v)"
  obtains s s' where "sink d = Some s" "d' = d\<lparr>sink := Some s'\<rparr>" "sink_inv w' s'" "arena_wf w'"
    "(w', s', v) = (if state d = Manifest \<or> is_open s then try_finished w s else (w, s, None))"
proof -
  obtain s where s: "sink d = Some s" "sink_inv w s"
    using assms(1) by (rule dfu_invE)
  obtain w1 s1 v1 where t: "(w1, s1, v1) = (if state d = Manifest \<or> is_open s then try_finished w s else (w, s, None))"
    by (metis prod.exhaust)
  have eq: "w' = w1" "d' = d\<lparr>sink := Some s1\<rparr>" "v = v1"
    using assms(2) s t sink_same [OF s(1)] by (auto simp: poll_verdict_def split: if_splits prod.splits)
  have "sink_inv w1 s1"
    using t s(2) snk.verdict_inv [OF s(2), of w1 s1 v1] by (auto split: if_splits)
  then show ?thesis
    using that [OF s(1)] eq t by (simp add: sink_inv_def)
qed

lemma poll_apply_inv:
  assumes "dfu_inv w d"
  shows "dfu_inv (fst (poll_apply m v w d)) (snd (poll_apply m v w d))"
proof -
  have "dfu_inv (fst (replace_sink w (d\<lparr>download_crc := hasher_new\<rparr>))) (d\<lparr>download_crc := hasher_new, sink := Some (fresh_sink d)\<rparr>)"
    using replace_sink_inv [of w "d\<lparr>download_crc := hasher_new\<rparr>"] assms by (simp add: dfu_inv_def)
  then show ?thesis
    using assms by (simp add: poll_apply_def case_prod_beta Let_def split: option.split sum.split)
qed

lemma poll_inv:
  assumes "dfu_inv w d" "poll w d = (w', d', r)"
  shows "dfu_inv w' d' \<and> r \<noteq> Panic"
proof -
  obtain w1 d1 r1 where p: "push_pending w d = (w1, d1, r1)"
    by (cases "push_pending w d")
  note f = push_pending_frame [OF assms(1) p]
  obtain w2 d2 v where q: "poll_verdict w1 d1 = (w2, d2, v)"
    by (cases "poll_verdict w1 d1")
  have "dfu_inv w1 d1"
    using f by simp
  then have "dfu_inv w2 d2"
    using q by (cases rule: poll_verdict_cases) (use f assms(1) in \<open>simp add: dfu_inv_def\<close>)
  then show ?thesis
    using assms(2) p q f poll_apply_inv [of w2 d2 "state d1 = Manifest" v]
    by (cases r1) (auto simp: poll_def case_prod_beta Let_def)
qed


lemma manifest_inv:
  assumes "dfu_inv w d" "manifest w d = (w', d', r)"
  shows "dfu_inv w' d' \<and> r \<noteq> Panic"
proof -
  obtain s where s: "sink d = Some s" "sink_inv w s" "arena_wf w"
    using assms(1) by (rule dfu_invE)
  let ?d = "d\<lparr>dfu_status := StatusOk, state := Manifest, download_tail := []\<rparr>"
  have inv: "dfu_inv w ?d"
    using s by (simp add: dfu_inv_def)
  show ?thesis
  proof (cases "download_tail d = [] \<or> has_valid_dfu_suffix (download_crc d) (download_tail d)")
    case True
    then show ?thesis
      using assms(2) push_pending_frame [OF inv]
      by (auto simp: manifest_def Let_def split: prod.splits outcome.splits)
  next
    case False
    obtain w1 b where b: "buffer (length (download_tail d)) w s = (w1, b)"
      by fastforce
    have "dfu_inv w1 ?d"
      using inv s buffer_inv(1) [OF s(2) b, of s] by (simp add: dfu_inv_def sink_inv_def)
    then show ?thesis
      using assms(2) False s b submit_chunk_inv [of w1 ?d]
      by (auto simp: manifest_def Let_def recycled_chunk_buffer_def)
  qed
qed

lemma accept_block_inv:
  assumes "dfu_inv w d" "accept_block buf w d = (w', d', r)"
  shows "dfu_inv w' d' \<and> r \<noteq> Panic"
proof (cases "flushable_len (bm_len buf)")
  case None
  then show ?thesis
    using assms by (auto simp: accept_block_def dfu_inv_def flushable_len_def bm_len_def split: if_splits)
next
  case (Some n)
  then have n: "n = length (data buf) - 16" "16 < length (data buf)"
    by (auto simp: flushable_len_def bm_len_def split: if_splits)
  let ?d = "d\<lparr>state := DnloadSync, dfu_status := StatusOk, download_tail := drop n (data buf),
    download_crc := hasher_update (download_crc d) (take n (data buf))\<rparr>"
  have "dfu_inv w ?d"
    using assms(1) n by (simp add: dfu_inv_def)
  then show ?thesis
    using assms(2) Some submit_chunk_inv [of w ?d]
    by (auto simp: accept_block_def Let_def)
qed

lemma env_run_dfu_inv: "dfu_inv w d \<Longrightarrow> dfu_inv (env_run as w) d"
  using env_run_inv by (auto simp: dfu_inv_def sink_inv_def split: option.splits)

lemma receive_inv:
  assumes "dfu_inv w d" "receive_dnload_block len as rcv w d = (w', d', r)"
  shows "dfu_inv w' d' \<and> r \<noteq> Panic"
proof -
  obtain w1 d1 r1 where p: "poll w d = (w1, d1, r1)"
    by (cases "poll w d")
  have inv1: "dfu_inv w1 d1" and r1: "r1 \<noteq> Panic"
    using poll_inv [OF assms(1) p] by simp_all
  obtain s where s: "sink d1 = Some s" "sink_inv w1 s"
    using inv1 by (rule dfu_invE)
  obtain w2 b where b: "buffer (length (download_tail d1) + len) w1 s = (w2, b)"
    by fastforce
  have "dfu_inv (env_run as w2) d1"
    using inv1 s buffer_inv(1) [OF s(2) b, of s] by (intro env_run_dfu_inv) (simp add: dfu_inv_def sink_inv_def)
  note acc = accept_block_inv [OF this]
  show ?thesis
  proof (cases r1)
    case (Ok u)
    then show ?thesis
      using assms(2) p inv1 s b acc \<open>dfu_inv (env_run as w2) d1\<close>
      by (cases "is_finishing d1"; cases rcv) (auto simp: receive_dnload_block_def Let_def)
  qed (use assms(2) p inv1 r1 in \<open>auto simp: receive_dnload_block_def\<close>)
qed

lemma handle_out_inv:
  assumes "dfu_inv w d" "handle_out req w d = (w', d', r)"
  shows "dfu_inv w' d' \<and> r \<noteq> Panic"
proof -
  obtain w1 d1 r1 where p: "poll w d = (w1, d1, r1)"
    by (cases "poll w d")
  have inv1: "dfu_inv w1 d1" and r1: "r1 \<noteq> Panic"
    using poll_inv [OF assms(1) p] by simp_all
  have clr: "dfu_inv w1 (d1\<lparr>dfu_status := StatusOk, state := DfuIdle, download_tail := [], download_crc := hasher_new\<rparr>)"
    using inv1 by (simp add: dfu_inv_def)
  show ?thesis
  proof (cases r1)
    case (Ok u)
    then show ?thesis
      using assms(2) p inv1 clr manifest_inv [OF inv1] abort_transfer_inv [OF dfu_inv_arena [OF inv1], of d1]
      by (auto simp: handle_out_def split: if_splits prod.splits)
  qed (use assms(2) p inv1 r1 in \<open>auto simp: handle_out_def\<close>)
qed

lemma handle_in_inv:
  assumes "dfu_inv w d" "handle_in req w d = (w', d', r)"
  shows "dfu_inv w' d' \<and> r \<noteq> Panic"
proof -
  obtain w1 d1 r1 where p: "poll w d = (w1, d1, r1)"
    by (cases "poll w d")
  have inv1: "dfu_inv w1 d1" and r1: "r1 \<noteq> Panic"
    using poll_inv [OF assms(1) p] by simp_all
  have gs: "dfu_inv w1 (fst (get_status d1))"
    using inv1 by (simp add: get_status_def Let_def)
  have ub: "dfu_inv w1 (fst (upload_block req d1))" "snd (upload_block req d1) \<noteq> Panic"
    using inv1 by (simp_all add: upload_block_def Let_def split: option.split)
  show ?thesis
  proof (cases r1)
    case (Ok u)
    then show ?thesis
      using assms(2) p inv1 gs ub
      by (auto simp: handle_in_def split: if_splits prod.splits)
  qed (use assms(2) p inv1 r1 in \<open>auto simp: handle_in_def\<close>)
qed

end
