(* ===== verification/Functionfs.thy ===== *)
theory Functionfs
  imports Async_Io Dfu_Handler
begin

text \<open>
  Endpoint zero of a FunctionFS function: the event source and control requests of the patched
  \<^verbatim>\<open>usb-gadget\<close> crate (\<^verbatim>\<open>function/custom/mod.rs\<close>, \<^verbatim>\<open>ffs.rs\<close>) and the event loop of
  \<^verbatim>\<open>summit-usbgadget-usb/src/functionfs.rs\<close>.

  The kernel's side of the endpoint-zero file is a script: each read or write takes the next result from
  it, and a silence is a lapse of the idle timeout.  \<open>ep0_log\<close> records the operations the program makes.
  The trait \<open>EventHandler\<close> is the record \<open>event_handler\<close>; the locale \<open>ep0_handler\<close> is what the loop
  needs of an implementation.  Inside it, \<open>loop_survives\<close> and \<open>loop_ends\<close> say when the loop ends; the
  DFU function and the fastboot control plane interpret it.  The loop takes a bound on its turns; one more
  than the length of the script is enough, since every turn takes something from it.
\<close>

unbundle bit_operations_syntax

subsection \<open>Errors\<close>

definition is_torn_down_transport_error :: "io_error \<Rightarrow> bool" where
  "is_torn_down_transport_error err \<longleftrightarrow>
    kind err = NotConnected \<or> kind err = BrokenPipe \<or> raw_os_error err = Some ENODEV"

definition is_setup_superseded_error :: "io_error \<Rightarrow> bool" where
  "is_setup_superseded_error err \<longleftrightarrow> raw_os_error err = Some EIDRM"

definition is_signal_interrupted_error :: "io_error \<Rightarrow> bool" where
  "is_signal_interrupted_error err \<longleftrightarrow> kind err = Interrupted"

definition is_closed_transport_error :: "io_error \<Rightarrow> bool" where
  "is_closed_transport_error err \<longleftrightarrow>
    is_torn_down_transport_error err \<or> is_setup_superseded_error err \<or> is_signal_interrupted_error err \<or>
    raw_os_error err = Some ESHUTDOWN"

subsection \<open>The endpoint-zero file\<close>

datatype Direction = DeviceToHost | HostToDevice

text \<open>What the kernel does: complete an operation (with these bytes), fail it, nothing, or remove the gadget.\<close>

datatype ep0_io = Done bytes | Fault io_error | Silence | Gone

datatype ep0_op = OpRead nat | OpWrite bytes

record 'h Custom =
  ep0_open :: bool
  setup_event :: "Direction option"
  ep0_script :: "ep0_io list"
  ep0_log :: "ep0_op list"
  others :: "'h \<Rightarrow> 'h"
  hnd :: 'h

definition ep0 :: "('h Custom, unit) prog" where
  "ep0 = andthen (query ep0_open) (\<lambda>here.
    if here then ret () else raise (Custom BrokenPipe (Text ''USB gadget was removed'')))"

fun next_io :: "ep0_io list \<Rightarrow> (bool \<times> (io_error + bytes) \<times> ep0_io list) option" where
  "next_io [] = None"
| "next_io (Silence # es) = next_io es"
| "next_io (Gone # es) = map_option (\<lambda>(_, r, es). (True, r, es)) (next_io es)"
| "next_io (Done bs # es) = Some (False, Inr bs, es)"
| "next_io (Fault e # es) = Some (False, Inl e, es)"

definition ep0_syscall :: "ep0_op \<Rightarrow> ('h Custom, bytes) prog" where
  "ep0_syscall op c =
    (case next_io (ep0_script c) of
       None \<Rightarrow> None
     | Some (gone, r, es) \<Rightarrow>
        Some (c\<lparr>ep0_open := (ep0_open c \<and> \<not> gone), ep0_script := es, ep0_log := ep0_log c @ [op]\<rparr>,
          case r of Inl e \<Rightarrow> Err e | Inr bs \<Rightarrow> Ok bs))"

definition ep0_read :: "nat \<Rightarrow> ('h Custom, bytes) prog" where
  "ep0_read n = andthen (ep0_syscall (OpRead n)) (\<lambda>bs. ret (take n bs))"

definition ep0_write :: "bytes \<Rightarrow> ('h Custom, nat) prog" where
  "ep0_write xs = andthen (ep0_syscall (OpWrite xs)) (\<lambda>bs. ret (min (length bs) (length xs)))"

text \<open>The other tasks of the program run while a task waits.\<close>

definition run_others :: "('h Custom, unit) prog" where
  "run_others = modify (\<lambda>c. c\<lparr>hnd := others c (hnd c)\<rparr>)"

subsection \<open>Control requests\<close>

abbreviation (input) "EL2HLT \<equiv> (51 :: nat)"
abbreviation (input) "DIR_IN \<equiv> (0x80 :: byte)"

definition set_setup :: "Direction option \<Rightarrow> ('h Custom, unit) prog" where
  "set_setup d = modify (\<lambda>c. c\<lparr>setup_event := d\<rparr>)"

text \<open>An operation that is expected to fail with \<open>EL2HLT\<close>: it stalls the endpoint.\<close>

definition halting :: "('h Custom, 'a) prog \<Rightarrow> ('h Custom, unit) prog" where
  "halting m = andthen (attempt m) (\<lambda>r.
    case r of
      Inr _ \<Rightarrow> ret ()
    | Inl e \<Rightarrow> if raw_os_error e = Some EL2HLT then ret () else raise e)"

definition sender_do_halt :: "('h Custom, unit) prog" where
  "sender_do_halt = andthen ep0 (\<lambda>_. andthen (halting (ep0_read 1)) (\<lambda>_. set_setup None))"

definition receiver_do_halt :: "('h Custom, unit) prog" where
  "receiver_do_halt = andthen ep0 (\<lambda>_. andthen (halting (ep0_write [0])) (\<lambda>_. set_setup None))"

text \<open>Dropping a request that was not consumed stalls the endpoint.\<close>

definition drop_sender :: "('h Custom, unit) prog" where
  "drop_sender = andthen (query setup_event) (\<lambda>ev.
    if ev \<noteq> None then andthen (attempt sender_do_halt) (\<lambda>_. ret ()) else ret ())"

definition drop_receiver :: "('h Custom, unit) prog" where
  "drop_receiver = andthen (query setup_event) (\<lambda>ev.
    if ev \<noteq> None then andthen (attempt receiver_do_halt) (\<lambda>_. ret ()) else ret ())"

text \<open>An operation on a worker thread: the task waits for it.\<close>

definition ep0_await :: "('h Custom, 'a) prog \<Rightarrow> ('h Custom, 'a) prog" where
  "ep0_await m = andthen (attempt m) (\<lambda>r. andthen run_others (\<lambda>_. of_result r))"

text \<open>
  \<open>send_async\<close> and \<open>recv_async\<close> consume the request, so it is dropped at their end, which halts only
  when endpoint zero was gone before the transfer.  The transfer of \<open>recv_async\<close> is a parameter: how
  its worker thread is awaited.
\<close>

definition send_async :: "bytes \<Rightarrow> ('h Custom, nat) prog" where
  "send_async xs =
    andthen (attempt (andthen ep0 (\<lambda>_. andthen (set_setup None) (\<lambda>_. ep0_await (ep0_write xs))))) (\<lambda>r.
    andthen drop_sender (\<lambda>_. of_result r))"

definition recv_with :: "('h Custom, bytes) prog \<Rightarrow> ('h Custom, bytes) prog" where
  "recv_with transfer =
    andthen (attempt (andthen ep0 (\<lambda>_. andthen (set_setup None) (\<lambda>_. transfer)))) (\<lambda>r.
    andthen drop_receiver (\<lambda>_. of_result r))"

definition recv_async :: "nat \<Rightarrow> ('h Custom, bytes) prog" where
  "recv_async n = recv_with (ep0_await (ep0_read n))"

definition recv_all_async :: "CtrlReq \<Rightarrow> ('h Custom, bytes) prog" where
  "recv_all_async ctrl = recv_async (unat (req_length ctrl))"

subsection \<open>Events\<close>

abbreviation (input) "EV_BIND \<equiv> (0 :: byte)"
abbreviation (input) "EV_UNBIND \<equiv> (1 :: byte)"
abbreviation (input) "EV_ENABLE \<equiv> (2 :: byte)"
abbreviation (input) "EV_DISABLE \<equiv> (3 :: byte)"
abbreviation (input) "EV_SETUP \<equiv> (4 :: byte)"
abbreviation (input) "EV_SUSPEND \<equiv> (5 :: byte)"
abbreviation (input) "EV_RESUME \<equiv> (6 :: byte)"

datatype Event =
    Bind | Unbind | Enable | Disable | Suspend | Resume
  | SetupHostToDevice CtrlReq | SetupDeviceToHost CtrlReq | UnknownEvent byte

text \<open>\<open>CtrlReq::parse\<close> and \<open>ffs::Event::parse\<close> on a buffer that may be too short.\<close>

abbreviation (input) fill_error :: io_error where
  "fill_error \<equiv> Custom UnexpectedEof (Text ''failed to fill whole buffer'')"

definition parse_ctrl_req :: "bytes \<Rightarrow> io_error + CtrlReq" where
  "parse_ctrl_req buf =
    (if length buf < 8 then Inl fill_error
     else Inr \<lparr>request_type = buf ! 0, request = buf ! 1, req_value = of_nat (of_le (take 2 (drop 2 buf))),
       req_index = of_nat (of_le (take 2 (drop 4 buf))), req_length = of_nat (of_le (take 2 (drop 6 buf)))\<rparr>)"

definition parse_event :: "bytes \<Rightarrow> io_error + bytes \<times> byte" where
  "parse_event buf = (if length buf < 12 then Inl fill_error else Inr (take 8 buf, buf ! 8))"

definition from_ffs :: "bytes \<times> byte \<Rightarrow> ('h Custom, Event) prog" where
  "from_ffs raw =
    (let t = snd raw in
     if t = EV_BIND then ret Bind
     else if t = EV_UNBIND then ret Unbind
     else if t = EV_ENABLE then ret Enable
     else if t = EV_DISABLE then ret Disable
     else if t = EV_SUSPEND then ret Suspend
     else if t = EV_RESUME then ret Resume
     else if t = EV_SETUP then
       (case parse_ctrl_req (fst raw) of
          Inl e \<Rightarrow> raise (Custom InvalidData (err_to_string e))
        | Inr ctrl \<Rightarrow>
            if request_type ctrl AND DIR_IN \<noteq> 0
            then andthen (set_setup (Some DeviceToHost)) (\<lambda>_. ret (SetupDeviceToHost ctrl))
            else andthen (set_setup (Some HostToDevice)) (\<lambda>_. ret (SetupHostToDevice ctrl)))
     else ret (UnknownEvent t))"

text \<open>A request the handler forgot is stalled before the next event; \<open>setup_event.take()\<close> comes first.\<close>

definition clear_prev_event :: "('h Custom, unit) prog" where
  "clear_prev_event =
    andthen ep0 (\<lambda>_.
    andthen (query setup_event) (\<lambda>ev.
    andthen (set_setup None) (\<lambda>_.
      case ev of
        Some DeviceToHost \<Rightarrow> halting (ep0_read 1)
      | Some HostToDevice \<Rightarrow> halting (ep0_write [0])
      | None \<Rightarrow> ret ())))"

definition read_event :: "('h Custom, Event) prog" where
  "read_event =
    andthen ep0 (\<lambda>_.
    andthen (ep0_read 12) (\<lambda>buf.
      if length buf \<noteq> 12 then raise (Custom InvalidData (Text ''invalid event size''))
      else andthen (of_result (parse_event buf)) from_ffs))"

text \<open>
  Waiting for readiness, under a limit or not: None when nothing happens any more, else whether the
  gadget was removed, whether the limit passed, and what comes next.
\<close>

fun until_ready :: "bool \<Rightarrow> ep0_io list \<Rightarrow> (bool \<times> bool \<times> ep0_io list) option" where
  "until_ready limited [] = None"
| "until_ready limited (Silence # es) = (if limited then Some (False, True, es) else until_ready limited es)"
| "until_ready limited (Gone # es) = Some (True, False, es)"
| "until_ready limited (e # es) = Some (False, False, e # es)"

definition readiness :: "bool \<Rightarrow> ('h Custom, unit) prog" where
  "readiness limited c =
    (case until_ready limited (ep0_script c) of
       None \<Rightarrow> None
     | Some (gone, late, es) \<Rightarrow>
        Some (c\<lparr>ep0_open := (ep0_open c \<and> \<not> gone), ep0_script := es, hnd := others c (hnd c)\<rparr>,
          if late then Err (Custom TimedOut (Text ''endpoint zero idle'')) else Ok ()))"

definition wait_event :: "bool \<Rightarrow> ('h Custom, unit) prog" where
  "wait_event limited = andthen ep0 (\<lambda>_. readiness limited)"

definition event_async :: "bool \<Rightarrow> ('h Custom, Event) prog" where
  "event_async limited =
    andthen clear_prev_event (\<lambda>_. andthen (wait_event limited) (\<lambda>_. read_event))"

subsection \<open>The event loop\<close>

record 'h event_handler =
  handle_event :: "Event \<Rightarrow> ('h Custom, unit) prog"
  on_transport_closed :: "('h Custom, unit) prog"
  idle_timeout :: "'h \<Rightarrow> nat option"
  on_idle_timeout :: "('h Custom, unit) prog"

text \<open>One turn of the loop; False when it returns.\<close>

definition serve_turn :: "'h event_handler \<Rightarrow> ('h Custom, bool) prog" where
  "serve_turn H =
    andthen (query (\<lambda>c. idle_timeout H (hnd c))) (\<lambda>limit.
    andthen (attempt (event_async (limit \<noteq> None))) (\<lambda>step.
      case step of
        Inr event \<Rightarrow> andthen (attempt (handle_event H event)) (\<lambda>_. ret True)
      | Inl err \<Rightarrow>
          if is_torn_down_transport_error err
          then andthen (attempt (on_transport_closed H)) (\<lambda>_. ret False)
          else if is_setup_superseded_error err then ret True
          else if kind err = TimedOut then andthen (attempt (on_idle_timeout H)) (\<lambda>_. ret True)
          else ret True))"

fun serve_loop :: "nat \<Rightarrow> 'h event_handler \<Rightarrow> ('h Custom, unit) prog" where
  "serve_loop 0 H = stuck"
| "serve_loop (Suc n) H = andthen (serve_turn H) (\<lambda>on. if on then serve_loop n H else ret ())"

definition ffs_serve :: "nat \<Rightarrow> 'h event_handler \<Rightarrow> ('h Custom, unit) prog" where
  "ffs_serve n H = andthen (attempt ep0) (\<lambda>r. case r of Inl _ \<Rightarrow> ret () | Inr _ \<Rightarrow> serve_loop n H)"

subsection \<open>Notions for the properties\<close>

text \<open>What an operation on endpoint zero takes from the script.\<close>

definition consumes :: "'h Custom \<Rightarrow> 'h Custom \<Rightarrow> bool" where
  "consumes c c' \<longleftrightarrow> others c' = others c \<and>
    (\<exists>pre. ep0_script c = pre @ ep0_script c' \<and> (ep0_open c' \<longleftrightarrow> ep0_open c \<and> Gone \<notin> set pre))"

text \<open>A program that keeps the handler's invariant, only takes from the script and does not panic.\<close>

definition tame :: "('h \<Rightarrow> bool) \<Rightarrow> ('h Custom, 'a) prog \<Rightarrow> bool" where
  "tame hinv m \<longleftrightarrow> (\<forall>c. hinv (hnd c) \<longrightarrow> (\<forall>h. hinv h \<longrightarrow> hinv (others c h)) \<longrightarrow>
    wp m (\<lambda>c' r. hinv (hnd c') \<and> consumes c c' \<and> r \<noteq> Panic) c)"

text \<open>A script in which the gadget stays: no removal and no error that means it is gone.\<close>

definition lasting :: "ep0_io list \<Rightarrow> bool" where
  "lasting es \<longleftrightarrow> list_all (\<lambda>x. case x of Gone \<Rightarrow> False | Fault e \<Rightarrow> \<not> is_torn_down_transport_error e | _ \<Rightarrow> True) es"

definition stays :: "'h Custom \<Rightarrow> bool" where
  "stays c \<longleftrightarrow> ep0_open c \<and> lasting (ep0_script c)"

definition mild :: "('h Custom, 'a) prog \<Rightarrow> bool" where
  "mild m \<longleftrightarrow> (\<forall>c. stays c \<longrightarrow>
    wp m (\<lambda>c' r. stays c' \<and> (\<forall>e. r = Err e \<longrightarrow> \<not> is_torn_down_transport_error e)) c)"

text \<open>A script that ends with the removal of the gadget, or has reached it.\<close>

definition ending :: "'h Custom \<Rightarrow> bool" where
  "ending c \<longleftrightarrow> \<not> ep0_open c \<or> (\<exists>es. ep0_script c = es @ [Gone, Fault (Os ENODEV)])"

definition brief :: "('h Custom, 'a) prog \<Rightarrow> bool" where
  "brief m \<longleftrightarrow> (\<forall>c. ending c \<longrightarrow> returns m (\<lambda>c' r. ending c') c)"

text \<open>
  \<open>brisk\<close>: once endpoint zero is checked to be there, the program returns; \<open>brief\<close>: it returns in any
  case.  \<open>advances\<close>: it takes something from the script, unless it reports that the gadget is gone.
\<close>

definition before_end :: "'h Custom \<Rightarrow> bool" where
  "before_end c \<longleftrightarrow> ep0_open c \<and> (\<exists>es. ep0_script c = es @ [Gone, Fault (Os ENODEV)])"

definition brisk :: "('h Custom, 'a) prog \<Rightarrow> bool" where
  "brisk m \<longleftrightarrow> (\<forall>c. before_end c \<longrightarrow> returns m (\<lambda>c' r. ending c') c)"

definition advances :: "('h Custom, 'a) prog \<Rightarrow> bool" where
  "advances m \<longleftrightarrow> (\<forall>c. wp m (\<lambda>c' r. length (ep0_script c') < length (ep0_script c) \<or>
    (\<exists>e. r = Err e \<and> is_torn_down_transport_error e)) c)"

definition falters :: "('h Custom, 'a) prog \<Rightarrow> bool" where
  "falters m \<longleftrightarrow> (\<forall>c. wp m (\<lambda>c' r. length (ep0_script c') \<le> length (ep0_script c) \<and>
    (\<forall>e. r = Err e \<longrightarrow> length (ep0_script c') < length (ep0_script c) \<or> is_torn_down_transport_error e) \<and>
    r \<noteq> Panic) c)"

named_theorems tame_intros \<open>programs that keep a handler's invariant\<close>

named_theorems mild_intros \<open>programs that do not lose endpoint zero\<close>

locale ep0_handler =
  fixes H :: "'h event_handler" and hinv :: "'h \<Rightarrow> bool"
  assumes handle_tame: "tame hinv (handle_event H e)"
    and closed_tame: "tame hinv (on_transport_closed H)"
    and idle_tame: "tame hinv (on_idle_timeout H)"

subsection \<open>Operations on endpoint zero\<close>

lemma consumes_refl [simp]: "consumes c c"
  by (auto simp: consumes_def)

lemma consumes_trans: "consumes a b \<Longrightarrow> consumes b c \<Longrightarrow> consumes a c"
  unfolding consumes_def by (metis append.assoc in_set_conv_decomp set_append Un_iff)

lemma consumes_stays: "consumes c c' \<Longrightarrow> stays c \<Longrightarrow> stays c'"
  by (auto simp: consumes_def stays_def lasting_def list_all_iff split: ep0_io.splits)

lemma consumes_fields [simp]:
  "consumes c (c'\<lparr>setup_event := d\<rparr>) = consumes c c'" "consumes c (c'\<lparr>hnd := h\<rparr>) = consumes c c'"
  "consumes c (c'\<lparr>ep0_log := l\<rparr>) = consumes c c'"
  by (simp_all add: consumes_def)

lemma next_io_SomeD:
  "next_io es = Some (gone, r, es') \<Longrightarrow> \<exists>pre. es = pre @ es' \<and> (gone \<longleftrightarrow> Gone \<in> set pre) \<and>
    (\<forall>e. r = Inl e \<longrightarrow> Fault e \<in> set pre)"
proof (induction es arbitrary: gone rule: next_io.induct)
  case (2 es)
  then obtain pre where "es = pre @ es'" "gone \<longleftrightarrow> Gone \<in> set pre" "\<forall>e. r = Inl e \<longrightarrow> Fault e \<in> set pre"
    by fastforce
  then show ?case
    by (intro exI [of _ "Silence # pre"]) auto
next
  case (3 es)
  then obtain g where g: "next_io es = Some (g, r, es')" "gone"
    by auto
  with 3(1) obtain pre where "es = pre @ es'" "\<forall>e. r = Inl e \<longrightarrow> Fault e \<in> set pre"
    by blast
  with g show ?case
    by (intro exI [of _ "Gone # pre"]) auto
next
  case (4 bs es)
  then show ?case
    by (intro exI [of _ "[Done bs]"]) auto
next
  case (5 e es)
  then show ?case
    by (intro exI [of _ "[Fault e]"]) auto
qed simp

lemma until_ready_SomeD:
  "until_ready l es = Some (gone, late, es') \<Longrightarrow> \<exists>pre. es = pre @ es' \<and> (gone \<longleftrightarrow> Gone \<in> set pre)"
proof (induction l es rule: until_ready.induct)
  case (2 l es)
  show ?case
  proof (cases l)
    case True
    with 2 show ?thesis
      by (intro exI [of _ "[Silence]"]) auto
  next
    case False
    with 2 obtain pre where "es = pre @ es'" "gone \<longleftrightarrow> Gone \<in> set pre"
      by auto
    then show ?thesis
      by (intro exI [of _ "Silence # pre"]) auto
  qed
next
  case (3 l es)
  then show ?case
    by (intro exI [of _ "[Gone]"]) auto
qed auto

lemma tame_basic [tame_intros]: "tame hinv (ret x)" "tame hinv (raise e)" "tame hinv (query g)" "tame hinv stuck"
  by (simp_all add: tame_def)

lemma tame_andthen [tame_intros]:
  assumes "tame hinv m" "\<And>x. tame hinv (f x)"
  shows "tame hinv (andthen m f)"
  unfolding tame_def
proof (intro allI impI)
  fix c :: "'a Custom"
  assume i: "hinv (hnd c)" "\<forall>h. hinv h \<longrightarrow> hinv (others c h)"
  show "wp (andthen m f) (\<lambda>c' r. hinv (hnd c') \<and> consumes c c' \<and> r \<noteq> Panic) c"
  proof (rule wp_bind)
    show "wp m (\<lambda>c' r. hinv (hnd c') \<and> consumes c c' \<and> r \<noteq> Panic) c"
      using assms(1) i by (simp add: tame_def)
  next
    fix c' :: "'a Custom" and x :: 'b
    assume p: "hinv (hnd c') \<and> consumes c c' \<and> Ok x \<noteq> Panic"
    then have "\<forall>h. hinv h \<longrightarrow> hinv (others c' h)"
      using i(2) by (simp add: consumes_def)
    then have "wp (f x) (\<lambda>c'' r. hinv (hnd c'') \<and> consumes c' c'' \<and> r \<noteq> Panic) c'"
      using assms(2) p by (simp add: tame_def)
    then show "wp (f x) (\<lambda>c'' r. hinv (hnd c'') \<and> consumes c c'' \<and> r \<noteq> Panic) c'"
      by (rule wp_mono) (use p consumes_trans in blast)
  qed auto
qed

lemma tame_attempt [tame_intros]: "tame hinv m \<Longrightarrow> tame hinv (attempt m)"
  unfolding tame_def wp_attempt by (auto elim!: wp_mono split: outcome.split)

lemma tame_of_result [tame_intros]: "tame hinv (of_result r)"
  by (cases r) (simp_all add: tame_intros)

lemma tame_if [tame_intros]: "tame hinv a \<Longrightarrow> tame hinv b \<Longrightarrow> tame hinv (if P then a else b)"
  by simp

lemma tame_case_sum [tame_intros]:
  "(\<And>e. tame hinv (f e)) \<Longrightarrow> (\<And>x. tame hinv (g x)) \<Longrightarrow> tame hinv (case v of Inl e \<Rightarrow> f e | Inr x \<Rightarrow> g x)"
  by (cases v) simp_all

lemma tame_case_event [tame_intros]:
  "tame hinv a \<Longrightarrow> tame hinv b \<Longrightarrow> tame hinv d \<Longrightarrow> (\<And>x. tame hinv (f x)) \<Longrightarrow> (\<And>x. tame hinv (g x)) \<Longrightarrow>
   tame hinv o1 \<Longrightarrow> tame hinv o2 \<Longrightarrow> tame hinv o3 \<Longrightarrow> (\<And>x. tame hinv (k x)) \<Longrightarrow>
   tame hinv (case e of Bind \<Rightarrow> o1 | Unbind \<Rightarrow> a | Enable \<Rightarrow> b | Disable \<Rightarrow> d | Suspend \<Rightarrow> o2 | Resume \<Rightarrow> o3
     | SetupHostToDevice x \<Rightarrow> f x | SetupDeviceToHost x \<Rightarrow> g x | UnknownEvent x \<Rightarrow> k x)"
  by (cases e) simp_all

lemma tame_set_setup [tame_intros]: "tame hinv (set_setup d)"
  by (simp add: tame_def set_setup_def)

lemma tame_run_others [tame_intros]: "tame hinv run_others"
  by (simp add: tame_def run_others_def)

lemma tame_ep0 [tame_intros]: "tame hinv ep0"
  unfolding ep0_def by (intro tame_intros)

lemma tame_syscall [tame_intros]: "tame hinv (ep0_syscall op)"
  by (auto simp: tame_def wp_def ep0_syscall_def consumes_def split: option.split sum.split dest!: next_io_SomeD)

lemma tame_wait [tame_intros]: "tame hinv (wait_event l)"
  unfolding wait_event_def
  by (rule tame_andthen [OF tame_ep0])
    (auto simp: tame_def wp_def readiness_def consumes_def split: option.split dest!: until_ready_SomeD)

lemma tame_ops [tame_intros]: "tame hinv (ep0_read n)" "tame hinv (ep0_write xs)"
  unfolding ep0_read_def ep0_write_def by (intro tame_intros)+

lemma tame_halting [tame_intros]: "tame hinv m \<Longrightarrow> tame hinv (halting m)"
  unfolding halting_def by (intro tame_intros)

lemma tame_drops [tame_intros]: "tame hinv drop_sender" "tame hinv drop_receiver"
  unfolding drop_sender_def drop_receiver_def sender_do_halt_def receiver_do_halt_def by (intro tame_intros)+

lemma tame_await [tame_intros]: "tame hinv m \<Longrightarrow> tame hinv (ep0_await m)"
  unfolding ep0_await_def by (intro tame_intros)

lemma tame_send_async [tame_intros]: "tame hinv (send_async xs)"
  unfolding send_async_def by (intro tame_intros)

lemma tame_recv_with [tame_intros]: "tame hinv m \<Longrightarrow> tame hinv (recv_with m)"
  unfolding recv_with_def by (intro tame_intros)

lemma tame_recv_all [tame_intros]: "tame hinv (recv_all_async ctrl)"
  unfolding recv_all_async_def recv_async_def by (intro tame_intros)

lemma tame_from_ffs [tame_intros]: "tame hinv (from_ffs raw)"
  unfolding from_ffs_def Let_def by (intro tame_intros)

lemma tame_clear [tame_intros]: "tame hinv clear_prev_event"
  unfolding clear_prev_event_def
  by (intro tame_intros) (simp split: option.split Direction.split add: tame_intros)

lemma tame_event_async [tame_intros]: "tame hinv (event_async l)"
  unfolding event_async_def read_event_def by (intro tame_intros)

subsection \<open>A gadget that stays\<close>

lemma mild_basic [mild_intros]: "mild (ret x)" "mild (query g)" "mild stuck" "mild ep0"
  by (simp_all add: mild_def ep0_def stays_def)

lemma mild_raise [mild_intros]: "\<not> is_torn_down_transport_error e \<Longrightarrow> mild (raise e)"
  by (simp add: mild_def)

lemma mild_andthen [mild_intros]:
  assumes "mild m" "\<And>x. mild (f x)"
  shows "mild (andthen m f)"
  unfolding mild_def
proof (intro allI impI, rule wp_bind)
  fix c :: "'a Custom"
  assume "stays c"
  then show "wp m (\<lambda>c' r. stays c' \<and> (\<forall>e. r = Err e \<longrightarrow> \<not> is_torn_down_transport_error e)) c"
    using assms(1) by (simp add: mild_def)
qed (use assms(2) in \<open>auto simp: mild_def\<close>)

lemma mild_halting [mild_intros]: "mild m \<Longrightarrow> mild (halting m)"
  unfolding mild_def halting_def wp_andthen wp_attempt by (auto elim!: wp_mono split: outcome.split)

lemma mild_if [mild_intros]: "mild a \<Longrightarrow> mild b \<Longrightarrow> mild (if P then a else b)"
  by simp

lemma mild_case_sum [mild_intros]:
  "(\<And>e. mild (f e)) \<Longrightarrow> (\<And>x. mild (g x)) \<Longrightarrow> mild (case v of Inl e \<Rightarrow> f e | Inr x \<Rightarrow> g x)"
  by (cases v) simp_all

lemma mild_set_setup [mild_intros]: "mild (set_setup d)"
  by (simp add: mild_def set_setup_def stays_def)

lemma stays_step: "stays c \<Longrightarrow> ep0_script c = pre @ es \<Longrightarrow>
    lasting es \<and> Gone \<notin> set pre \<and> (\<forall>e. Fault e \<in> set pre \<longrightarrow> \<not> is_torn_down_transport_error e)"
  by (auto simp: stays_def lasting_def list_all_iff split: ep0_io.splits)

lemma mild_syscall [mild_intros]: "mild (ep0_syscall op)"
  unfolding mild_def
proof (intro allI impI wpI)
  fix c c' :: "'a Custom" and r
  assume st: "stays c" and run: "ep0_syscall op c = Some (c', r)"
  then obtain gone x es where n: "next_io (ep0_script c) = Some (gone, x, es)"
    "c' = c\<lparr>ep0_open := (ep0_open c \<and> \<not> gone), ep0_script := es, ep0_log := ep0_log c @ [op]\<rparr>"
    "r = (case x of Inl e \<Rightarrow> Err e | Inr bs \<Rightarrow> Ok bs)"
    by (auto simp: ep0_syscall_def split: option.splits)
  obtain pre where "ep0_script c = pre @ es" "gone \<longleftrightarrow> Gone \<in> set pre" "\<forall>e. x = Inl e \<longrightarrow> Fault e \<in> set pre"
    using next_io_SomeD [OF n(1)] by blast
  with stays_step [OF st this(1)] st n(2,3)
  show "stays c' \<and> (\<forall>e. r = Err e \<longrightarrow> \<not> is_torn_down_transport_error e)"
    by (auto simp: stays_def split: sum.splits)
qed

lemma mild_wait [mild_intros]: "mild (wait_event l)"
  unfolding wait_event_def
proof (rule mild_andthen [OF mild_basic(4)])
  have "stays (c\<lparr>ep0_open := (ep0_open c \<and> \<not> gone), ep0_script := es, hnd := h\<rparr>)"
    if "until_ready l (ep0_script c) = Some (gone, late, es)" "stays c" for gone late es h and c :: "'a Custom"
    using until_ready_SomeD [OF that(1)] stays_step [OF that(2)] that(2) by (auto simp: stays_def)
  then show "mild (readiness l :: ('a Custom, unit) prog)"
    by (auto simp: mild_def readiness_def wp_def is_torn_down_transport_error_def split: option.split)
qed

lemma mild_event_async: "mild (event_async l)"
proof -
  have ev: "mild (from_ffs raw)" "mild (of_result (parse_event buf))" for raw :: "bytes \<times> byte" and buf
    unfolding from_ffs_def Let_def
     apply (intro mild_intros; simp add: is_torn_down_transport_error_def)
    apply (simp add: parse_event_def mild_intros is_torn_down_transport_error_def)
    done
  show ?thesis
    unfolding event_async_def read_event_def clear_prev_event_def ep0_read_def ep0_write_def
    by (intro mild_intros ev)
      (auto simp: is_torn_down_transport_error_def split: option.split Direction.split intro!: mild_intros)
qed

subsection \<open>The loop\<close>

context ep0_handler
begin

lemma turn_tame: "tame hinv (serve_turn H)"
  unfolding serve_turn_def by (intro tame_intros handle_tame closed_tame idle_tame)

lemma loop_tame: "tame hinv (serve_loop n H)"
  by (induction n) (auto intro!: tame_intros turn_tame)

lemma serve_tame: "tame hinv (ffs_serve n H)"
  unfolding ffs_serve_def by (intro tame_intros loop_tame)

end

lemma next_io_ending: "\<exists>gone r es'. next_io (es @ [Gone, Fault e]) = Some (gone, r, es') \<and>
    (gone \<or> (\<exists>es2. es' = es2 @ [Gone, Fault e])) \<and> length es' < length es + 2"
proof (induction es)
  case (Cons x es)
  then obtain gone r es' where "next_io (es @ [Gone, Fault e]) = Some (gone, r, es')"
    "gone \<or> (\<exists>es2. es' = es2 @ [Gone, Fault e])" "length es' < length es + 2"
    by blast
  then show ?case
    by (cases x) (auto intro: exI [of _ True])
qed (simp add: exI [of _ True])

lemma tameD: "tame hinv m \<Longrightarrow> hinv (hnd c) \<Longrightarrow> (\<And>h. hinv h \<Longrightarrow> hinv (others c h)) \<Longrightarrow>
    wp m (\<lambda>c' r. hinv (hnd c') \<and> consumes c c' \<and> r \<noteq> Panic) c"
  by (simp add: tame_def)

lemma wp_attempt_Ok: "wp (attempt m) (\<lambda>c' r. r = Panic \<or> (\<exists>v. r = Ok v)) c"
  by (auto simp: attempt_def wp_def split: option.split outcome.split)

lemma turn_mild: "stays c \<Longrightarrow> wp (serve_turn H) (\<lambda>c' r. r = Ok True \<or> r = Panic) c"
  unfolding serve_turn_def wp_steps
proof (rule wp_bind)
  assume "stays c"
  then have "wp (event_async (idle_timeout H (hnd c) \<noteq> None)) (\<lambda>c' r. \<forall>e. r = Err e \<longrightarrow> \<not> is_torn_down_transport_error e) c"
    using mild_event_async [unfolded mild_def] by (blast intro: wp_mono)
  then show "wp (attempt (event_async (idle_timeout H (hnd c) \<noteq> None)))
      (\<lambda>c' r. r = Panic \<or> (\<exists>v. r = Ok v \<and> (\<forall>e. v = Inl e \<longrightarrow> \<not> is_torn_down_transport_error e))) c"
    by (auto simp: wp_attempt elim!: wp_mono split: outcome.split)
next
  fix c' and step :: "io_error + Event"
  assume a: "Ok step = Panic \<or> (\<exists>v. Ok step = Ok v \<and> (\<forall>e. v = Inl e \<longrightarrow> \<not> is_torn_down_transport_error e))"
  show "wp (case step of Inr event \<Rightarrow> andthen (attempt (handle_event H event)) (\<lambda>_. ret True)
      | Inl err \<Rightarrow>
          if is_torn_down_transport_error err
          then andthen (attempt (on_transport_closed H)) (\<lambda>_. ret False)
          else if is_setup_superseded_error err then ret True
          else if kind err = TimedOut then andthen (attempt (on_idle_timeout H)) (\<lambda>_. ret True)
          else ret True) (\<lambda>c' r. r = Ok True \<or> r = Panic) c'"
    using a by (auto split: sum.split intro!: wp_bind [OF wp_attempt_Ok])
qed auto

context ep0_handler
begin

lemma loop_survives:
  assumes "hinv (hnd c)" "\<And>h. hinv h \<Longrightarrow> hinv (others c h)" "stays c"
  shows "serve_loop n H c = None"
  using assms
proof (induction n arbitrary: c)
  case (Suc n)
  have t: "wp (serve_turn H) (\<lambda>c' r. (hinv (hnd c') \<and> consumes c c' \<and> r \<noteq> Panic) \<and> (r = Ok True \<or> r = Panic)) c"
    by (rule wp_conj [OF tameD [OF turn_tame] turn_mild]) (use Suc.prems in auto)
  show ?case
  proof (cases "serve_turn H c")
    case (Some x)
    obtain c' r where x: "x = (c', r)" by fastforce
    have k: "r = Ok True" "hinv (hnd c')" "consumes c c'"
      using wpD [OF t, of c' r] Some x by auto
    have "others c' = others c"
      using k(3) by (simp add: consumes_def)
    then have "serve_loop n H c' = None"
      using Suc.IH [of c'] k Suc.prems consumes_stays [OF k(3)] by simp
    then show ?thesis
      using Some x k(1) by (simp add: andthen_def)
  qed (simp add: andthen_def)
qed (simp add: stuck_def)

end

subsection \<open>Ending\<close>

named_theorems brief_intros \<open>programs that return once the gadget is removed\<close>

lemma brief_basic [brief_intros]: "brief (ret x)" "brief (raise e)" "brief (query g)" "brief ep0"
  by (simp_all add: brief_def ep0_def)

lemma brief_set_setup [brief_intros]: "brief (set_setup d)"
  by (simp add: brief_def set_setup_def ending_def)

lemma brief_run_others [brief_intros]: "brief run_others"
  by (simp add: brief_def run_others_def ending_def)

lemma brief_andthen [brief_intros]:
  assumes "brief m" "\<And>x. brief (f x)"
  shows "brief (andthen m f)"
  unfolding brief_def
proof (intro allI impI, rule returns_bind)
  fix c :: "'a Custom"
  assume "ending c"
  then show "returns m (\<lambda>c' r. ending c') c"
    using assms(1) by (simp add: brief_def)
qed (use assms(2) in \<open>auto simp: brief_def\<close>)

lemma brief_attempt [brief_intros]: "brief m \<Longrightarrow> brief (attempt m)"
  unfolding brief_def returns_attempt by (auto elim!: returns_mono split: outcome.split)

lemma brief_of_result [brief_intros]: "brief (of_result r)"
  by (cases r) (simp_all add: brief_intros)

lemma brief_if [brief_intros]: "brief a \<Longrightarrow> brief b \<Longrightarrow> brief (if P then a else b)"
  by simp

lemma brief_case_sum [brief_intros]:
  "(\<And>e. brief (f e)) \<Longrightarrow> (\<And>x. brief (g x)) \<Longrightarrow> brief (case v of Inl e \<Rightarrow> f e | Inr x \<Rightarrow> g x)"
  by (cases v) simp_all

lemma brief_case_event [brief_intros]:
  "brief a \<Longrightarrow> brief b \<Longrightarrow> brief d \<Longrightarrow> (\<And>x. brief (f x)) \<Longrightarrow> (\<And>x. brief (g x)) \<Longrightarrow>
   brief o1 \<Longrightarrow> brief o2 \<Longrightarrow> brief o3 \<Longrightarrow> (\<And>x. brief (k x)) \<Longrightarrow>
   brief (case e of Bind \<Rightarrow> o1 | Unbind \<Rightarrow> a | Enable \<Rightarrow> b | Disable \<Rightarrow> d | Suspend \<Rightarrow> o2 | Resume \<Rightarrow> o3
     | SetupHostToDevice x \<Rightarrow> f x | SetupDeviceToHost x \<Rightarrow> g x | UnknownEvent x \<Rightarrow> k x)"
  by (cases e) simp_all

lemma run_ep0 [simp]:
  "returns (andthen ep0 f) Q c = (if ep0_open c then returns (f ()) Q c
     else Q c (Err (Custom BrokenPipe (Text ''USB gadget was removed''))))"
  "wp (andthen ep0 f) Q c = (if ep0_open c then wp (f ()) Q c
     else Q c (Err (Custom BrokenPipe (Text ''USB gadget was removed''))))"
  by (simp_all add: ep0_def returns_andthen wp_andthen)

lemma brief_checked [brief_intros]: "brisk m \<Longrightarrow> brief (andthen ep0 (\<lambda>_. m))"
  by (auto simp: brief_def brisk_def ending_def before_end_def)

lemma brisk_syscall [brief_intros]: "brisk (ep0_syscall op)"
  unfolding brisk_def
proof (intro allI impI)
  fix c :: "'a Custom"
  assume "before_end c"
  then obtain es where es: "ep0_script c = es @ [Gone, Fault (Os ENODEV)]" "ep0_open c"
    by (auto simp: before_end_def)
  then obtain gone r es' where "next_io (ep0_script c) = Some (gone, r, es')"
    "gone \<or> (\<exists>es2. es' = es2 @ [Gone, Fault (Os ENODEV)])"
    using next_io_ending [of es "Os ENODEV"] by auto
  then show "returns (ep0_syscall op) (\<lambda>c' r. ending c') c"
    by (auto simp: returns_def ep0_syscall_def ending_def)
qed

lemma brisk_andthen [brief_intros]:
  assumes "brisk m" "\<And>x. brief (f x)"
  shows "brisk (andthen m f)"
  unfolding brisk_def
proof (intro allI impI, rule returns_bind)
  fix c :: "'a Custom"
  assume "before_end c"
  then show "returns m (\<lambda>c' r. ending c') c"
    using assms(1) by (simp add: brisk_def)
qed (use assms(2) in \<open>auto simp: brief_def\<close>)

lemma brisk_attempt [brief_intros]: "brisk m \<Longrightarrow> brisk (attempt m)"
  unfolding brisk_def returns_attempt by (auto elim!: returns_mono split: outcome.split)

lemma brisk_setup [brief_intros]: "brisk m \<Longrightarrow> brisk (andthen (set_setup d) (\<lambda>_. m))"
  by (simp add: brisk_def set_setup_def before_end_def)

lemma brisk_query [brief_intros]: "(\<And>x. brisk (f x)) \<Longrightarrow> brisk (andthen (query g) f)"
  by (simp add: brisk_def)

lemma brisk_brief: "brief m \<Longrightarrow> brisk m"
  by (auto simp: brisk_def brief_def before_end_def ending_def)

lemma brisk_ops [brief_intros]: "brisk (ep0_read n)" "brisk (ep0_write xs)"
  unfolding ep0_read_def ep0_write_def by (intro brief_intros)+

lemma brisk_halting [brief_intros]: "brisk m \<Longrightarrow> brisk (halting m)"
  unfolding halting_def by (intro brief_intros)

lemma brisk_await [brief_intros]: "brisk m \<Longrightarrow> brisk (ep0_await m)"
  unfolding ep0_await_def by (intro brief_intros)

lemma brief_drops [brief_intros]: "brief drop_sender" "brief drop_receiver"
  unfolding drop_sender_def drop_receiver_def sender_do_halt_def receiver_do_halt_def by (intro brief_intros)+

lemma brief_send_async [brief_intros]: "brief (send_async xs)"
  unfolding send_async_def by (intro brief_intros)

lemma brief_recv_with [brief_intros]: "brisk m \<Longrightarrow> brief (recv_with m)"
  unfolding recv_with_def by (intro brief_intros)

lemma brief_recv_all [brief_intros]: "brief (recv_all_async ctrl)"
  unfolding recv_all_async_def recv_async_def by (intro brief_intros)

lemma until_ready_ending: "\<exists>gone late es'. until_ready l (es @ [Gone, Fault e]) = Some (gone, late, es') \<and>
    (gone \<or> (\<exists>es2. es' = es2 @ [Gone, Fault e]))"
proof (induction es)
  case (Cons x es)
  then obtain gone late es' where "until_ready l (es @ [Gone, Fault e]) = Some (gone, late, es')"
    "gone \<or> (\<exists>es2. es' = es2 @ [Gone, Fault e])"
    by blast
  then show ?case
    by (cases x) (auto intro: exI [of _ True] exI [of _ "x # es"])
qed auto

lemma brief_wait [brief_intros]: "brief (wait_event l)"
  unfolding wait_event_def
proof (rule brief_checked)
  show "brisk (readiness l :: ('a Custom, unit) prog)"
    unfolding brisk_def
  proof (intro allI impI)
    fix c :: "'a Custom"
    assume "before_end c"
    then obtain es where "ep0_script c = es @ [Gone, Fault (Os ENODEV)]"
      by (auto simp: before_end_def)
    then obtain gone late es' where "until_ready l (ep0_script c) = Some (gone, late, es')"
      "gone \<or> (\<exists>es2. es' = es2 @ [Gone, Fault (Os ENODEV)])"
      using until_ready_ending [of l es "Os ENODEV"] by auto
    then show "returns (readiness l) (\<lambda>c' r. ending c') c"
      by (auto simp: returns_def ending_def readiness_def)
  qed
qed

lemma brief_event_async [brief_intros]: "brief (event_async l)"
  unfolding event_async_def read_event_def clear_prev_event_def from_ffs_def Let_def
  by (intro brief_intros brisk_query) (auto split: option.split Direction.split intro!: brief_intros brisk_brief [OF brief_basic(1)])

lemma tame_shrinks: "tame (\<lambda>_. True) m \<Longrightarrow> wp m (\<lambda>c' r. length (ep0_script c') \<le> length (ep0_script c)) c"
  unfolding tame_def by (rule wp_mono [of m "\<lambda>c' r. True \<and> consumes c c' \<and> r \<noteq> Panic"]) (auto simp: consumes_def)

lemma advances_syscall: "advances (ep0_syscall op)"
proof -
  have "length es' < length es" if "next_io es = Some (gone, r, es')" for es gone r es'
    using that by (induction es arbitrary: gone rule: next_io.induct) fastforce+
  then show ?thesis
    by (auto simp: advances_def wp_def ep0_syscall_def split: option.split)
qed

lemma advances_first:
  assumes "advances m" "\<And>x. tame (\<lambda>_. True) (f x)"
  shows "advances (andthen m f)"
  unfolding advances_def
proof (intro allI, rule wp_bind)
  fix c :: "'a Custom"
  show "wp m (\<lambda>c' r. length (ep0_script c') < length (ep0_script c) \<or>
    (\<exists>e. r = Err e \<and> is_torn_down_transport_error e)) c"
    using assms(1) by (simp add: advances_def)
next
  fix c c' :: "'a Custom" and x :: 'b
  assume "length (ep0_script c') < length (ep0_script c) \<or> (\<exists>e. Ok x = Err e \<and> is_torn_down_transport_error e)"
  then show "wp (f x) (\<lambda>c' r. length (ep0_script c') < length (ep0_script c) \<or>
      (\<exists>e. r = Err e \<and> is_torn_down_transport_error e)) c'"
    using tame_shrinks [OF assms(2), of x c'] by (auto elim: wp_mono)
qed auto

lemma advances_then:
  assumes "falters m" "\<And>x. advances (f x)"
  shows "advances (andthen m f)"
  unfolding advances_def
proof (intro allI, rule wp_bind)
  fix c :: "'a Custom"
  show "wp m (\<lambda>c' r. length (ep0_script c') \<le> length (ep0_script c) \<and>
    (\<forall>e. r = Err e \<longrightarrow> length (ep0_script c') < length (ep0_script c) \<or> is_torn_down_transport_error e) \<and> r \<noteq> Panic) c"
    using assms(1) by (simp add: falters_def)
next
  fix c c' :: "'a Custom" and x :: 'b
  assume "length (ep0_script c') \<le> length (ep0_script c) \<and> (\<forall>e. Ok x = Err e \<longrightarrow>
    length (ep0_script c') < length (ep0_script c) \<or> is_torn_down_transport_error e) \<and> Ok x \<noteq> Panic"
  then show "wp (f x) (\<lambda>c' r. length (ep0_script c') < length (ep0_script c) \<or>
      (\<exists>e. r = Err e \<and> is_torn_down_transport_error e)) c'"
    by (intro wp_mono [OF assms(2) [of x, unfolded advances_def, rule_format, of c']]) auto
qed auto

lemma falters_ep0: "(\<And>x. falters (f x)) \<Longrightarrow> falters (andthen ep0 f)"
  by (auto simp: falters_def is_torn_down_transport_error_def)

lemma falters_halting:
  assumes "advances m" "tame (\<lambda>_. True) m"
  shows "falters (halting m)"
  unfolding falters_def halting_def
proof (intro allI, rule wp_bind)
  fix c :: "'a Custom"
  have t: "wp m (\<lambda>c' r. consumes c c' \<and> r \<noteq> Panic) c"
    using assms(2) by (simp add: tame_def)
  have "wp m (\<lambda>c' r. (length (ep0_script c') < length (ep0_script c) \<or>
      (\<exists>e. r = Err e \<and> is_torn_down_transport_error e)) \<and> consumes c c' \<and> r \<noteq> Panic) c"
    by (rule wp_conj [OF _ t]) (use assms(1) in \<open>simp add: advances_def\<close>)
  then show "wp (attempt m) (\<lambda>c' r. length (ep0_script c') \<le> length (ep0_script c) \<and>
      (\<exists>v. r = Ok v \<and> (\<forall>e. v = Inl e \<longrightarrow> length (ep0_script c') < length (ep0_script c) \<or>
        is_torn_down_transport_error e))) c"
    unfolding wp_attempt by (rule wp_mono) (auto simp: consumes_def split: outcome.split)
next
  fix c c' :: "'a Custom" and x :: "io_error + 'b"
  assume "length (ep0_script c') \<le> length (ep0_script c) \<and>
      (\<exists>v. Ok x = Ok v \<and> (\<forall>e. v = Inl e \<longrightarrow> length (ep0_script c') < length (ep0_script c) \<or>
        is_torn_down_transport_error e))"
  then show "wp (case x of Inl e \<Rightarrow> if raw_os_error e = Some EL2HLT then ret () else raise e | Inr _ \<Rightarrow> ret ())
    (\<lambda>c' r. length (ep0_script c') \<le> length (ep0_script c) \<and>
    (\<forall>e. r = Err e \<longrightarrow> length (ep0_script c') < length (ep0_script c) \<or> is_torn_down_transport_error e) \<and> r \<noteq> Panic) c'"
    by (auto split: sum.split)
qed auto

lemma advances_ops: "advances (ep0_read n)" "advances (ep0_write xs)"
  unfolding ep0_read_def ep0_write_def by (intro advances_first advances_syscall tame_intros)+

lemma falters_basic: "falters (ret x)" "falters ep0" "(\<And>x. falters (f x)) \<Longrightarrow> falters (andthen (query g) f)"
  by (simp_all add: falters_def ep0_def is_torn_down_transport_error_def)

lemma falters_setup:
  assumes "falters k"
  shows "falters (andthen (set_setup d) (\<lambda>_. k))"
  unfolding falters_def set_setup_def wp_steps
  using assms [unfolded falters_def, rule_format, of "_\<lparr>setup_event := d\<rparr>"] by simp

lemma falters_clear: "falters clear_prev_event"
  unfolding clear_prev_event_def
  by (intro falters_ep0 falters_basic(3) falters_setup)
    (auto split: option.split Direction.split intro!: falters_basic falters_halting advances_ops tame_intros)

lemma falters_wait: "falters (wait_event l)"
  unfolding wait_event_def
proof (rule falters_ep0)
  have "length es' \<le> length es \<and> (late \<longrightarrow> length es' < length es)"
    if "until_ready l es = Some (gone, late, es')" for es es' gone late
    using that by (induction l es rule: until_ready.induct) (auto split: if_splits)
  then show "falters (readiness l :: ('a Custom, unit) prog)" for x
    by (auto simp: falters_def readiness_def wp_def split: option.split)
qed

lemma advances_event_async: "advances (event_async l)"
proof -
  have "tame (\<lambda>_. True) (if length buf \<noteq> 12 then raise (Custom InvalidData (Text ''invalid event size''))
      else andthen (of_result (parse_event buf)) from_ffs :: ('a Custom, Event) prog)" for buf
    by (intro tame_intros)
  from advances_first [OF advances_ops(1) this] have "advances (read_event :: ('a Custom, Event) prog)"
    unfolding read_event_def by (rule advances_then [OF falters_basic(2)])
  then show ?thesis
    unfolding event_async_def by (intro advances_then [OF falters_clear] advances_then [OF falters_wait])
qed

lemma wp_attempt_tame:
  assumes "tame hinv m" "hinv (hnd c1)" "\<And>h. hinv h \<Longrightarrow> hinv (others c1 h)" "length (ep0_script c1) < k"
  shows "wp (andthen (attempt m) (\<lambda>_. ret True)) (\<lambda>c' r. r = Ok True \<and> length (ep0_script c') < k) c1"
proof -
  have "wp m (\<lambda>c' r. hinv (hnd c') \<and> consumes c1 c' \<and> r \<noteq> Panic) c1"
    using tameD [OF assms(1-3)] .
  then show ?thesis
    unfolding wp_andthen wp_attempt
    by (rule wp_mono) (use assms(4) in \<open>auto simp: consumes_def split: outcome.split\<close>)
qed

context ep0_handler
begin

lemma turn_advances:
  assumes "hinv (hnd c)" "\<And>h. hinv h \<Longrightarrow> hinv (others c h)"
  shows "wp (serve_turn H) (\<lambda>c' r. r = Ok False \<or> r = Ok True \<and> length (ep0_script c') < length (ep0_script c)) c"
  unfolding serve_turn_def wp_steps
proof (rule wp_bind)
  have "wp (event_async l) (\<lambda>c' r. (hinv (hnd c') \<and> consumes c c' \<and> r \<noteq> Panic) \<and>
      (length (ep0_script c') < length (ep0_script c) \<or> (\<exists>e. r = Err e \<and> is_torn_down_transport_error e))) c" for l
    by (rule wp_conj [OF tameD [OF tame_event_async] advances_event_async [unfolded advances_def, rule_format]])
      (use assms in auto)
  then show "wp (attempt (event_async (idle_timeout H (hnd c) \<noteq> None))) (\<lambda>c' r. \<exists>v. r = Ok v \<and> hinv (hnd c') \<and>
      others c' = others c \<and> (length (ep0_script c') < length (ep0_script c) \<or>
      (\<exists>e. v = Inl e \<and> is_torn_down_transport_error e))) c"
    unfolding wp_attempt by (rule wp_mono) (auto simp: consumes_def split: outcome.split)
next
  fix c1 :: "'h Custom" and step :: "io_error + Event"
  assume "\<exists>v. Ok step = Ok v \<and> hinv (hnd c1) \<and> others c1 = others c \<and>
    (length (ep0_script c1) < length (ep0_script c) \<or> (\<exists>e. v = Inl e \<and> is_torn_down_transport_error e))"
  then have s: "hinv (hnd c1)" "\<And>h. hinv h \<Longrightarrow> hinv (others c1 h)"
    "length (ep0_script c1) < length (ep0_script c) \<or> (\<exists>e. step = Inl e \<and> is_torn_down_transport_error e)"
    using assms(2) by auto
  have closed: "wp (andthen (attempt (on_transport_closed H)) (\<lambda>_. ret False)) (\<lambda>c' r. r = Ok False) c1"
    using tameD [OF closed_tame s(1,2)] unfolding wp_andthen wp_attempt
    by (rule wp_mono) (auto split: outcome.split)
  show "wp (case step of Inr event \<Rightarrow> andthen (attempt (handle_event H event)) (\<lambda>_. ret True)
      | Inl err \<Rightarrow>
          if is_torn_down_transport_error err
          then andthen (attempt (on_transport_closed H)) (\<lambda>_. ret False)
          else if is_setup_superseded_error err then ret True
          else if kind err = TimedOut then andthen (attempt (on_idle_timeout H)) (\<lambda>_. ret True)
          else ret True) (\<lambda>c' r. r = Ok False \<or> r = Ok True \<and> length (ep0_script c') < length (ep0_script c)) c1"
  proof (cases step)
    case (Inl e)
    then show ?thesis
      using s(3) closed wp_attempt_tame [OF idle_tame s(1,2), where k = "length (ep0_script c)"] by (auto elim!: wp_mono)
  next
    case (Inr event)
    then show ?thesis
      using wp_mono [OF wp_attempt_tame [OF handle_tame [of event] s(1,2), where k = "length (ep0_script c)"]] s(3) by auto
  qed
qed auto

lemma loop_ends:
  assumes "ending c" "\<And>e. brief (handle_event H e)" "brief (on_transport_closed H)" "brief (on_idle_timeout H)"
    "hinv (hnd c)" "\<And>h. hinv h \<Longrightarrow> hinv (others c h)" "length (ep0_script c) < n"
  shows "returns (serve_loop n H) (\<lambda>c' r. r = Ok ()) c"
  using assms(1,5-)
proof (induction n arbitrary: c)
  case (Suc n)
  have "brief (serve_turn H)"
    unfolding serve_turn_def by (intro brief_intros assms(2-4))
  then have b: "returns (serve_turn H) (\<lambda>c' r. ending c') c"
    using Suc.prems(1) by (simp add: brief_def)
  have w: "wp (serve_turn H) (\<lambda>c' r. (hinv (hnd c') \<and> consumes c c' \<and> r \<noteq> Panic) \<and>
      (r = Ok False \<or> r = Ok True \<and> length (ep0_script c') < length (ep0_script c))) c"
    by (rule wp_conj [OF tameD [OF turn_tame] turn_advances]) (use Suc.prems in auto)
  show ?case
    unfolding serve_loop.simps
  proof (rule returns_bind [OF returns_conj [OF b w]], goal_cases)
    case (1 c' on)
    then have k: "ending c'" "hinv (hnd c')" "others c' = others c" "on \<Longrightarrow> length (ep0_script c') < n"
      using Suc.prems(4) by (auto simp: consumes_def)
    show ?case
    proof (cases on)
      case True
      then show ?thesis
        using Suc.IH [OF k(1,2) _ k(4)] Suc.prems(3) k(3) by simp
    qed simp
  qed auto
qed simp

end

end
