(* ===== verification/Dfu_Transfer.thy ===== *)
theory Dfu_Transfer
  imports Dfu_Handler Healthy_Sink
begin

text \<open>
  A whole DFU download, from the host's first block to manifestation.

  \<open>downloading w d img\<close> is the abstraction of the handler during a download in which nothing fails:
  \<open>img\<close> is the image received so far, which the handler keeps as the bytes given to the sink, a held
  block, and a tail of at most one suffix, with a running checksum.  Every request of a compliant host
  (\<open>host_run\<close>) refines an operation on the image, whatever steps of the other tasks come in between.
  \<open>strip_image\<close> is the specification of the suffix rule on whole images.
\<close>

unbundle bit_operations_syntax

subsection \<open>Abstraction\<close>

definition pending_bytes :: "Dfu \<Rightarrow> bytes" where
  "pending_bytes d = (case pending d of None \<Rightarrow> [] | Some c \<Rightarrow> data c)"

definition held_image :: "world \<Rightarrow> Dfu \<Rightarrow> bytes \<Rightarrow> bool" where
  "held_image w d fl \<longleftrightarrow>
    (case sink d of None \<Rightarrow> False
     | Some s \<Rightarrow> healthy_sink w s \<and>
        (case sink_stream w s of None \<Rightarrow> False | Some y \<Rightarrow> y @ pending_bytes d = fl))"

text \<open>
  The download phase with the image received so far: what was flushed to the sink or is held, then the
  carried tail, with the running checksum over the former.
\<close>

definition downloading :: "world \<Rightarrow> Dfu \<Rightarrow> bytes \<Rightarrow> bool" where
  "downloading w d img \<longleftrightarrow>
    state d \<in> {DfuIdle, DnloadSync, DnBusy, DnloadIdle} \<and>
    (\<exists>fl. held_image w d fl \<and> img = fl @ download_tail d \<and>
      download_crc d = hasher_update hasher_new fl \<and> length (download_tail d) \<le> DFU_SUFFIX_LEN \<and>
      (fl \<noteq> [] \<longrightarrow> length (download_tail d) = DFU_SUFFIX_LEN))"

definition same_phase :: "Dfu \<Rightarrow> Dfu \<Rightarrow> bool" where
  "same_phase d d' \<longleftrightarrow> state d' = state d \<and> download_tail d' = download_tail d \<and> download_crc d' = download_crc d"

definition dfu_suffix_ok :: "bytes \<Rightarrow> bool" where
  "dfu_suffix_ok img \<longleftrightarrow> DFU_SUFFIX_LEN \<le> length img \<and>
    (let sfx = drop (length img - DFU_SUFFIX_LEN) img in
      take 3 (drop 8 sfx) = ascii ''UFD'' \<and> unat (sfx ! 11) = DFU_SUFFIX_LEN \<and>
      unat (NOT (crc32 (take (length img - 4) img))) = of_le (drop (length img - 4) img))"

definition strip_image :: "bytes \<Rightarrow> bytes" where
  "strip_image img = (if dfu_suffix_ok img then take (length img - DFU_SUFFIX_LEN) img else img)"

definition manifesting :: "world \<Rightarrow> Dfu \<Rightarrow> bytes \<Rightarrow> bool" where
  "manifesting w d target \<longleftrightarrow> state d = Manifest \<and>
    (case sink d of None \<Rightarrow> False
     | Some s \<Rightarrow> \<exists>i<length (backends w). stream_of (backends w ! i) @ pending_bytes d = target \<and>
        (if pending d = None then tx s = None \<and> \<not> sender (backends w ! i) else tx s = Some i))"

datatype host_event =
    HostBlock nat "env_action list" bytes
  | HostGetStatus
  | HostGetState
  | HostEnv env_action

datatype host_result = Violation | Rejected | Running bool world Dfu

definition dfu_request :: "byte \<Rightarrow> CtrlReq" where
  "dfu_request r = \<lparr>request_type = 0x21, request = r, req_value = 0, req_index = 0, req_length = 0\<rparr>"

definition reply_state :: "InReply \<Rightarrow> State option" where
  "reply_state rep = map_option (\<lambda>(_, _, st, _). st) (parse_status (as_slice rep))"

text \<open>
  A host that downloads: it sends a block only when the device last reported \<open>dfuDNLOAD-IDLE\<close> (or
  nothing was sent yet), and stops at the first request the device fails.
\<close>

fun host_run :: "bool \<Rightarrow> host_event list \<Rightarrow> world \<Rightarrow> Dfu \<Rightarrow> host_result" where
  "host_run rdy [] w d = Running rdy w d"
| "host_run rdy (HostBlock n as xs # es) w d =
    (if \<not> rdy then Violation
     else case receive_dnload_block n as (Inr xs) w d of
       (w, d, Ok _) \<Rightarrow> host_run False es w d
     | _ \<Rightarrow> Rejected)"
| "host_run rdy (HostGetStatus # es) w d =
    (case handle_in (dfu_request GETSTATUS) w d of
       (w, d, Ok rep) \<Rightarrow> host_run (rdy \<or> reply_state rep = Some DnloadIdle) es w d
     | _ \<Rightarrow> Rejected)"
| "host_run rdy (HostGetState # es) w d =
    (case handle_in (dfu_request GETSTATE) w d of
       (w, d, Ok rep) \<Rightarrow> host_run rdy es w d
     | _ \<Rightarrow> Rejected)"
| "host_run rdy (HostEnv a # es) w d = host_run rdy es (env_step a w) d"

fun healthy_event :: "host_event \<Rightarrow> bool" where
  "healthy_event (HostBlock _ as _) = list_all healthy_action as"
| "healthy_event (HostEnv a) = healthy_action a"
| "healthy_event _ = True"

fun sent_bytes :: "host_event \<Rightarrow> bytes" where
  "sent_bytes (HostBlock n _ xs) = take n xs"
| "sent_bytes _ = []"

definition image_of :: "host_event list \<Rightarrow> bytes" where
  "image_of es = concat (map sent_bytes es)"

definition settled :: "bool \<Rightarrow> Dfu \<Rightarrow> bool" where
  "settled rdy d \<longleftrightarrow> (rdy \<or> state d = DnloadIdle \<longrightarrow> pending d = None)"

definition demo_config :: DfuConfig where
  "demo_config = \<lparr>cfg_download = default_params, cfg_upload = None, cfg_transfer_size = 64, cfg_poll_timeout_ms = 10\<rparr>"

definition demo_events :: "host_event list" where
  "demo_events = [HostBlock 3 [] [1, 2, 3], HostGetStatus, HostEnv RunSuccess, HostBlock 2 [] [4, 5], HostGetStatus]"

definition is_ready :: "host_result \<Rightarrow> bool" where
  "is_ready r = (case r of Running b _ _ \<Rightarrow> b | _ \<Rightarrow> False)"

text \<open>The suffix a host tool appends to \<open>p\<close>: eight bytes of identification, the signature, the length, the checksum.\<close>

definition dfu_suffix :: "bytes \<Rightarrow> bytes \<Rightarrow> bytes" where
  "dfu_suffix ident p =
    (let front = ident @ ascii ''UFD'' @ [16] in front @ le_bytes 4 (unat (NOT (crc32 (p @ front)))))"

text \<open>Everything that can happen to a handler: a step relation over the world and the handler.\<close>

inductive dfu_step :: "world \<times> Dfu \<Rightarrow> world \<times> Dfu \<Rightarrow> bool" where
  Out: "handle_out req w d = (w', d', r) \<Longrightarrow> dfu_step (w, d) (w', d')"
| In: "handle_in req w d = (w', d', r) \<Longrightarrow> dfu_step (w, d) (w', d')"
| Block: "receive_dnload_block n as rcv w d = (w', d', r) \<Longrightarrow> dfu_step (w, d) (w', d')"
| Reset: "reset_on_idle_timeout w d = (w', d') \<Longrightarrow> dfu_step (w, d) (w', d')"
| Env: "dfu_step (w, d) (env_step a w, d)"

text \<open>The state of a handler whose sink has reported a failure and is not yet observed.\<close>

definition failed_sink :: "world \<Rightarrow> Dfu \<Rightarrow> bool" where
  "failed_sink w d \<longleftrightarrow> pending d = None \<and>
    (case sink d of None \<Rightarrow> False
     | Some s \<Rightarrow> terminal s = None \<and>
        (case status s of None \<Rightarrow> False
         | Some i \<Rightarrow> (case status_state (backends w ! i) of Joined r \<Rightarrow> r \<noteq> Ok () | _ \<Rightarrow> False)))"

definition busy_dfu :: Dfu where
  "busy_dfu = (dfu_new demo_config)\<lparr>sink := Some busy_session, state := DnloadIdle\<rparr>"

definition failed_world :: world where
  "failed_world = busy_world\<lparr>backends := [busy_backend\<lparr>status_state := Joined (Err (Os 5))\<rparr>]\<rparr>"

definition same_config :: "Dfu \<Rightarrow> Dfu \<Rightarrow> bool" where
  "same_config d d' \<longleftrightarrow> transfer_size d' = transfer_size d \<and> poll_timeout_ms d' = poll_timeout_ms d \<and>
    download d' = download d \<and> upload d' = upload d"

text \<open>What a host reads with the first \<open>m\<close> DFU_UPLOAD requests.\<close>

definition upload_reply :: "Dfu \<Rightarrow> nat \<Rightarrow> bytes" where
  "upload_reply d k = (case snd (upload_block ((dfu_request UPLOAD)\<lparr>req_value := of_nat k\<rparr>) d) of
     Ok rep \<Rightarrow> as_slice rep | _ \<Rightarrow> [])"

definition upload_read :: "Dfu \<Rightarrow> nat \<Rightarrow> bytes" where
  "upload_read d m = concat (map (upload_reply d) [0..<m])"

definition full_world :: world where
  "full_world = busy_world\<lparr>backends := [busy_backend\<lparr>queue := replicate 4 \<lparr>data = [0], cap = 1\<rparr>\<rparr>]\<rparr>"

definition full_dfu :: Dfu where
  "full_dfu = busy_dfu\<lparr>state := DnloadSync, download_tail := replicate 16 0, pending := Some \<lparr>data = [1], cap = 1\<rparr>\<rparr>"

subsection \<open>Operations on the image\<close>

lemma same_phase_update [simp]:
  "same_phase d (d'\<lparr>pending := p\<rparr>) = same_phase d d'" "same_phase d (d'\<lparr>sink := x\<rparr>) = same_phase d d'"
  "same_phase d d"
  by (simp_all add: same_phase_def)

lemma pending_bytes_update [simp]:
  "pending_bytes (d\<lparr>state := z\<rparr>) = pending_bytes d" "pending_bytes (d\<lparr>dfu_status := t\<rparr>) = pending_bytes d"
  "pending_bytes (d\<lparr>download_tail := b\<rparr>) = pending_bytes d" "pending_bytes (d\<lparr>download_crc := h\<rparr>) = pending_bytes d"
  "pending_bytes (d\<lparr>sink := x\<rparr>) = pending_bytes d"
  "pending_bytes (d\<lparr>pending := p\<rparr>) = (case p of None \<Rightarrow> [] | Some c \<Rightarrow> data c)"
  by (simp_all add: pending_bytes_def)

lemma held_image_update [simp]:
  "held_image w (d\<lparr>state := z\<rparr>) fl = held_image w d fl" "held_image w (d\<lparr>dfu_status := t\<rparr>) fl = held_image w d fl"
  "held_image w (d\<lparr>download_tail := b\<rparr>) fl = held_image w d fl" "held_image w (d\<lparr>download_crc := h\<rparr>) fl = held_image w d fl"
  by (simp_all add: held_image_def split: option.split)

lemma held_imageE:
  assumes "held_image w d fl"
  obtains s y where "sink d = Some s" "healthy_sink w s" "sink_stream w s = Some y" "y @ pending_bytes d = fl"
  using assms by (auto simp: held_image_def split: option.splits)

lemma push_pending_held:
  assumes "held_image w d fl" "state d \<noteq> Manifest" "push_pending w d = (w', d', r)"
  shows "held_image w' d' fl \<and> (\<exists>b. r = Ok b) \<and> same_phase d d' \<and> (pending d = None \<longrightarrow> pending d' = None)"
proof -
  obtain s y where s: "sink d = Some s" "healthy_sink w s" "sink_stream w s = Some y" "y @ pending_bytes d = fl"
    using assms(1) by (rule held_imageE)
  show ?thesis
  proof (cases "pending d")
    case None
    then show ?thesis
      using assms by (auto simp: push_pending_def push_eof_def)
  next
    case (Some c)
    obtain w1 s1 r1 where t: "try_send c w s = (w1, s1, r1)"
      by (cases "try_send c w s")
    note h = healthy_try_send [OF s(2) t s(3)]
    have eof: "push_eof w1 (d\<lparr>pending := None, sink := Some s1\<rparr>) = (w1, d\<lparr>pending := None, sink := Some s1\<rparr>)"
      using assms(2) by (simp add: push_eof_def)
    from h consider (ok) "r1 = Ok (FeedOk (bm_len c))" "sink_stream w1 s1 = Some (y @ data c)"
      | (full) "r1 = Ok (FeedFull c)" "sink_stream w1 s1 = Some y"
      by blast
    then show ?thesis
    proof cases
      case ok
      then have "w' = w1" "d' = d\<lparr>pending := None, sink := Some s1\<rparr>" "r = Ok False"
        using push_pending_unfold(1) [OF Some s(1) t ok(1)] assms(3) eof by simp_all
      then show ?thesis
        using h ok s(4) Some by (auto simp: held_image_def pending_bytes_def)
    next
      case full
      then have "w' = w1" "d' = d\<lparr>sink := Some s1\<rparr>" "r = Ok True"
        using push_pending_unfold(3) [OF Some s(1) t full(1)] assms(3) pending_back [OF Some] by simp_all
      then show ?thesis
        using h full s(4) Some by (auto simp: held_image_def pending_bytes_def)
    qed
  qed
qed

lemma poll_held:
  assumes "held_image w d fl" "state d \<noteq> Manifest" "poll w d = (w', d', r)"
  shows "held_image w' d' fl \<and> r = Ok () \<and> same_phase d d' \<and> (pending d = None \<longrightarrow> pending d' = None)"
proof -
  obtain w1 d1 r1 where p: "push_pending w d = (w1, d1, r1)"
    by (cases "push_pending w d")
  have f: "held_image w1 d1 fl" "\<exists>b. r1 = Ok b" "same_phase d d1" "pending d = None \<longrightarrow> pending d1 = None"
    using push_pending_held [OF assms(1,2) p] by simp_all
  obtain s1 y where y: "sink d1 = Some s1" "healthy_sink w1 s1" "sink_stream w1 s1 = Some y" "y @ pending_bytes d1 = fl"
    using f(1) by (rule held_imageE)
  obtain w2 s2 v where t: "try_finished w1 s1 = (w2, s2, v)"
    by (cases "try_finished w1 s1")
  have st: "state d1 \<noteq> Manifest"
    using f(3) assms(2) by (simp add: same_phase_def)
  show ?thesis
  proof (cases "is_open s1")
    case True
    note h = healthy_poll_status [OF y(2) True t]
    have "poll_verdict w1 d1 = (w2, d1\<lparr>sink := Some s2\<rparr>, v)"
      using y(1) True t by (simp add: poll_verdict_def)
    moreover have "poll_apply (state d1 = Manifest) v w2 (d1\<lparr>sink := Some s2\<rparr>) = (w2, d1\<lparr>sink := Some s2\<rparr>)"
      using h st by (auto simp: poll_apply_def)
    ultimately have "poll w d = (w2, d1\<lparr>sink := Some s2\<rparr>, Ok ())"
      using p f(2) by (auto simp: poll_def)
    then show ?thesis
      using assms(3) h y f(3,4) by (simp add: held_image_def pending_bytes_def)
  next
    case False
    then have "poll_verdict w1 d1 = (w1, d1, None)"
      using y(1) st by (simp add: poll_verdict_def)
    then have "poll w d = (w1, d1, Ok ())"
      using p f(2) by (auto simp: poll_def poll_apply_def)
    then show ?thesis
      using assms(3) f by simp
  qed
qed

lemma poll_downloading:
  assumes "downloading w d img" "poll w d = (w', d', r)"
  shows "downloading w' d' img \<and> r = Ok () \<and> state d' = state d \<and> download_tail d' = download_tail d \<and>
    (pending d = None \<longrightarrow> pending d' = None)"
proof -
  obtain fl where fl: "held_image w d fl" "img = fl @ download_tail d"
      "download_crc d = hasher_update hasher_new fl" "length (download_tail d) \<le> 16"
      "fl \<noteq> [] \<longrightarrow> length (download_tail d) = 16" "state d \<in> {DfuIdle, DnloadSync, DnBusy, DnloadIdle}"
    using assms(1) unfolding downloading_def by blast
  have nm: "state d \<noteq> Manifest"
    using fl(6) by auto
  show ?thesis
    using poll_held [OF fl(1) nm assms(2)] fl by (auto simp: downloading_def same_phase_def)
qed

lemma env_held:
  assumes "held_image w d fl" "list_all healthy_action as"
  shows "held_image (env_run as w) d fl"
  using assms(1)
proof (rule held_imageE)
  fix s y
  assume "sink d = Some s" "healthy_sink w s" "sink_stream w s = Some y" "y @ pending_bytes d = fl"
  then show ?thesis
    using healthy_env_run [OF _ assms(2), of w s] by (simp add: held_image_def)
qed

lemma env_downloading:
  assumes "downloading w d img" "list_all healthy_action as"
  shows "downloading (env_run as w) d img"
  using assms env_held unfolding downloading_def by blast

lemma submit_chunk_held:
  assumes "held_image w d fl" "pending d = None" "state d \<noteq> Manifest" "submit_chunk c w d = (w', d', r)"
  shows "held_image w' d' (fl @ data c) \<and> r = Ok () \<and> same_phase d d'"
proof -
  let ?d = "d\<lparr>pending := Some c\<rparr>"
  have h: "held_image w ?d (fl @ data c)"
    using assms(1,2) by (auto simp: held_image_def pending_bytes_def split: option.splits)
  obtain w1 d1 r1 where p: "push_pending w ?d = (w1, d1, r1)"
    by (cases "push_pending w ?d")
  have f: "held_image w1 d1 (fl @ data c)" "\<exists>b. r1 = Ok b" "same_phase ?d d1"
    using push_pending_held [OF h _ p] assms(3) by simp_all
  then have "w' = w1" "d' = d1" "r = Ok ()"
    using assms(2,4) p by (auto simp: submit_chunk_def)
  then show ?thesis
    using f by (simp add: same_phase_def)
qed

text \<open>One block: the image grows by what was received.\<close>

lemma accept_block_downloading:
  assumes dl: "downloading w d img" and np: "pending d = None"
    and buf: "data buf = download_tail d @ xs" and run: "accept_block buf w d = (w', d', r)"
  shows "downloading w' d' (img @ xs) \<and> r = Ok () \<and> state d' = DnloadSync"
proof -
  obtain fl where fl: "held_image w d fl" "img = fl @ download_tail d"
      "download_crc d = hasher_update hasher_new fl" "length (download_tail d) \<le> 16"
      "fl \<noteq> [] \<longrightarrow> length (download_tail d) = 16"
    using dl unfolding downloading_def by blast
  let ?n = "length (data buf) - 16"
  show ?thesis
  proof (cases "16 < length (data buf)")
    case False
    have "d' = d\<lparr>state := DnloadSync, dfu_status := StatusOk, download_tail := data buf\<rparr>" "w' = w" "r = Ok ()"
      using run False by (simp_all add: accept_block_def flushable_len_def bm_len_def)
    moreover have "fl \<noteq> [] \<longrightarrow> length (data buf) = 16"
      using False fl(5) buf by auto
    ultimately show ?thesis
      using fl False buf unfolding downloading_def by (intro conjI exI [of _ fl]) simp_all
  next
    case True
    let ?d = "d\<lparr>state := DnloadSync, dfu_status := StatusOk, download_tail := drop ?n (data buf),
      download_crc := hasher_update (download_crc d) (take ?n (data buf))\<rparr>"
    have sub: "submit_chunk (bm_truncate ?n buf) w ?d = (w', d', r)"
      using run True by (simp add: accept_block_def flushable_len_def bm_len_def Let_def)
    have "held_image w ?d fl"
      using fl(1) by simp
    then have h: "held_image w' d' (fl @ take ?n (data buf))" "r = Ok ()"
      "same_phase ?d d'"
      using submit_chunk_held [OF _ _ _ sub, of fl] np by simp_all
    have "img @ xs = (fl @ take ?n (data buf)) @ drop ?n (data buf)"
      using fl(2) buf by (simp only: append_assoc append_take_drop_id)
    moreover have "hasher_update hasher_new (fl @ take ?n (data buf)) = hasher_update (download_crc d) (take ?n (data buf))"
      using fl(3) by (simp add: crc.feed_append)
    ultimately show ?thesis
      using h True unfolding downloading_def same_phase_def
      by (intro conjI exI [of _ "fl @ take ?n (data buf)"]) simp_all
  qed
qed

lemma get_status_downloading:
  "downloading w d img \<Longrightarrow> downloading w (fst (get_status d)) img"
  by (auto simp: downloading_def get_status_def Let_def split: State.splits)

lemma buffer_downloading:
  assumes "downloading w d img" "sink d = Some s" "buffer n w s = (w', b)"
  shows "downloading w' d img"
proof -
  have inv: "sink_inv w s"
    using assms(1,2) by (auto simp: downloading_def held_image_def healthy_sink_def)
  obtain x where t: "take_recycled w s = (w', x)"
    using buffer_world [of n w s] assms(3) by (cases "take_recycled w s") auto
  have "backend_ok (backends w' ! j) = backend_ok (backends w ! j)" if "j < length (backends w)" for j
    using t by (cases rule: take_recycled_cases) (use that in \<open>simp_all add: backend_ok_def nth_list_modify\<close>)
  moreover have "tx s = Some j \<Longrightarrow> j < length (backends w)" for j
    using inv by (simp add: sink_inv_def session_wf_def)
  ultimately have "feeding w' s = feeding w s"
    by (simp add: feeding_def split: option.split)
  moreover have "unused w' s = unused w s"
    using t by (cases rule: take_recycled_cases) (auto simp: unused_def)
  ultimately have "healthy_sink w' s = healthy_sink w s"
    using buffer_inv(1) [OF inv assms(3), of s] by (simp add: healthy_sink_def)
  then have "held_image w' d fl = held_image w d fl" for fl
    using assms(2) buffer_inv(2) [OF inv assms(3), of s] by (simp add: held_image_def)
  then show ?thesis
    using assms(1) by (simp add: downloading_def)
qed

lemma receive_unfold:
  assumes "poll w d = (w1, d1, Ok ())" "\<not> is_finishing d1" "sink d1 = Some s"
    "buffer (length (download_tail d1) + n) w1 s = (w2, b)"
  shows "\<exists>buf. data buf = download_tail d1 @ take n xs \<and>
    receive_dnload_block n as (Inr xs) w d = accept_block buf (env_run as w2) d1"
proof -
  let ?c = "length (download_tail d1)"
  let ?r = "resize (?c + n) 0 (extend_from_slice (download_tail d1) b)"
  let ?buf = "bm_truncate (?c + length (take n xs))
    (?r\<lparr>data := take ?c (data ?r) @ take n xs @ drop (?c + length (take n xs)) (data ?r)\<rparr>)"
  have "receive_dnload_block n as (Inr xs) w d = accept_block ?buf (env_run as w2) d1"
    using assms by (simp add: receive_dnload_block_def Let_def)
  moreover have "data ?buf = download_tail d1 @ take n xs"
    by (simp add: buffer_data [OF assms(4)] min_def)
  ultimately show ?thesis
    by blast
qed

lemma receive_downloading:
  assumes dl: "downloading w d img" and np: "pending d = None" and ok: "list_all healthy_action as"
    and run: "receive_dnload_block len as (Inr xs) w d = (w', d', r)"
  shows "downloading w' d' (img @ take len xs) \<and> r = Ok () \<and> state d' = DnloadSync"
proof -
  obtain w1 d1 r1 where p: "poll w d = (w1, d1, r1)"
    by (cases "poll w d")
  have f: "downloading w1 d1 img" "r1 = Ok ()" "pending d1 = None" "state d1 = state d"
    using poll_downloading [OF dl p] np by simp_all
  have nf: "\<not> is_finishing d1"
    using f(1) by (auto simp: downloading_def is_finishing_def)
  obtain s where s: "sink d1 = Some s" "sink_inv w1 s"
    using f(1) by (auto simp: downloading_def healthy_sink_def elim!: held_imageE)
  obtain w2 b where b: "buffer (length (download_tail d1) + len) w1 s = (w2, b)"
    by fastforce
  have dl2: "downloading (env_run as w2) d1 img"
    by (rule env_downloading [OF buffer_downloading [OF f(1) s(1) b] ok])
  obtain buf where buf: "data buf = download_tail d1 @ take len xs" "accept_block buf (env_run as w2) d1 = (w', d', r)"
    using receive_unfold [OF p [unfolded f(2)] nf s(1) b, of xs as] run by auto
  then show ?thesis
    by (rule accept_block_downloading [OF dl2 f(3)])
qed

lemma suffix_check:
  assumes "length tail \<le> 16" "fl \<noteq> [] \<longrightarrow> length tail = 16"
  shows "has_valid_dfu_suffix (hasher_update hasher_new fl) tail \<longleftrightarrow> dfu_suffix_ok (fl @ tail)"
proof (cases "length tail = 16")
  case True
  have "hasher_finalize (hasher_update (hasher_update hasher_new fl) (take 12 tail)) = crc32 (fl @ take 12 tail)"
    by (simp add: crc.feed_append [symmetric] crc.digest_fresh)
  then show ?thesis
    using True by (simp add: has_valid_dfu_suffix_def dfu_suffix_ok_def)
next
  case False
  then show ?thesis
    using assms by (auto simp: has_valid_dfu_suffix_def dfu_suffix_ok_def)
qed

lemma push_eof_manifesting:
  assumes "sink_inv w s" "feeding w s" "sink_stream w s = Some target" "sink d = Some s" "pending d = None"
    "state d = Manifest" "push_eof w d = (w', d')"
  shows "manifesting w' d' target"
proof -
  obtain i where i: "tx s = Some i" "i < length (backends w)" "backend_ok (backends w ! i)"
    using assms(1,2) by (rule feeding_index)
  have eq: "w' = drop_tx s w" "d' = d\<lparr>sink := Some (s\<lparr>tx := None\<rparr>)\<rparr>"
    using assms by (auto simp: push_eof_def eof_def tx_set_none_def)
  have "stream_of (backends w ! i) = target"
    using assms(3) i by (simp add: sink_stream_tx backend_ok_def)
  then have "i < length (backends w') \<and> stream_of (backends w' ! i) @ pending_bytes d' = target \<and> \<not> sender (backends w' ! i)"
    using i eq assms(5) by (simp add: drop_tx_frame) (simp add: pending_bytes_def)
  then show ?thesis
    using assms(5,6) eq by (auto simp: manifesting_def)
qed

lemma push_manifesting:
  assumes "held_image w d target" "state d = Manifest" "target \<noteq> [] \<or> pending d \<noteq> None"
    "push_pending w d = (w', d', r)"
  shows "manifesting w' d' target \<and> (\<exists>b. r = Ok b)"
proof -
  obtain s y where s: "sink d = Some s" "healthy_sink w s" "sink_stream w s = Some y" "y @ pending_bytes d = target"
    using assms(1) by (rule held_imageE)
  show ?thesis
  proof (cases "pending d")
    case None
    then have y: "y = target" "y \<noteq> []"
      using s(4) assms(3) by (simp_all add: pending_bytes_def)
    have "feeding w s" "sink_inv w s"
      using s(2,3) y(2) by (auto simp: healthy_sink_def unused_def sink_stream_tx)
    moreover have "push_eof w d = (w', d')" "r = Ok False"
      using assms(4) None by (auto simp: push_pending_def split: prod.splits)
    ultimately show ?thesis
      using push_eof_manifesting [OF _ _ _ s(1) None assms(2)] s(3) y(1) by blast
  next
    case (Some c)
    obtain w1 s1 r1 where t: "try_send c w s = (w1, s1, r1)"
      by (cases "try_send c w s")
    note h = healthy_try_send [OF s(2) t s(3)]
    have inv1: "sink_inv w1 s1" and f1: "feeding w1 s1"
      using h by (simp_all add: healthy_sink_def)
    have tgt: "y @ data c = target"
      using s(4) Some by (simp add: pending_bytes_def)
    from h consider (ok) "r1 = Ok (FeedOk (bm_len c))" "sink_stream w1 s1 = Some (y @ data c)"
      | (full) "r1 = Ok (FeedFull c)" "sink_stream w1 s1 = Some y"
      by blast
    then show ?thesis
    proof cases
      case ok
      let ?d = "d\<lparr>pending := None, sink := Some s1\<rparr>"
      obtain w2 d2 where e: "push_eof w1 ?d = (w2, d2)"
        by fastforce
      have "manifesting w2 d2 target"
        using push_eof_manifesting [OF inv1 f1 _ _ _ _ e] ok(2) tgt assms(2) by simp
      moreover have "w' = w2" "d' = d2" "r = Ok False"
        using push_pending_unfold(1) [OF Some s(1) t ok(1)] assms(4) e by simp_all
      ultimately show ?thesis
        by auto
    next
      case full
      obtain i where i: "tx s1 = Some i" "i < length (backends w1)" "backend_ok (backends w1 ! i)"
        using inv1 f1 by (rule feeding_index)
      have e: "w' = w1" "d' = d\<lparr>sink := Some s1\<rparr>" "r = Ok True"
        using push_pending_unfold(3) [OF Some s(1) t full(1)] assms(4) pending_back [OF Some] by simp_all
      have "stream_of (backends w1 ! i) = y"
        using full(2) i by (simp add: sink_stream_tx backend_ok_def)
      then show ?thesis
        using e i Some tgt assms(2) by (auto simp: manifesting_def pending_bytes_def)
    qed
  qed
qed

lemma manifest_downloading:
  assumes dl: "downloading w d img" and np: "pending d = None" and ne: "strip_image img \<noteq> []"
    and run: "manifest w d = (w', d', r)"
  shows "manifesting w' d' (strip_image img) \<and> r = Ok ()"
proof -
  obtain fl where fl: "held_image w d fl" "img = fl @ download_tail d"
      "download_crc d = hasher_update hasher_new fl" "length (download_tail d) \<le> 16"
      "fl \<noteq> [] \<longrightarrow> length (download_tail d) = 16"
    using dl unfolding downloading_def by blast
  let ?d = "d\<lparr>dfu_status := StatusOk, state := Manifest, download_tail := []\<rparr>"
  have chk: "has_valid_dfu_suffix (download_crc d) (download_tail d) \<longleftrightarrow> dfu_suffix_ok img"
    using suffix_check [OF fl(4,5)] fl(2,3) by simp
  have ne_tail: "download_tail d \<noteq> []"
  proof
    assume "download_tail d = []"
    then have "img = []"
      using fl(2,5) by auto
    then show False
      using ne by (simp add: strip_image_def dfu_suffix_ok_def)
  qed
  show ?thesis
  proof (cases "dfu_suffix_ok img")
    case True
    have "length (download_tail d) = 16"
      using chk True by (simp add: has_valid_dfu_suffix_def)
    then have tgt: "strip_image img = fl"
      using True fl(2) by (simp add: strip_image_def)
    obtain w1 d1 r1 where p: "push_pending w ?d = (w1, d1, r1)"
      by (cases "push_pending w ?d")
    have "manifesting w1 d1 fl \<and> (\<exists>b. r1 = Ok b)"
      using push_manifesting [OF _ _ _ p, of fl] fl(1) ne tgt by simp
    moreover have "w' = w1 \<and> d' = d1 \<and> r = Ok ()"
      using run p True chk calculation by (auto simp: manifest_def Let_def)
    ultimately show ?thesis
      using tgt by simp
  next
    case False
    obtain s where s: "sink d = Some s"
      using fl(1) by (rule held_imageE)
    obtain w1 b where b: "buffer (length (download_tail d)) w s = (w1, b)"
      by fastforce
    let ?c = "extend_from_slice (download_tail d) b"
    have "downloading w1 d img"
      using buffer_downloading [OF dl s b] .
    then obtain fl1 where fl1: "held_image w1 d fl1" "img = fl1 @ download_tail d"
      unfolding downloading_def by blast
    then have h: "held_image w1 (?d\<lparr>pending := Some ?c\<rparr>) img"
      using np buffer_data [OF b] by (auto simp: held_image_def pending_bytes_def split: option.splits)
    obtain w2 d2 r2 where p: "push_pending w1 (?d\<lparr>pending := Some ?c\<rparr>) = (w2, d2, r2)"
      by (cases "push_pending w1 (?d\<lparr>pending := Some ?c\<rparr>)")
    have m: "manifesting w2 d2 img \<and> (\<exists>b. r2 = Ok b)"
      using push_manifesting [OF h _ _ p] by simp
    moreover have "w' = w2 \<and> d' = d2 \<and> r = Ok ()"
      using run p False chk ne_tail s b np m
      by (auto simp: manifest_def Let_def recycled_chunk_buffer_def submit_chunk_def)
    ultimately show ?thesis
      using False by (simp add: strip_image_def)
  qed
qed

lemma reply_state_get_status:
  "reply_state (snd (get_status d)) = Some (state (fst (get_status d)))"
  by (simp add: reply_state_def get_status_def Let_def parse_to_bytes)

lemma get_status_settled:
  "(state d = DnloadIdle \<longrightarrow> pending d = None) \<Longrightarrow> state (fst (get_status d)) = DnloadIdle \<Longrightarrow>
   pending (fst (get_status d)) = None"
  by (auto simp: get_status_def Let_def split: State.splits if_splits)

lemma pending_get_status [simp]: "pending (fst (get_status d)) = pending d"
  by (simp add: get_status_def Let_def)

lemma host_run_downloading:
  assumes "downloading w d img" "settled rdy d" "list_all healthy_event es"
  shows "host_run rdy es w d \<noteq> Rejected \<and>
    (\<forall>rdy' w' d'. host_run rdy es w d = Running rdy' w' d' \<longrightarrow>
      downloading w' d' (img @ image_of es) \<and> settled rdy' d')"
  using assms
proof (induction es arbitrary: rdy w d img)
  case Nil
  then show ?case
    by (simp add: image_of_def)
next
  case (Cons e es)
  show ?case
  proof (cases e)
    case (HostBlock n as xs)
    show ?thesis
    proof (cases rdy)
      case True
      obtain w1 d1 r where rr: "receive_dnload_block n as (Inr xs) w d = (w1, d1, r)"
        by (cases "receive_dnload_block n as (Inr xs) w d")
      have f: "downloading w1 d1 (img @ take n xs)" "r = Ok ()" "state d1 = DnloadSync"
        using receive_downloading [OF Cons.prems(1) _ _ rr] Cons.prems(2,3) HostBlock True
        by (simp_all add: settled_def)
      then show ?thesis
        using Cons.IH [OF f(1), of False] Cons.prems(3) HostBlock True rr by (simp add: settled_def image_of_def)
    qed (simp add: HostBlock)
  next
    case HostGetStatus
    obtain w1 d1 r where p: "poll w d = (w1, d1, r)"
      by (cases "poll w d")
    have f: "downloading w1 d1 img" "r = Ok ()" "state d1 = state d" "pending d = None \<longrightarrow> pending d1 = None"
      using poll_downloading [OF Cons.prems(1) p] by simp_all
    let ?d = "fst (get_status d1)" and ?rdy = "rdy \<or> state (fst (get_status d1)) = DnloadIdle"
    have "handle_in (dfu_request GETSTATUS) w d = (w1, ?d, Ok (snd (get_status d1)))"
      using p f(2) by (simp add: handle_in_def dfu_request_def case_prod_beta)
    moreover have "settled ?rdy ?d"
      using Cons.prems(2) f(3,4) get_status_settled [of d1] by (auto simp: settled_def)
    ultimately show ?thesis
      using Cons.IH [OF get_status_downloading [OF f(1)], of ?rdy] Cons.prems(3) HostGetStatus
      by (simp add: reply_state_get_status image_of_def)
  next
    case HostGetState
    obtain w1 d1 r where p: "poll w d = (w1, d1, r)"
      by (cases "poll w d")
    have f: "downloading w1 d1 img" "r = Ok ()" "state d1 = state d" "pending d = None \<longrightarrow> pending d1 = None"
      using poll_downloading [OF Cons.prems(1) p] by simp_all
    have "handle_in (dfu_request GETSTATE) w d = (w1, d1, Ok (from_state (state d1)))"
      using p f(2) by (simp add: handle_in_def dfu_request_def)
    moreover have "settled rdy d1"
      using Cons.prems(2) f(3,4) by (auto simp: settled_def)
    ultimately show ?thesis
      using Cons.IH [OF f(1), of rdy] Cons.prems(3) HostGetState by (simp add: image_of_def)
  next
    case (HostEnv a)
    have "downloading (env_step a w) d img"
      using env_downloading [OF Cons.prems(1), of "[a]"] Cons.prems(3) HostEnv by (simp add: env_run_def)
    then show ?thesis
      using Cons.IH [of "env_step a w" d img rdy] Cons.prems(2,3) HostEnv by (simp add: image_of_def)
  qed
qed

lemma dfu_new_downloading:
  assumes "arena_wf w" "\<not> restart_pending w" "success_tasks w = []"
  shows "downloading w (dfu_new c) [] \<and> settled True (dfu_new c)"
  using assms by (simp add: downloading_def held_image_def dfu_new_def settled_def pending_bytes_def healthy_sink_def
      unused_def session_new_inv crc.feed_Nil)

subsection \<open>Properties\<close>


lemmas handler_defs = receive_dnload_block_def poll_def push_pending_def push_eof_def poll_verdict_def
  poll_apply_def accept_block_def submit_chunk_def flushable_len_def is_finishing_def handle_in_def
  dfu_request_def Let_def

lemmas session_defs = try_send_def ensure_open_def session_open_def is_open_def reject_if_restart_pending_def
  push_at_def try_push_def spawn_def rx_alive_def drop_recycle_def modify_backend_def list_modify_def
  step_defs try_finished_def poll_status_def buffer_def take_recycled_def fit_buffer_def
  bm_len_def env_run_def

lemma queue_capacity_64: "queue_capacity 64 = 32768"
  by (simp add: queue_capacity_def div_ceil_def TARGET_QUEUE_BYTES_def)

lemma get_status_sync:
  "pending d = None \<Longrightarrow> state d = DnloadSync \<Longrightarrow> fst (get_status d) = d\<lparr>state := DnloadIdle\<rparr>"
  by (simp add: get_status_def)

lemma demo_run:
  "host_run True demo_events idle_world (dfu_new demo_config) =
    Running True idle_world ((dfu_new demo_config)\<lparr>state := DnloadIdle, download_tail := [1, 2, 3, 4, 5]\<rparr>)"
  by (simp add: demo_events_def handler_defs session_defs demo_config_def dfu_new_def idle_world_def
      session_new_def reply_state_get_status get_status_sync case_prod_beta)

lemma demo_image: "image_of demo_events = [1, 2, 3, 4, 5]" "strip_image [1, 2, 3, 4, 5] = [1, 2, 3, 4, 5]"
  by (simp_all add: image_of_def demo_events_def strip_image_def dfu_suffix_ok_def)




lemma le_bytes_4_word: "length bs = 4 \<Longrightarrow> unat (v :: 32 word) = of_le bs \<Longrightarrow> bs = le_bytes 4 (unat v)"
  using le_bytes_of_le [of bs] by metis

lemma of_le_le_bytes_word: "of_le (le_bytes 4 (unat (v :: 32 word))) = unat v"
proof -
  have "unat v < 256 ^ 4"
    using unsigned_less [of v, where ?'a = nat] by simp
  then show ?thesis
    by (simp only: of_le_le_bytes mod_less)
qed

lemma take_nth_suffix:
  fixes t :: bytes
  assumes "length t = 16" "take 3 (drop 8 t) = u" "unat (t ! 11) = 16"
  shows "t = take 8 t @ u @ [16] @ drop 12 t"
proof -
  have "t = take 8 t @ take 3 (drop 8 t) @ [t ! 11] @ drop 12 t"
    using assms(1) by (simp add: list_eq_iff_nth_eq nth_append) (auto simp: less_Suc_eq numeral_eq_Suc)
  moreover have "t ! 11 = 16"
    using assms(3) by (simp add: word_unat_eq_iff)
  ultimately show ?thesis
    using assms(2) by simp
qed

text \<open>
  C15.  The suffix check accepts exactly the suffixes that belong to the data before them: the 16 bytes
  consist of eight identification bytes, the signature UFD, the length 16 and the CRC-32 (inverted,
  little endian) of everything that precedes it, where the checksum over the data was accumulated by
  the handler block by block.
\<close>

theorem dfu_suffix_exact:
  "has_valid_dfu_suffix (foldl hasher_update hasher_new blocks) t \<longleftrightarrow>
    (\<exists>ident. length ident = 8 \<and> t = dfu_suffix ident (concat blocks))"
proof -
  let ?p = "concat blocks"
  have h: "hasher_finalize (hasher_update (foldl hasher_update hasher_new blocks) x) = crc32 (?p @ x)" for x
    by (simp add: crc.feed_concat crc.feed_append [symmetric] crc.digest_fresh)
  show ?thesis
  proof
    assume v: "has_valid_dfu_suffix (foldl hasher_update hasher_new blocks) t"
    then have t: "t = take 8 t @ ascii ''UFD'' @ [16] @ drop 12 t" and len: "length t = 16"
      and c: "unat (NOT (crc32 (?p @ take 12 t))) = of_le (drop 12 t)"
      using take_nth_suffix [of t "ascii ''UFD''"] by (simp_all add: has_valid_dfu_suffix_def h)
    have "take 12 t = take 8 t @ ascii ''UFD'' @ [16]"
      using len by (subst t) simp
    moreover have "drop 12 t = le_bytes 4 (unat (NOT (crc32 (?p @ take 12 t))))"
      using le_bytes_4_word [OF _ c] len by simp
    ultimately have "t = dfu_suffix (take 8 t) ?p"
      using t by (simp add: dfu_suffix_def Let_def del: le_bytes_numeral)
    then show "\<exists>ident. length ident = 8 \<and> t = dfu_suffix ident ?p"
      using len by (intro exI [of _ "take 8 t"]) simp
  next
    assume "\<exists>ident. length ident = 8 \<and> t = dfu_suffix ident ?p"
    then obtain ident where i: "length ident = 8" "t = dfu_suffix ident ?p"
      by blast
    let ?f = "ident @ ascii ''UFD'' @ [16]"
    have "length t = 16" "take 12 t = ?f" "drop 12 t = le_bytes 4 (unat (NOT (crc32 (?p @ ?f))))"
      "take 3 (drop 8 t) = ascii ''UFD''" "t ! 11 = 16"
      using i by (simp_all add: dfu_suffix_def Let_def nth_append del: le_bytes_numeral)
    then show "has_valid_dfu_suffix (foldl hasher_update hasher_new blocks) t"
      by (simp add: has_valid_dfu_suffix_def h of_le_le_bytes_word del: le_bytes_numeral)
  qed
qed

subsection \<open>Requests in any order\<close>

inductive_cases dfu_stepE: "dfu_step (w, d) (w', d')"

lemma dfu_step_inv: "dfu_step (w, d) (w', d') \<Longrightarrow> dfu_inv w d \<Longrightarrow> dfu_inv w' d'"
proof (erule dfu_stepE)
  fix a
  assume "w' = env_step a w" "d' = d" "dfu_inv w d"
  then show "dfu_inv w' d'"
    using env_run_dfu_inv [of w d "[a]"] by (simp add: env_run_def)
next
  assume "reset_on_idle_timeout w d = (w', d')" "dfu_inv w d"
  then show "dfu_inv w' d'"
    using abort_transfer_inv [OF dfu_inv_arena, of w d d] by (simp add: reset_is_abort)
qed (auto dest: handle_out_inv handle_in_inv receive_inv)

lemma dfu_reach_inv: "dfu_step\<^sup>*\<^sup>* (w, d) (w', d') \<Longrightarrow> dfu_inv w d \<Longrightarrow> dfu_inv w' d'"
proof (induction "(w', d')" arbitrary: w' d' rule: rtranclp_induct)
  case (step y)
  then show ?case
    by (cases y) (auto intro: dfu_step_inv)
qed simp

lemma dfu_new_inv: "arena_wf w \<Longrightarrow> dfu_inv w (dfu_new c)"
  by (simp add: dfu_inv_def dfu_new_def session_new_inv)

text \<open>
  C9.  Safety of the DFU handler.  After any sequence of requests in any order, valid or not, with any
  outcome of data stages, any resets and any steps of the other tasks, the handler has a sink on a
  well-formed world and carries at most 16 tail bytes, and no request can make it panic: the
  \<open>expect("sink present")\<close> of the code never fires.
\<close>

theorem dfu_never_panics:
  assumes "arena_wf w" "dfu_step\<^sup>*\<^sup>* (w, dfu_new c) (w', d')"
  shows "dfu_inv w' d' \<and> snd (snd (handle_out req w' d')) \<noteq> Panic \<and> snd (snd (handle_in req w' d')) \<noteq> Panic \<and>
    snd (snd (receive_dnload_block n as rcv w' d')) \<noteq> Panic"
proof -
  have inv: "dfu_inv w' d'"
    using dfu_reach_inv [OF assms(2) dfu_new_inv [OF assms(1)]] .
  show ?thesis
    using inv handle_out_inv [OF inv] handle_in_inv [OF inv] receive_inv [OF inv]
    by (metis prod.collapse)
qed

lemma settle_failure: "r \<noteq> Ok () \<Longrightarrow> \<exists>e. snd (snd (settle r w s)) = Inl e"
  by (cases r) (simp_all add: settle_def Let_def)

lemma failed_sinkE:
  assumes "failed_sink w d"
  obtains s i r where "pending d = None" "sink d = Some s" "terminal s = None" "status s = Some i"
    "status_state (backends w ! i) = Joined r" "r \<noteq> Ok ()"
  using assms by (auto simp: failed_sink_def split: option.splits status_task.splits)

lemma poll_status_failed:
  assumes "terminal s = None" "status s = Some i" "i < length (backends w)"
    "status_state (backends w ! i) = Joined r" "r \<noteq> Ok ()"
  shows "\<exists>w' s' e. try_finished w s = (w', s', Some (Inl e))"
  using assms settle_failure [OF assms(5), of w "s\<lparr>status := None\<rparr>"]
  by (auto simp: try_finished_def poll_status_def split: prod.splits)

lemma poll_failed:
  assumes inv: "dfu_inv w d" and failed: "failed_sink w d" and run: "poll w d = (w', d', r)"
  shows "r = Ok () \<and> d' = d\<lparr>sink := Some (fresh_sink d), pending := None, dfu_status := ErrVerify,
    state := Error, download_crc := hasher_new\<rparr>"
proof -
  obtain s i q where s: "pending d = None" "sink d = Some s" "terminal s = None" "status s = Some i"
    "status_state (backends w ! i) = Joined q" "q \<noteq> Ok ()"
    using failed by (rule failed_sinkE)
  have sinv: "sink_inv w s" and i: "i < length (backends w)"
    using inv s(2,4) by (auto simp: dfu_inv_def sink_inv_def session_wf_def)
  obtain w1 d1 where e: "push_eof w d = (w1, d1)"
    by fastforce
  have p: "push_pending w d = (w1, d1, Ok False)"
    using s(1) e by (simp add: push_pending_def)
  obtain s1 where s1: "d1 = d\<lparr>sink := Some s1\<rparr>"
    "state d \<noteq> Manifest \<longrightarrow> w1 = w \<and> s1 = s" "state d = Manifest \<longrightarrow> w1 = drop_tx s w \<and> s1 = s\<lparr>tx := None\<rparr>"
    by (rule push_eof_cases [OF s(2) sinv e]) blast
  have "terminal s1 = None" "status s1 = Some i" "i < length (backends w1)" "status_state (backends w1 ! i) = Joined q"
    using s1(2,3) s(3,4,5) i by (cases "state d = Manifest"; simp add: drop_tx_frame)+
  then obtain w2 s2 err where t: "try_finished w1 s1 = (w2, s2, Some (Inl err))"
    using poll_status_failed s(6) by blast
  have "poll_verdict w1 d1 = (w2, d1\<lparr>sink := Some s2\<rparr>, Some (Inl err))"
    using t s1(1) \<open>status s1 = Some i\<close> by (simp add: poll_verdict_def is_open_def)
  then have "r = Ok ()" "d' = snd (poll_apply (state d1 = Manifest) (Some (Inl err)) w2 (d1\<lparr>sink := Some s2\<rparr>))"
    using run p by (auto simp: poll_def split: prod.splits)
  moreover have "snd (poll_apply m (Some (Inl err)) w2 (d1\<lparr>sink := Some s2\<rparr>)) =
      d\<lparr>sink := Some (fresh_sink d), pending := None, dfu_status := ErrVerify, state := Error, download_crc := hasher_new\<rparr>" for m
    using s1(1) by (cases d) (simp add: poll_apply_def case_prod_beta Let_def fault_def fresh_sink_def)
  ultimately show ?thesis
    by simp
qed

lemma accept_block_frame:
  assumes "dfu_inv w d" "pending d = None" "accept_block buf w d = (w', d', r)"
  shows "state d' = DnloadSync \<and> dfu_status d' = StatusOk"
proof (cases "flushable_len (bm_len buf)")
  case None
  then show ?thesis
    using assms(3) by (auto simp: accept_block_def)
next
  case (Some n)
  then have n: "n = length (data buf) - 16"
    by (auto simp: flushable_len_def bm_len_def split: if_splits)
  let ?d = "d\<lparr>state := DnloadSync, dfu_status := StatusOk, download_tail := drop n (data buf),
    download_crc := hasher_update (download_crc d) (take n (data buf)), pending := Some (bm_truncate n buf)\<rparr>"
  have inv: "dfu_inv w ?d"
    using assms(1) n by (simp add: dfu_inv_def)
  obtain w1 d1 r1 where p: "push_pending w ?d = (w1, d1, r1)"
    by (cases "push_pending w ?d")
  have "d' = d1"
    using assms(2,3) Some p by (auto simp: accept_block_def submit_chunk_def Let_def split: outcome.splits)
  then show ?thesis
    using push_pending_frame [OF inv p] by simp
qed


text \<open>
  C35.  The same failure is lost when it is first observed at the start of a download block.  The poll at
  the head of \<open>receive_dnload_block\<close> enters dfuERROR and replaces the session, and the block is then
  received anyway: the handler ends in dfuDNLOAD-SYNC with status OK, so the host is told to go on and
  the rest of the image goes to a new SWUpdate session.
\<close>

theorem dfu_failure_masked_by_block:
  assumes "dfu_inv w d" "failed_sink w d"
    "receive_dnload_block n as (Inr xs) w d = (w', d', r)"
  shows "state d' = DnloadSync \<and> dfu_status d' = StatusOk"
proof -
  obtain w1 d1 r1 where p: "poll w d = (w1, d1, r1)"
    by (cases "poll w d")
  have f: "r1 = Ok ()" "sink d1 = Some (fresh_sink d)" "pending d1 = None" "state d1 = Error"
    using poll_failed [OF assms(1,2) p] by simp_all
  obtain w2 b where b: "buffer (length (download_tail d1) + n) w1 (fresh_sink d) = (w2, b)"
    by fastforce
  have "dfu_inv w1 d1"
    using poll_inv [OF assms(1) p] by simp
  moreover have "w2 = w1"
    using buffer_world [of "length (download_tail d1) + n" w1 "fresh_sink d"] b
    by (simp add: take_recycled_def fresh_sink_def)
  ultimately have inv: "dfu_inv (env_run as w2) d1"
    by (simp add: env_run_dfu_inv)
  obtain buf where run: "accept_block buf (env_run as w2) d1 = (w', d', r)"
    using receive_unfold [OF p [unfolded f(1)] _ f(2) b, of xs as] assms(3) f(4)
    by (auto simp: is_finishing_def)
  show ?thesis
    using accept_block_frame [OF inv f(3) run] .
qed

lemma failed_demo: "dfu_inv failed_world busy_dfu" "failed_sink failed_world busy_dfu"
  by (simp_all add: dfu_inv_def failed_sink_def sink_inv_def session_wf_def arena_wf_def backend_wf_def busy_world_def
      busy_session_def busy_backend_def idle_world_def session_new_def spawn_def rx_alive_def busy_dfu_def
      dfu_new_def failed_world_def)


theorem dfu_failure_masked_by_block_witness:
  "\<exists>w' d' r. receive_dnload_block 3 [] (Inr [1, 2, 3]) failed_world busy_dfu = (w', d', r) \<and>
    state d' = DnloadSync \<and> dfu_status d' = StatusOk"
  using dfu_failure_masked_by_block [OF failed_demo, of 3 "[]" "[1, 2, 3]"] by (metis prod.exhaust)

theorem dfu_never_panics_witness:
  "let (w', d', r) = receive_dnload_block 20 [] (Inr (replicate 20 0)) idle_world (dfu_new demo_config)
   in dfu_inv w' d' \<and> snd (snd (handle_out (dfu_request 9) w' d')) \<noteq> Panic"
proof -
  obtain w' d' r where h: "receive_dnload_block 20 [] (Inr (replicate 20 0)) idle_world (dfu_new demo_config) = (w', d', r)"
    by (cases "receive_dnload_block 20 [] (Inr (replicate 20 0)) idle_world (dfu_new demo_config)")
  have "dfu_step\<^sup>*\<^sup>* (idle_world, dfu_new demo_config) (w', d')"
    using dfu_step.Block [OF h] by (rule r_into_rtranclp)
  then show ?thesis
    using dfu_never_panics [of idle_world demo_config w' d' "dfu_request 9"] h
    by (simp add: idle_world_def arena_wf_def)
qed

lemma reset_dfu_config:
  "transfer_size d' = transfer_size d \<Longrightarrow> poll_timeout_ms d' = poll_timeout_ms d \<Longrightarrow> download d' = download d \<Longrightarrow>
   upload d' = upload d \<Longrightarrow> reset_dfu d' = reset_dfu d"
  by (cases d; cases d') (simp add: reset_dfu_def fresh_sink_def)

lemma push_eof_config: "push_eof w d = (w', d') \<Longrightarrow> same_config d d'"
  by (auto simp: push_eof_def same_config_def split: if_splits option.splits prod.splits)

lemma push_pending_config: "push_pending w d = (w', d', r) \<Longrightarrow> same_config d d'"
  using push_eof_config unfolding push_pending_def same_config_def
  by (auto simp: Let_def split: option.splits prod.splits outcome.splits Feed.splits; fastforce)

lemma poll_config:
  assumes "poll w d = (w', d', r)"
  shows "same_config d d'"
proof -
  obtain w1 d1 r1 where p: "push_pending w d = (w1, d1, r1)"
    by (cases "push_pending w d")
  have "same_config d1 (fst (snd (poll_verdict w1 d1)))"
    by (auto simp: poll_verdict_def same_config_def split: option.splits prod.splits)
  moreover have "same_config x (snd (poll_apply m v w2 x))" for m v w2 x
    by (auto simp: poll_apply_def same_config_def case_prod_beta Let_def fault_def split: option.splits sum.splits)
  ultimately show ?thesis
    using assms p push_pending_config [OF p]
    by (cases r1) (auto simp: poll_def same_config_def case_prod_beta Let_def)
qed



lemma upload_reply_eq:
  assumes "upload d = Some src" "k < 65536"
  shows "upload_reply d k = take (unat (transfer_size d)) (drop (k * unat (transfer_size d)) src)"
proof -
  let ?t = "unat (transfer_size d)"
  have k: "unat (of_nat k :: 16 word) = k"
    using assms(2) by (simp add: unat_of_nat)
  have "take (min (min (k * ?t) (length src) + ?t) (length src) - min (k * ?t) (length src))
      (drop (min (k * ?t) (length src)) src) = take ?t (drop (k * ?t) src)"
    by (auto simp: min_def)
  then show ?thesis
    using assms(1) by (simp add: upload_reply_def upload_block_def k Let_def)
qed

text \<open>
  C30.  Uploading returns the configured document: the concatenation of the first m blocks a host reads
  (block numbers are 16 bits) is the first m * transfer_size bytes of it, and a block ends the upload,
  returning the device to dfuIDLE, exactly when it is shorter than the transfer size.
\<close>

theorem dfu_upload_reassembles:
  assumes "upload d = Some src" "m \<le> 65536"
  shows "upload_read d m = take (m * unat (transfer_size d)) src \<and>
    (\<forall>k<m. state (fst (upload_block ((dfu_request UPLOAD)\<lparr>req_value := of_nat k\<rparr>) d)) =
      (if length (upload_reply d k) < unat (transfer_size d) then DfuIdle else UploadIdle))"
proof -
  let ?t = "unat (transfer_size d)"
  have "upload_read d m = take (m * ?t) src"
    using assms(2)
  proof (induction m)
    case (Suc m)
    have "take (Suc m * ?t) src = take (m * ?t) src @ take ?t (drop (m * ?t) src)"
      using take_add [of "m * ?t" ?t src] by (simp add: add.commute)
    with Suc show ?case
      using upload_reply_eq [OF assms(1), of m] by (simp add: upload_read_def)
  qed (simp add: upload_read_def)
  moreover have "state (fst (upload_block ((dfu_request UPLOAD)\<lparr>req_value := of_nat k\<rparr>) d)) =
      (if length (upload_reply d k) < ?t then DfuIdle else UploadIdle)" for k
    using assms(1) by (simp add: upload_block_def upload_reply_def Let_def)
  ultimately show ?thesis
    by blast
qed

theorem dfu_upload_reassembles_witness:
  "upload_read ((dfu_new demo_config)\<lparr>upload := Some (ascii ''hello world''), transfer_size := 4\<rparr>) 3 = ascii ''hello world''"
  using dfu_upload_reassembles [of "(dfu_new demo_config)\<lparr>upload := Some (ascii ''hello world''), transfer_size := 4\<rparr>"
    "ascii ''hello world''" 3] by simp

text \<open>
  Flow control.  While a received block waits for room in the queue, a status request is answered
  dfuDNBUSY with a poll timeout of 100 ms, and dfuDNLOAD-IDLE with 0 once it has been taken; a host that
  sends a further block (more than the suffix window) all the same has its transfer aborted and sees
  errSTALLEDPKT, so no data can be lost or reordered silently.
\<close>

theorem dfu_flow_control:
  assumes "state d \<in> {DnloadSync, DnBusy}" "poll w d = (w1, d1, Ok ())" "same_phase d d1" "pending d1 = p"
  shows "(\<exists>rep d2. handle_in (dfu_request GETSTATUS) w d = (w1, d2, Ok rep) \<and>
      parse_status (as_slice rep) = Some (dfu_status d1, if p = None then 0 else 100,
        if p = None then DnloadIdle else DnBusy, 0)) \<and>
    (p \<noteq> None \<and> DFU_SUFFIX_LEN < length (download_tail d1) + length (take n xs) \<and> sink d1 \<noteq> None \<longrightarrow>
      (\<exists>w2. receive_dnload_block n [] (Inr xs) w d = (w2, fault ErrStalledPkt (reset_dfu d), Ok ())))"
proof -
  have st: "state d1 \<in> {DnloadSync, DnBusy}"
    using assms(1,3) by (simp add: same_phase_def)
  have "handle_in (dfu_request GETSTATUS) w d = (w1, fst (get_status d1), Ok (snd (get_status d1)))"
    using assms(2) by (simp add: handle_in_def dfu_request_def case_prod_beta)
  moreover have "parse_status (as_slice (snd (get_status d1))) = Some (dfu_status d1, if p = None then 0 else 100,
        if p = None then DnloadIdle else DnBusy, 0)"
    using st assms(4) by (auto simp: get_status_def Let_def parse_to_bytes)
  moreover have "\<exists>w2. receive_dnload_block n [] (Inr xs) w d = (w2, fault ErrStalledPkt (reset_dfu d), Ok ())"
    if h: "p \<noteq> None" "16 < length (download_tail d1) + length (take n xs)" "sink d1 \<noteq> None"
  proof -
    obtain s where s: "sink d1 = Some s"
      using h(3) by blast
    obtain w2 b where b: "buffer (length (download_tail d1) + n) w1 s = (w2, b)"
      by fastforce
    have nf: "\<not> is_finishing d1"
      using st by (auto simp: is_finishing_def)
    obtain buf where buf: "receive_dnload_block n [] (Inr xs) w d = accept_block buf w2 d1"
      "data buf = download_tail d1 @ take n xs"
      using receive_unfold [OF assms(2) nf s b, of xs "[]"] by (auto simp: env_run_def)
    let ?m = "length (data buf) - 16"
    let ?d = "d1\<lparr>state := DnloadSync, dfu_status := StatusOk, download_tail := drop ?m (data buf),
      download_crc := hasher_update (download_crc d1) (take ?m (data buf))\<rparr>"
    have "accept_block buf w2 d1 = submit_chunk (bm_truncate ?m buf) w2 ?d"
      using h(2) buf(2) by (simp add: accept_block_def flushable_len_def bm_len_def Let_def)
    also have "\<dots> = (fst (abort_transfer w2 ?d), fault ErrStalledPkt (snd (abort_transfer w2 ?d)), Ok ())"
      using h(1) assms(4) by (simp add: submit_chunk_def abort_with_fault_def case_prod_beta)
    also have "snd (abort_transfer w2 ?d) = reset_dfu d"
      using poll_config [OF assms(2)] unfolding abort_transfer_frame
      by (intro reset_dfu_config) (simp_all add: same_config_def)
    finally show ?thesis
      using buf(1) by simp
  qed
  ultimately show ?thesis
    by blast
qed

theorem dfu_flow_control_witness:
  "(\<exists>rep d2. handle_in (dfu_request GETSTATUS) full_world full_dfu = (full_world, d2, Ok rep) \<and>
      parse_status (as_slice rep) = Some (StatusOk, 100, DnBusy, 0)) \<and>
    (\<exists>w2. receive_dnload_block 64 [] (Inr [1, 2]) full_world full_dfu = (w2, fault ErrStalledPkt (reset_dfu full_dfu), Ok ()))"
proof -
  have t: "try_send \<lparr>data = [1], cap = 1\<rparr> full_world busy_session = (full_world, busy_session, Ok (FeedFull \<lparr>data = [1], cap = 1\<rparr>))"
    by (simp add: try_send_def ensure_open_def busy_session_def push_at_def try_push_def full_world_def busy_world_def
        busy_backend_def spawn_def rx_alive_def idle_world_def)
  have s: "sink full_dfu = Some busy_session" "pending full_dfu = Some \<lparr>data = [1], cap = 1\<rparr>"
    by (simp_all add: full_dfu_def busy_dfu_def)
  have pp: "push_pending full_world full_dfu = (full_world, full_dfu, Ok True)"
    using push_pending_unfold(3) [OF s(2,1) t refl] pending_back [OF s(2), of "Some busy_session"] sink_same [OF s(1)] by simp
  have pv: "poll_verdict full_world full_dfu = (full_world, full_dfu, None)"
    using s sink_same [OF s(1)] by (simp add: poll_verdict_def is_open_def try_finished_def poll_status_def)
      (simp add: busy_session_def session_new_def full_world_def busy_backend_def full_dfu_def busy_dfu_def)
  have "poll full_world full_dfu = (full_world, full_dfu, Ok ())"
    using pp pv by (simp add: poll_def poll_apply_def)
  then show ?thesis
    using dfu_flow_control [of full_dfu full_world full_world full_dfu "Some \<lparr>data = [1], cap = 1\<rparr>" 64 "[1, 2]"] s
    by (simp add: full_dfu_def busy_dfu_def dfu_new_def)
qed

end
