(* ===== verification/Dfu_Gadget.thy ===== *)
theory Dfu_Gadget
  imports Functionfs Dfu_Transfer
begin

text \<open>
  The DFU function on endpoint zero (\<^verbatim>\<open>crates/summit-usbgadget-dfu/src/gadget.rs\<close>): the event handler
  that drives the state machine of \<open>Dfu_Handler\<close>, and its service.

  \<open>dfu_answer\<close> says which operation completes each control request; the interpretation \<open>dfu_ep0\<close> gives
  the service its survival and its end.
\<close>

unbundle bit_operations_syntax

subsection \<open>DFU over endpoint zero\<close>

text \<open>The DFU task: the rest of the program, the state machine, and what the other tasks do meanwhile.\<close>

record dfu_task =
  dworld :: world
  dfu :: Dfu
  dsched :: "nat \<Rightarrow> env_action list"
  dnow :: nat

definition dfu_others :: "dfu_task \<Rightarrow> dfu_task" where
  "dfu_others t = t\<lparr>dworld := env_run (dsched t (dnow t)) (dworld t), dnow := Suc (dnow t)\<rparr>"

definition dfu_call :: "(world \<Rightarrow> Dfu \<Rightarrow> world \<times> Dfu \<times> 'a outcome) \<Rightarrow> (dfu_task Custom, 'a) prog" where
  "dfu_call f c =
    (case f (dworld (hnd c)) (dfu (hnd c)) of
       (w, d, r) \<Rightarrow> Some (c\<lparr>hnd := (hnd c)\<lparr>dworld := w, dfu := d\<rparr>\<rparr>, r))"

definition dfu_reset :: "(dfu_task Custom, unit) prog" where
  "dfu_reset = dfu_call (\<lambda>w d. let (w, d) = reset_on_idle_timeout w d in (w, d, Ok ()))"

text \<open>Whether \<open>receive_dnload_block\<close> gets as far as the data stage.\<close>

definition wants_data :: "dfu_task \<Rightarrow> bool" where
  "wants_data t =
    (case poll (dworld t) (dfu t) of
       (w, d, Ok _) \<Rightarrow> \<not> is_finishing d \<and> sink d \<noteq> None
     | _ \<Rightarrow> False)"

text \<open>
  \<open>receive_dnload_block\<close> with its request: the data stage is read when the state machine gets that
  far; otherwise the request is dropped when the method returns.
\<close>

definition dfu_receive :: "CtrlReq \<Rightarrow> (dfu_task Custom, unit) prog" where
  "dfu_receive ctrl =
    (let len = unat (req_length ctrl) in
     andthen (query (\<lambda>c. wants_data (hnd c))) (\<lambda>wants.
       if wants then
         andthen (attempt (recv_with (ep0_read len))) (\<lambda>rcv.
         andthen (query (\<lambda>c. dsched (hnd c) (dnow (hnd c)))) (\<lambda>as.
         andthen (modify (\<lambda>c. c\<lparr>hnd := (hnd c)\<lparr>dnow := Suc (dnow (hnd c))\<rparr>\<rparr>)) (\<lambda>_.
           dfu_call (receive_dnload_block len as rcv))))
       else
         andthen (attempt (dfu_call (receive_dnload_block len [] (Inr [])))) (\<lambda>r.
         andthen drop_receiver (\<lambda>_. of_result r))))"

definition unless_closed :: "(dfu_task Custom, unit) prog \<Rightarrow> io_error \<Rightarrow> (dfu_task Custom, unit) prog" where
  "unless_closed m err = (if is_closed_transport_error err then m else raise err)"

definition dfu_handle_event :: "Event \<Rightarrow> (dfu_task Custom, unit) prog" where
  "dfu_handle_event event =
    (case event of
       SetupHostToDevice ctrl \<Rightarrow>
         if \<not> is_dfu_request ctrl then andthen (attempt (recv_all_async ctrl)) (\<lambda>_. ret ())
         else if request ctrl = DNLOAD \<and> req_length ctrl \<noteq> 0 then
           andthen (attempt (dfu_receive ctrl)) (\<lambda>r.
             case r of Inr _ \<Rightarrow> ret () | Inl err \<Rightarrow> unless_closed dfu_reset err)
         else
           andthen (attempt (recv_all_async ctrl)) (\<lambda>r.
             case r of Inr _ \<Rightarrow> dfu_call (handle_out ctrl) | Inl err \<Rightarrow> unless_closed dfu_reset err)
     | SetupDeviceToHost ctrl \<Rightarrow>
         if \<not> is_dfu_request ctrl then andthen (attempt (send_async [])) (\<lambda>_. ret ())
         else
           andthen (attempt (dfu_call (handle_in ctrl))) (\<lambda>reply.
             case reply of
               Inl err \<Rightarrow> andthen drop_sender (\<lambda>_. raise err)
             | Inr response \<Rightarrow>
                 andthen (attempt (send_async (as_slice response))) (\<lambda>r.
                   case r of Inr _ \<Rightarrow> ret () | Inl err \<Rightarrow> unless_closed (ret ()) err))
     | Disable \<Rightarrow> dfu_reset
     | Unbind \<Rightarrow> dfu_reset
     | _ \<Rightarrow> ret ())"

definition dfu_handler :: "dfu_task event_handler" where
  "dfu_handler = \<lparr>handle_event = dfu_handle_event, on_transport_closed = dfu_reset,
     idle_timeout = (\<lambda>t. dfu_idle_timeout (dfu t)), on_idle_timeout = dfu_reset\<rparr>"

definition dfu_serve :: "nat \<Rightarrow> DfuConfig \<Rightarrow> ep0_io list \<Rightarrow> (nat \<Rightarrow> env_action list) \<Rightarrow> world
    \<Rightarrow> (dfu_task Custom \<times> unit outcome) option" where
  "dfu_serve n cfg script sc w =
    ffs_serve n dfu_handler \<lparr>ep0_open = True, setup_event = None, ep0_script = script, ep0_log = [],
      others = dfu_others, hnd = \<lparr>dworld = w, dfu = dfu_new cfg, dsched = sc, dnow = 0\<rparr>\<rparr>"

subsection \<open>Notions for the properties\<close>

text \<open>What the host sees of a control request: the operation on endpoint zero that completes it.\<close>

definition dfu_answer :: "dfu_task \<Rightarrow> Event \<Rightarrow> ep0_op list" where
  "dfu_answer t event =
    (case event of
       SetupHostToDevice ctrl \<Rightarrow>
         [if is_dfu_request ctrl \<and> request ctrl = DNLOAD \<and> req_length ctrl \<noteq> 0 \<and> \<not> wants_data t
          then OpWrite [0] else OpRead (unat (req_length ctrl))]
     | SetupDeviceToHost ctrl \<Rightarrow>
         [if is_dfu_request ctrl then
            (case handle_in ctrl (dworld t) (dfu t) of
               (_, _, Ok reply) \<Rightarrow> OpWrite (as_slice reply) | _ \<Rightarrow> OpRead 1)
          else OpWrite []]
     | _ \<Rightarrow> [])"

text \<open>The request an event carries is the one endpoint zero waits for.\<close>

definition announced :: "Event \<Rightarrow> 'h Custom \<Rightarrow> bool" where
  "announced event c \<longleftrightarrow> setup_event c =
    (case event of SetupHostToDevice _ \<Rightarrow> Some HostToDevice | SetupDeviceToHost _ \<Rightarrow> Some DeviceToHost | _ \<Rightarrow> None)"

definition dfu_task_inv :: "dfu_task \<Rightarrow> bool" where
  "dfu_task_inv t \<longleftrightarrow> dfu_inv (dworld t) (dfu t)"

definition dfu_custom :: "DfuConfig \<Rightarrow> ep0_io list \<Rightarrow> (nat \<Rightarrow> env_action list) \<Rightarrow> world \<Rightarrow> dfu_task Custom" where
  "dfu_custom cfg script sc w = \<lparr>ep0_open = True, setup_event = None, ep0_script = script, ep0_log = [],
      others = dfu_others, hnd = \<lparr>dworld = w, dfu = dfu_new cfg, dsched = sc, dnow = 0\<rparr>\<rparr>"

definition does :: "('h Custom, 'a) prog \<Rightarrow> ep0_op list \<Rightarrow> bool" where
  "does m ops \<longleftrightarrow> (\<forall>c. wp m (\<lambda>c' r. ep0_log c' = ep0_log c @ ops \<and> setup_event c' = setup_event c) c)"

definition demo_ep0 :: "dfu_task Custom" where
  "demo_ep0 = (dfu_custom demo_config [Done []] (\<lambda>_. []) idle_world)\<lparr>setup_event := Some DeviceToHost\<rparr>"

lemma tame_dfu_call:
  assumes "\<And>w d w' d' r. dfu_inv w d \<Longrightarrow> f w d = (w', d', r) \<Longrightarrow> dfu_inv w' d' \<and> r \<noteq> Panic"
  shows "tame dfu_task_inv (dfu_call f)"
  using assms by (auto simp: tame_def wp_def dfu_call_def dfu_task_inv_def consumes_def split: prod.split)

lemma dfu_others_inv: "dfu_task_inv t \<Longrightarrow> dfu_task_inv (dfu_others t)"
  by (simp add: dfu_task_inv_def dfu_others_def env_run_dfu_inv)

lemma tame_dfu_reset [tame_intros]: "tame dfu_task_inv dfu_reset"
  unfolding dfu_reset_def
proof (rule tame_dfu_call)
  fix w d w' d' and r :: "unit outcome"
  assume "dfu_inv w d" "(let (w, d) = reset_on_idle_timeout w d in (w, d, Ok ())) = (w', d', r)"
  then show "dfu_inv w' d' \<and> r \<noteq> Panic"
    using abort_transfer_inv [OF dfu_inv_arena, of w d d] by (auto simp: reset_is_abort split: prod.splits)
qed

lemma tame_dfu_receive [tame_intros]: "tame dfu_task_inv (dfu_receive ctrl)"
proof -
  have "tame dfu_task_inv (modify (\<lambda>c. c\<lparr>hnd := (hnd c)\<lparr>dnow := Suc (dnow (hnd c))\<rparr>\<rparr>))"
    by (simp add: tame_def dfu_task_inv_def consumes_def)
  then show ?thesis
    unfolding dfu_receive_def Let_def
    by (intro tame_intros tame_dfu_call receive_inv)
qed

lemma tame_dfu_handle: "tame dfu_task_inv (dfu_handle_event e)"
  unfolding dfu_handle_event_def unless_closed_def
  by (intro tame_intros tame_dfu_call handle_out_inv handle_in_inv)

interpretation dfu_ep0: ep0_handler dfu_handler dfu_task_inv
  by unfold_locales (simp_all add: dfu_handler_def tame_dfu_handle tame_dfu_reset)

subsection \<open>Answers\<close>

lemma does_syscall: "does (ep0_syscall op) [op]"
  by (simp add: does_def wp_def ep0_syscall_def split: option.split)

lemma does_then:
  assumes "does m ops" "\<And>x. does (f x) []"
  shows "does (andthen m f) ops"
  unfolding does_def
proof (intro allI, rule wp_bind)
  show "wp m (\<lambda>c' r. ep0_log c' = ep0_log c @ ops \<and> setup_event c' = setup_event c) c" for c
    using assms(1) by (simp add: does_def)
  show "wp (f x) (\<lambda>c' r. ep0_log c' = ep0_log c @ ops \<and> setup_event c' = setup_event c) c'"
    if "ep0_log c' = ep0_log c @ ops \<and> setup_event c' = setup_event c" for c c' x
    using that by (intro wp_mono [OF assms(2) [unfolded does_def, rule_format]]) auto
qed auto

lemma does_nothing: "does (ret x) []" "does (query g) []" "does (raise e) []"
  by (simp_all add: does_def)

lemma does_of_result: "does (of_result r) []"
  by (cases r) (simp_all add: does_nothing)

lemma does_run_others: "does run_others []"
  by (simp add: does_def run_others_def)

lemma does_dfu_call: "does (dfu_call f) []"
  by (simp add: does_def wp_def dfu_call_def split: prod.split)

lemma does_attempt: "does m ops \<Longrightarrow> does (attempt m) ops"
  unfolding does_def wp_attempt by (intro allI, erule allE, erule wp_mono) (simp split: outcome.split)

lemma does_ops: "does (ep0_read n) [OpRead n]" "does (ep0_write xs) [OpWrite xs]"
  unfolding ep0_read_def ep0_write_def by (intro does_then does_syscall does_nothing)+

lemma does_await: "does m ops \<Longrightarrow> does (ep0_await m) ops"
  unfolding ep0_await_def by (intro does_then does_attempt does_run_others does_of_result)

lemma doesD: "does m ops \<Longrightarrow> m c = Some (c', r) \<Longrightarrow> ep0_log c' = ep0_log c @ ops \<and> setup_event c' = setup_event c"
  unfolding does_def by (auto dest: wpD)

text \<open>A transfer consumes its request, so that dropping it does nothing more.\<close>

lemma wp_recv_with:
  assumes "does m [op]" "ep0_open c"
  shows "wp (recv_with m) (\<lambda>c' r. ep0_log c' = ep0_log c @ [op]) c"
proof -
  have "wp m (\<lambda>c' r. ep0_log c' = ep0_log c @ [op] \<and> setup_event c' = None) (c\<lparr>setup_event := None\<rparr>)"
    using assms(1) [unfolded does_def, rule_format, of "c\<lparr>setup_event := None\<rparr>"] by simp
  then have "wp (attempt (andthen ep0 (\<lambda>_. andthen (set_setup None) (\<lambda>_. m))))
      (\<lambda>c' r. ep0_log c' = ep0_log c @ [op] \<and> setup_event c' = None) c"
    unfolding wp_attempt using assms(2) by (simp add: set_setup_def) (erule wp_mono, simp split: outcome.split)
  then show ?thesis
    unfolding recv_with_def
  proof (rule wp_bind)
    show "wp (andthen drop_receiver (\<lambda>_. of_result r)) (\<lambda>c' r. ep0_log c' = ep0_log c @ [op]) c'"
      if "ep0_log c' = ep0_log c @ [op] \<and> setup_event c' = None" for c' r
      using that by (cases r) (simp_all add: drop_receiver_def wp_andthen)
  qed auto
qed

lemma wp_send_async:
  assumes "ep0_open c"
  shows "wp (send_async xs) (\<lambda>c' r. ep0_log c' = ep0_log c @ [OpWrite xs]) c"
proof -
  note d = does_await [OF does_ops(2), unfolded does_def, rule_format, of xs "c\<lparr>setup_event := None\<rparr>"]
  have "wp (ep0_await (ep0_write xs)) (\<lambda>c' r. ep0_log c' = ep0_log c @ [OpWrite xs] \<and> setup_event c' = None)
      (c\<lparr>setup_event := None\<rparr>)"
    using d by simp
  then have "wp (attempt (andthen ep0 (\<lambda>_. andthen (set_setup None) (\<lambda>_. ep0_await (ep0_write xs)))))
      (\<lambda>c' r. ep0_log c' = ep0_log c @ [OpWrite xs] \<and> setup_event c' = None) c"
    unfolding wp_attempt using assms by (simp add: set_setup_def) (erule wp_mono, simp split: outcome.split)
  then show ?thesis
    unfolding send_async_def
  proof (rule wp_bind)
    show "wp (andthen drop_sender (\<lambda>_. of_result r)) (\<lambda>c' r. ep0_log c' = ep0_log c @ [OpWrite xs]) c'"
      if "ep0_log c' = ep0_log c @ [OpWrite xs] \<and> setup_event c' = None" for c' r
      using that by (cases r) (simp_all add: drop_sender_def wp_andthen)
  qed auto
qed

lemma wp_halting:
  assumes "does m [op]" "ep0_open c"
  shows "wp (attempt (andthen ep0 (\<lambda>_. andthen (halting m) (\<lambda>_. set_setup None)))) (\<lambda>c' r. ep0_log c' = ep0_log c @ [op]) c"
proof -
  have "wp (halting m) (\<lambda>c' r. ep0_log c' = ep0_log c @ [op]) c"
    unfolding halting_def wp_andthen wp_attempt
    by (rule wp_mono [OF assms(1) [unfolded does_def, rule_format]]) (auto split: outcome.split)
  then show ?thesis
    unfolding wp_attempt run_ep0 wp_andthen [of "halting m"] using assms(2)
    by (simp add: set_setup_def) (erule wp_mono, simp split: outcome.split)
qed

lemma wp_drop:
  assumes "ep0_open c" "setup_event c \<noteq> None"
  shows "wp drop_receiver (\<lambda>c' r. ep0_log c' = ep0_log c @ [OpWrite [0]]) c"
    "wp drop_sender (\<lambda>c' r. ep0_log c' = ep0_log c @ [OpRead 1]) c"
  using assms wp_halting [OF does_ops(1), of c 1] wp_halting [OF does_ops(2), of c "[0]"]
  by (simp_all add: drop_receiver_def drop_sender_def sender_do_halt_def receiver_do_halt_def wp_andthen)
    (erule wp_mono, simp split: outcome.split)+

lemma wp_after:
  assumes "does m []" "\<And>c' x. ep0_log c' = ep0_log c \<Longrightarrow> setup_event c' = setup_event c \<Longrightarrow> m c = Some (c', Ok x) \<Longrightarrow>
      wp (f x) (\<lambda>c'' r. ep0_log c'' = ep0_log c @ ops) c'" "\<And>c'. m c \<noteq> Some (c', Panic)" "\<And>c' e. m c \<noteq> Some (c', Err e)"
  shows "wp (andthen m f) (\<lambda>c' r. ep0_log c' = ep0_log c @ ops) c"
  using assms(2-) doesD [OF assms(1), of c] unfolding wp_andthen
  by (intro wpI) (auto split: outcome.split)

lemma wp_log_tail:
  assumes "wp m (\<lambda>c' r. ep0_log c' = ep0_log c @ ops) c" "\<And>x. does (f x) []"
  shows "wp (andthen m f) (\<lambda>c' r. ep0_log c' = ep0_log c @ ops) c"
proof (rule wp_bind [OF assms(1)])
  show "wp (f x) (\<lambda>c' r. ep0_log c' = ep0_log c @ ops) c'" if "ep0_log c' = ep0_log c @ ops" for c' x
    by (rule wp_mono [OF assms(2) [unfolded does_def, rule_format]]) (use that in simp)
qed auto

lemma wp_log_attempt:
  "wp m (\<lambda>c' r. ep0_log c' = ep0_log c @ ops) c \<Longrightarrow> wp (attempt m) (\<lambda>c' r. ep0_log c' = ep0_log c @ ops) c"
  unfolding wp_attempt by (erule wp_mono) (simp split: outcome.split)

lemma does_dfu_reset: "does dfu_reset []"
  unfolding dfu_reset_def by (rule does_dfu_call)

lemma wp_recv_all:
  "ep0_open c \<Longrightarrow> wp (recv_all_async ctrl) (\<lambda>c' r. ep0_log c' = ep0_log c @ [OpRead (unat (req_length ctrl))]) c"
  unfolding recv_all_async_def recv_async_def by (intro wp_recv_with does_await does_ops)

lemma wp_attempt_dfu:
  assumes "snd (snd (f (dworld (hnd c)) (dfu (hnd c)))) \<noteq> Panic"
    "\<And>c' v. ep0_open c' = ep0_open c \<Longrightarrow> setup_event c' = setup_event c \<Longrightarrow> ep0_log c' = ep0_log c \<Longrightarrow>
       v = (case snd (snd (f (dworld (hnd c)) (dfu (hnd c)))) of Ok x \<Rightarrow> Inr x | Err e \<Rightarrow> Inl e) \<Longrightarrow> wp (k v) Q c'"
  shows "wp (andthen (attempt (dfu_call f)) k) Q c"
proof -
  obtain w d r where h: "f (dworld (hnd c)) (dfu (hnd c)) = (w, d, r)"
    by (cases "f (dworld (hnd c)) (dfu (hnd c))")
  let ?c = "c\<lparr>hnd := (hnd c)\<lparr>dworld := w, dfu := d\<rparr>\<rparr>"
  have "andthen (attempt (dfu_call f)) k c = (case r of Ok x \<Rightarrow> k (Inr x) ?c | Err e \<Rightarrow> k (Inl e) ?c)"
    using assms(1) h by (cases r) (simp_all add: andthen_def attempt_def dfu_call_def)
  then show ?thesis
    using assms(1) assms(2) [of ?c] h by (cases r) (simp_all add: wp_def)
qed

lemma wp_dfu_receive:
  assumes "ep0_open c" "setup_event c \<noteq> None" "dfu_task_inv (hnd c)"
  shows "wp (dfu_receive ctrl) (\<lambda>c' r. ep0_log c' = ep0_log c @
    [if wants_data (hnd c) then OpRead (unat (req_length ctrl)) else OpWrite [0]]) c"
proof (cases "wants_data (hnd c)")
  case True
  have tick: "does (modify (\<lambda>c. c\<lparr>hnd := (hnd c)\<lparr>dnow := Suc (dnow (hnd c))\<rparr>\<rparr>)) []"
    by (simp add: does_def)
  have "wp (attempt (recv_with (ep0_read n))) (\<lambda>c' r. ep0_log c' = ep0_log c @ [OpRead n]) c" for n
    by (intro wp_log_attempt wp_recv_with does_ops assms)
  then show ?thesis
    using True unfolding dfu_receive_def Let_def wp_steps
    by simp (intro wp_log_tail does_then does_nothing does_dfu_call tick, simp)
next
  case False
  let ?f = "receive_dnload_block (unat (req_length ctrl)) [] (Inr [])"
  have "snd (snd (?f (dworld (hnd c)) (dfu (hnd c)))) \<noteq> Panic"
    using receive_inv [OF assms(3) [unfolded dfu_task_inv_def]] by (metis prod.collapse)
  then have "wp (andthen (attempt (dfu_call ?f)) (\<lambda>r. andthen drop_receiver (\<lambda>_. of_result r)))
      (\<lambda>c' r. ep0_log c' = ep0_log c @ [OpWrite [0]]) c"
  proof (rule wp_attempt_dfu)
    show "wp (andthen drop_receiver (\<lambda>_. of_result v)) (\<lambda>c' r. ep0_log c' = ep0_log c @ [OpWrite [0]]) c'"
      if "ep0_open c' = ep0_open c" "setup_event c' = setup_event c" "ep0_log c' = ep0_log c" for c' v
      using wp_log_tail [OF wp_drop(1) does_of_result, of c'] that assms(1,2) by simp
  qed
  then show ?thesis
    using False unfolding dfu_receive_def Let_def wp_steps by simp
qed

lemma wp_dfu_in:
  assumes "ep0_open c" "setup_event c \<noteq> None" "dfu_task_inv (hnd c)" "is_dfu_request ctrl"
  shows "wp (dfu_handle_event (SetupDeviceToHost ctrl)) (\<lambda>c' r. ep0_log c' = ep0_log c @ dfu_answer (hnd c) (SetupDeviceToHost ctrl)) c"
proof -
  obtain w d r where h: "handle_in ctrl (dworld (hnd c)) (dfu (hnd c)) = (w, d, r)"
    by (cases "handle_in ctrl (dworld (hnd c)) (dfu (hnd c))")
  then have np: "r \<noteq> Panic"
    using handle_in_inv [OF assms(3) [unfolded dfu_task_inv_def] h] by simp
  have send: "wp (andthen (attempt (send_async xs)) (\<lambda>r. case r of Inr _ \<Rightarrow> ret () | Inl err \<Rightarrow> unless_closed (ret ()) err))
      (\<lambda>c' r. ep0_log c' = ep0_log c @ [OpWrite xs]) c'" if "ep0_open c'" "ep0_log c' = ep0_log c" for c' xs
  proof -
    have "does (case v of Inr _ \<Rightarrow> ret () | Inl err \<Rightarrow> unless_closed (ret ()) err) []" for v :: "io_error + nat"
      by (cases v) (simp_all add: unless_closed_def does_nothing)
    from wp_log_tail [OF wp_log_attempt [OF wp_send_async [OF that(1)]] this] show ?thesis
      using that(2) by simp
  qed
  have "wp (andthen (attempt (dfu_call (handle_in ctrl))) (\<lambda>reply.
      case reply of Inl err \<Rightarrow> andthen drop_sender (\<lambda>_. raise err)
      | Inr response \<Rightarrow> andthen (attempt (send_async (as_slice response))) (\<lambda>r.
          case r of Inr _ \<Rightarrow> ret () | Inl err \<Rightarrow> unless_closed (ret ()) err)))
    (\<lambda>c' r. ep0_log c' = ep0_log c @ dfu_answer (hnd c) (SetupDeviceToHost ctrl)) c"
  proof (rule wp_attempt_dfu)
    fix c' :: "dfu_task Custom" and v
    assume c': "ep0_open c' = ep0_open c" "setup_event c' = setup_event c" "ep0_log c' = ep0_log c"
      "v = (case snd (snd (handle_in ctrl (dworld (hnd c)) (dfu (hnd c)))) of Ok x \<Rightarrow> Inr x | Err e \<Rightarrow> Inl e)"
    show "wp (case v of Inl err \<Rightarrow> andthen drop_sender (\<lambda>_. raise err)
      | Inr response \<Rightarrow> andthen (attempt (send_async (as_slice response))) (\<lambda>r.
          case r of Inr _ \<Rightarrow> ret () | Inl err \<Rightarrow> unless_closed (ret ()) err))
    (\<lambda>c' r. ep0_log c' = ep0_log c @ dfu_answer (hnd c) (SetupDeviceToHost ctrl)) c'"
      using np c' assms(1,2,4) h send [of c'] wp_log_tail [OF wp_drop(2) does_nothing(3), of c']
      by (cases r) (simp_all add: dfu_answer_def)
  qed (use h np in simp)
  then show ?thesis
    using assms(4) by (simp add: dfu_handle_event_def)
qed

lemma wp_dfu_out:
  assumes "ep0_open c" "setup_event c \<noteq> None" "dfu_task_inv (hnd c)"
  shows "wp (dfu_handle_event (SetupHostToDevice ctrl)) (\<lambda>c' r. ep0_log c' = ep0_log c @ dfu_answer (hnd c) (SetupHostToDevice ctrl)) c"
proof -
  have rest: "does (case v of Inr x \<Rightarrow> g x | Inl err \<Rightarrow> unless_closed dfu_reset err) []" if "\<And>x. does (g x) []"
    for v :: "io_error + 'x" and g
    using that by (cases v) (simp_all add: unless_closed_def does_nothing does_dfu_reset)
  note all = wp_log_attempt [OF wp_recv_all [OF assms(1), of ctrl]]
  show ?thesis
    using wp_log_tail [OF all does_nothing(1)] wp_log_tail [OF all rest [OF does_dfu_call]]
      wp_log_tail [OF wp_log_attempt [OF wp_dfu_receive [OF assms, of ctrl]] rest [OF does_nothing(1)]]
    by (auto simp: dfu_handle_event_def dfu_answer_def)
qed

text \<open>
  C17. Every event is answered on endpoint zero exactly as the protocol asks: a control request is completed by
  one operation (the data stage, the reply of the state machine, or a stall when the state machine
  refuses), and other events by none.
\<close>

theorem dfu_control_answered:
  assumes "ep0_open c" "announced event c" "dfu_task_inv (hnd c)" "dfu_handle_event event c = Some (c', r)"
  shows "ep0_log c' = ep0_log c @ dfu_answer (hnd c) event"
proof (cases event)
  case (SetupHostToDevice ctrl)
  then show ?thesis
    using wpD [OF wp_dfu_out [OF assms(1) _ assms(3), of ctrl]] assms(2,4) by (simp add: announced_def)
next
  case (SetupDeviceToHost ctrl)
  show ?thesis
  proof (cases "is_dfu_request ctrl")
    case True
    then show ?thesis
      using wpD [OF wp_dfu_in [OF assms(1) _ assms(3), of ctrl]] assms(2,4) SetupDeviceToHost
      by (simp add: announced_def)
  next
    case False
    then show ?thesis
      using wpD [OF wp_log_tail [OF wp_log_attempt [OF wp_send_async [OF assms(1)]] does_nothing(1)]]
        assms(4) SetupDeviceToHost by (simp add: dfu_answer_def dfu_handle_event_def)
  qed
qed (use assms(4) doesD [OF does_dfu_reset, of c c' r] in \<open>auto simp: dfu_handle_event_def dfu_answer_def ret_def\<close>)

text \<open>
  C12. The DFU service stays up as long as the gadget does: whatever the host sends and whatever fails short of
  the gadget going away, the event loop neither ends nor panics.
\<close>

theorem dfu_service_survives:
  assumes "arena_wf w" "lasting script"
  shows "dfu_serve n cfg script sc w = None"
proof -
  let ?c = "dfu_custom cfg script sc w"
  have "dfu_task_inv (hnd ?c)" "stays ?c"
    using assms by (simp_all add: dfu_custom_def dfu_task_inv_def dfu_inv_def dfu_new_def session_new_inv stays_def)
  then have "serve_loop n dfu_handler ?c = None"
    by (intro dfu_ep0.loop_survives) (simp_all add: dfu_custom_def dfu_others_inv)
  then show ?thesis
    by (simp add: dfu_serve_def dfu_custom_def ffs_serve_def ep0_def prog_defs)
qed

lemma wp_reset: "wp (attempt dfu_reset) (\<lambda>c' r. reset_dfu (dfu (hnd c')) = dfu (hnd c')) c"
proof -
  have "reset_dfu (snd (abort_transfer w d)) = snd (abort_transfer w d)" for w d
    by (simp add: abort_transfer_frame reset_dfu_def)
  then show ?thesis
    by (auto simp: wp_def attempt_def dfu_reset_def dfu_call_def reset_is_abort split: prod.split)
      (metis snd_conv)
qed

lemma wp_dfu_turn: "wp (serve_turn dfu_handler) (\<lambda>c' r. r = Ok False \<longrightarrow> reset_dfu (dfu (hnd c')) = dfu (hnd c')) c"
proof -
  have any: "wp m (\<lambda>c' r. True) c" for m :: "(dfu_task Custom, 'x) prog" and c
    by (simp add: wp_def split: option.split)
  have closed: "wp (andthen (attempt (on_transport_closed dfu_handler)) (\<lambda>_. ret False))
      (\<lambda>c' r. r = Ok False \<longrightarrow> reset_dfu (dfu (hnd c')) = dfu (hnd c')) c" for c
    unfolding dfu_handler_def event_handler.select_convs by (rule wp_bind [OF wp_reset]) auto
  have other: "wp (andthen m (\<lambda>_. ret True)) (\<lambda>c' r. r = Ok False \<longrightarrow> reset_dfu (dfu (hnd c')) = dfu (hnd c')) c"
    for m :: "(dfu_task Custom, 'x) prog" and c
    by (rule wp_bind [OF any]) auto
  show ?thesis
    unfolding serve_turn_def wp_steps
    by (rule wp_bind [OF any]) (auto split: sum.split intro: closed other)
qed

lemma brief_dfu [brief_intros]: "brief (dfu_call f)" "brief dfu_reset"
  by (auto simp: brief_def returns_def dfu_reset_def dfu_call_def ending_def split: prod.split)

lemma brief_dfu_handle: "brief (dfu_handle_event e)"
proof -
  have "brief (modify (\<lambda>c. c\<lparr>hnd := (hnd c)\<lparr>dnow := Suc (dnow (hnd c))\<rparr>\<rparr>))"
    by (simp add: brief_def ending_def)
  then show ?thesis
    unfolding dfu_handle_event_def unless_closed_def dfu_receive_def Let_def by (intro brief_intros)
qed

lemma wp_dfu_loop: "wp (serve_loop n dfu_handler) (\<lambda>c' r. r = Ok () \<longrightarrow> reset_dfu (dfu (hnd c')) = dfu (hnd c')) c"
proof (induction n arbitrary: c)
  case (Suc n)
  show ?case
    unfolding serve_loop.simps by (rule wp_bind [OF wp_dfu_turn]) (auto intro: Suc)
qed simp

text \<open>
  C22. When the gadget is removed, the DFU service ends, and it leaves the state machine idle with nothing held
  and a fresh session.
\<close>

theorem dfu_service_ends_reset:
  assumes "arena_wf w" "length script + 2 < n"
  shows "\<exists>c'. dfu_serve n cfg (script @ [Gone, Fault (Os ENODEV)]) sc w = Some (c', Ok ()) \<and>
    reset_dfu (dfu (hnd c')) = dfu (hnd c')"
proof -
  let ?c = "dfu_custom cfg (script @ [Gone, Fault (Os ENODEV)]) sc w"
  have br: "brief (handle_event dfu_handler e)" for e
    by (simp add: dfu_handler_def brief_dfu_handle)
  have "dfu_task_inv (hnd ?c)" "ending ?c" "length (ep0_script ?c) < n"
    using assms by (simp_all add: dfu_custom_def dfu_task_inv_def dfu_inv_def dfu_new_def session_new_inv ending_def)
  then have "returns (serve_loop n dfu_handler) (\<lambda>c' r. r = Ok ()) ?c"
    by (intro dfu_ep0.loop_ends br) (simp_all add: dfu_custom_def dfu_others_inv dfu_handler_def brief_dfu)
  from returnsD [OF returns_conj [OF this wp_dfu_loop]] show ?thesis
    by (auto simp: dfu_serve_def dfu_custom_def ffs_serve_def ep0_def prog_defs)
qed

theorem dfu_control_answered_witness:
  "\<exists>c' r. dfu_handle_event (SetupDeviceToHost (dfu_request GETSTATE)) demo_ep0 = Some (c', r) \<and>
     ep0_log c' = [OpWrite [2]]"
proof -
  let ?e = "SetupDeviceToHost (dfu_request GETSTATE)"
  have "dfu_handle_event ?e demo_ep0 \<noteq> None"
    by (simp add: demo_ep0_def dfu_custom_def dfu_handle_event_def is_dfu_request_def dfu_request_def handle_in_def poll_def
      push_pending_def poll_verdict_def poll_apply_def push_eof_def dfu_new_def is_open_def dfu_call_def send_async_def
      ep0_def set_setup_def ep0_await_def ep0_write_def ep0_syscall_def run_others_def drop_sender_def prog_defs)
  then obtain c' r where run: "dfu_handle_event ?e demo_ep0 = Some (c', r)"
    by auto
  have "ep0_log c' = ep0_log demo_ep0 @ dfu_answer (hnd demo_ep0) ?e"
    by (rule dfu_control_answered [OF _ _ _ run])
      (simp_all add: demo_ep0_def dfu_custom_def announced_def dfu_task_inv_def dfu_inv_def dfu_new_def session_new_inv
        idle_world_def arena_wf_def)
  then show ?thesis
    using run by (simp add: demo_ep0_def dfu_custom_def dfu_answer_def is_dfu_request_def dfu_request_def handle_in_def poll_def
      push_pending_def poll_verdict_def poll_apply_def push_eof_def dfu_new_def from_state_def is_open_def eval_nat_numeral)
qed

theorem dfu_service_survives_witness:
  "dfu_serve 10 demo_config [Done (replicate 8 0 @ [2, 0, 0, 0]), Fault (Os EIDRM), Silence, Fault (Os EINTR)]
     (\<lambda>_. []) idle_world = None"
  by (rule dfu_service_survives)
    (simp_all add: idle_world_def arena_wf_def lasting_def is_torn_down_transport_error_def decode_error_kind_def)

theorem dfu_service_ends_reset_witness:
  "\<exists>c'. dfu_serve 4 demo_config ([Done (replicate 8 0 @ [2, 0, 0, 0])] @ [Gone, Fault (Os ENODEV)]) (\<lambda>_. []) idle_world =
     Some (c', Ok ()) \<and> reset_dfu (dfu (hnd c')) = dfu (hnd c')"
  by (rule dfu_service_ends_reset) (simp_all add: idle_world_def arena_wf_def)

end
