(* ===== verification/Fastboot_Proto.thy ===== *)
theory Fastboot_Proto
  imports Boot_Info
begin

text \<open>
  Transport-independent fastboot and FBK vocabulary (\<^verbatim>\<open>crates/summit-usbgadget-fastboot-proto\<close>): reply
  tokens, the command parser, and the reply formatters.  The system information a reply quotes (model
  name, JSON document) and the boot information are arguments.
\<close>

subsection \<open>Replies\<close>

definition OKAY :: bytes where "OKAY = ascii ''OKAY''"
definition FAIL_BADSIZE :: bytes where "FAIL_BADSIZE = ascii ''FAILbad size''"
definition FAIL_CLOSE :: bytes where "FAIL_CLOSE = ascii ''FAILclose''"
definition FAIL_CMD :: bytes where "FAIL_CMD = ascii ''FAILunknown command''"
definition FAIL_EPIPE :: bytes where "FAIL_EPIPE = ascii ''FAILwrite failed''"
definition FAIL_FLASH :: bytes where "FAIL_FLASH = ascii ''FAILflash before download''"
definition FAIL_NOTOPEN :: bytes where "FAIL_NOTOPEN = ascii ''FAILnot open''"
definition FAIL_OPEN :: bytes where "FAIL_OPEN = ascii ''FAILopen failed''"
definition FAIL_UNKNOWN_PART :: bytes where "FAIL_UNKNOWN_PART = ascii ''FAILpartition does not exist''"
definition INFO_WAIT_SWUPDATE :: bytes where "INFO_WAIT_SWUPDATE = ascii ''INFOwaiting for SWUpdate''"

lemmas reply_defs = OKAY_def FAIL_BADSIZE_def FAIL_CLOSE_def FAIL_CMD_def FAIL_EPIPE_def FAIL_FLASH_def
  FAIL_NOTOPEN_def FAIL_OPEN_def FAIL_UNKNOWN_PART_def INFO_WAIT_SWUPDATE_def

subsection \<open>Commands\<close>

datatype DownloadKind = Plain | Fastboot

datatype FetchTarget = Sysinfo | SysinfoJson

datatype ParsedCommand = WOpen | GetVar bytes | Fetch FetchTarget | FetchUnknownPart
  | Download nat DownloadKind | Flash | Close | Unsupported

abbreviation (input) "DOWNLOAD_SIZE_WIDTH \<equiv> (8 :: nat)"
abbreviation (input) "COLON \<equiv> (58 :: byte)"
abbreviation (input) "PERCENT \<equiv> (37 :: byte)"

definition is_padding_byte :: "byte \<Rightarrow> bool" where
  "is_padding_byte b \<longleftrightarrow> b = 0 \<or> is_ascii_whitespace b"

text \<open>\<^verbatim>\<open>slice.get(a..b)\<close>.\<close>

definition get_range :: "nat \<Rightarrow> nat \<Rightarrow> 'a list \<Rightarrow> 'a list option" where
  "get_range a b xs = (if a \<le> b \<and> b \<le> length xs then Some (take (b - a) (drop a xs)) else None)"

definition token_len :: "bytes \<Rightarrow> nat" where
  "token_len args = (case position is_padding_byte args of Some i \<Rightarrow> i | None \<Rightarrow> length args)"

definition parse_download :: "bytes \<Rightarrow> bytes \<Rightarrow> (ParsedCommand \<times> nat) option" where
  "parse_download name args =
    (let percent = (name = ascii ''download'' \<and> take 1 args = [PERCENT]);
         size_start = (if percent then 1 else 0)
     in case get_range size_start (size_start + DOWNLOAD_SIZE_WIDTH) args of
          None \<Rightarrow> None
        | Some raw \<Rightarrow>
            (case from_utf8 raw of
               None \<Rightarrow> None
             | Some sz \<Rightarrow>
                 (case from_str_radix 16 (2 ^ 64) sz of
                    None \<Rightarrow> None
                  | Some len \<Rightarrow>
                      Some (Download len (if percent then Fastboot else Plain),
                        size_start + DOWNLOAD_SIZE_WIDTH))))"

definition parse_getvar :: "bytes \<Rightarrow> (ParsedCommand \<times> nat) option" where
  "parse_getvar args =
    (let n = token_len args in
     case from_utf8 (take n args) of
       Some arg \<Rightarrow> if arg \<noteq> [] then Some (GetVar arg, n) else Some (Unsupported, n)
     | None \<Rightarrow> Some (Unsupported, n))"

definition parse_fetch :: "bytes \<Rightarrow> (ParsedCommand \<times> nat) option" where
  "parse_fetch args =
    (let n = token_len args in
     case from_utf8 (take n args) of
       None \<Rightarrow> None
     | Some arg \<Rightarrow>
         (let part = takeWhile (\<lambda>b. b \<noteq> COLON) arg in
          Some (if part = ascii ''sysinfo'' then Fetch Sysinfo
            else if part = ascii ''sysinfo.json'' then Fetch SysinfoJson
            else FetchUnknownPart, n)))"

definition parse_named :: "bytes \<Rightarrow> bytes \<Rightarrow> (ParsedCommand \<times> nat) option" where
  "parse_named name args =
    (if name = ascii ''download'' \<or> name = ascii ''donwload'' then parse_download name args
     else if name = ascii ''WOpen'' then Some (WOpen, token_len args)
     else if name = ascii ''getvar'' then parse_getvar args
     else if name = ascii ''fetch'' then parse_fetch args
     else if name = ascii ''flash'' then Some (Flash, token_len args)
     else Some (Unsupported, token_len args))"

definition parse_command :: "bytes \<Rightarrow> (ParsedCommand \<times> nat) option" where
  "parse_command xs =
    (case position (\<lambda>b. \<not> is_padding_byte b) xs of
       None \<Rightarrow> None
     | Some start \<Rightarrow>
        (let rest = drop start xs in
         case position (\<lambda>b. b = COLON) rest of
           Some colon \<Rightarrow>
             (case parse_named (take colon rest) (drop (colon + 1) rest) of
                None \<Rightarrow> None
              | Some (command, arg_len) \<Rightarrow> Some (command, start + (colon + 1 + arg_len)))
         | None \<Rightarrow>
             (let n = token_len rest in
              Some (if take n rest = ascii ''Close'' then Close else Unsupported, start + n))))"

subsection \<open>Formatting\<close>

definition data_header :: "nat \<Rightarrow> bytes" where
  "data_header n = ascii ''DATA'' @ fmt_hex_upper 8 n"

text \<open>\<open>fastboot_getvar_reply\<close>; \<open>model\<close> and \<open>json\<close> are the collected system information.\<close>

definition fastboot_getvar_reply :: "bytes \<Rightarrow> bytes \<Rightarrow> BootRootfsInfo \<Rightarrow> bytes \<Rightarrow> bytes \<Rightarrow> bytes option" where
  "fastboot_getvar_reply model json info arg serial =
    (if arg = ascii ''version'' then Some (ascii ''OKAY0.4'')
     else if arg = ascii ''max-download-size'' then Some (ascii ''OKAY400000000'')
     else if arg = ascii ''max-fetch-size'' then Some (ascii ''OKAY00010000'')
     else if arg = ascii ''product'' then Some (OKAY @ model)
     else if arg = ascii ''serialno'' then Some (OKAY @ serial)
     else if arg = ascii ''is-userspace'' then Some (ascii ''OKAYyes'')
     else if arg = ascii ''current-slot'' then map_option (\<lambda>side. OKAY @ side) (current_side_option info)
     else if arg = ascii ''slot-num'' then
       Some (OKAY @ fmt_dec (if is_single_slot info then 1 else 2))
     else if arg = ascii ''all'' then Some (ascii ''OKAYversion:0.4'')
     else if arg = ascii ''has-slot:update'' \<or> arg = ascii ''has-slot:swu'' then Some (ascii ''OKAYno'')
     else if arg = ascii ''is-logical:update'' \<or> arg = ascii ''is-logical:swu'' then Some (ascii ''OKAYno'')
     else if arg = ascii ''partition-type:update'' \<or> arg = ascii ''partition-type:swu'' then
       Some (ascii ''OKAYraw'')
     else if arg = ascii ''partition-size:update'' \<or> arg = ascii ''partition-size:swu'' then
       Some (ascii ''OKAY400000000'')
     else if arg = ascii ''partition-size:sysinfo'' \<or> arg = ascii ''partition-size:sysinfo.json'' then
       Some (OKAY @ fmt_hex_upper 8 (length json))
     else None)"

subsection \<open>Facts about the parser\<close>

lemma token_len_le: "token_len xs \<le> length xs"
  by (auto simp: token_len_def split: option.splits dest: position_le_length)

lemma token_len_pos: "xs \<noteq> [] \<Longrightarrow> \<not> is_padding_byte (hd xs) \<Longrightarrow> 0 < token_len xs"
  by (cases xs) (auto simp: token_len_def split: option.splits)

lemma parse_named_le: "parse_named name args = Some (c, n) \<Longrightarrow> n \<le> length args"
  using token_len_le [of args]
  by (auto simp: parse_named_def parse_download_def parse_getvar_def parse_fetch_def get_range_def Let_def
      split: if_splits option.splits)

lemma position_drop_hd:
  "position p xs = Some i \<Longrightarrow> drop i xs \<noteq> [] \<and> p (hd (drop i xs))"
  using position_SomeD [of p xs i] by (auto simp: hd_drop_conv_nth)

lemma parse_command_bounds:
  assumes "parse_command xs = Some (c, n)"
  shows "0 < n \<and> n \<le> length xs"
proof -
  obtain start where start: "position (\<lambda>b. \<not> is_padding_byte b) xs = Some start"
    using assms by (auto simp: parse_command_def split: option.splits)
  let ?rest = "drop start xs"
  have lt: "start < length xs" and hd: "?rest \<noteq> []" "\<not> is_padding_byte (hd ?rest)"
    using position_le_length [OF start] position_drop_hd [OF start] by simp_all
  show ?thesis
  proof (cases "position (\<lambda>b. b = COLON) ?rest")
    case None
    then show ?thesis
      using assms start lt token_len_pos [OF hd] token_len_le [of ?rest]
      by (auto simp: parse_command_def Let_def)
  next
    case (Some colon)
    then obtain a where a: "parse_named (take colon ?rest) (drop (colon + 1) ?rest) = Some (c, a)"
      "n = start + (colon + 1 + a)"
      using assms start by (auto simp: parse_command_def Let_def split: option.splits)
    then show ?thesis
      using parse_named_le [OF a(1)] position_le_length [OF Some] lt by simp
  qed
qed

lemma position_padding:
  "\<forall>b\<in>set pad. is_padding_byte b \<Longrightarrow> \<not> is_padding_byte x \<Longrightarrow>
   position (\<lambda>b. \<not> is_padding_byte b) (pad @ x # xs) = Some (length pad)"
  by (simp add: position_append position_None_iff [THEN iffD2])

lemma position_colon:
  "COLON \<notin> set name \<Longrightarrow> position (\<lambda>b. b = COLON) (name @ COLON # xs) = Some (length name)"
proof -
  assume "COLON \<notin> set name"
  then have "position (\<lambda>b. b = COLON) name = None"
    by (auto simp: position_None_iff)
  then show ?thesis
    by (simp add: position_append)
qed

lemma parse_command_named:
  assumes "\<forall>b\<in>set pad. is_padding_byte b" "name \<noteq> []" "\<not> is_padding_byte (hd name)" "COLON \<notin> set name"
  shows "parse_command (pad @ name @ COLON # args) =
    (case parse_named name args of None \<Rightarrow> None
     | Some (c, n) \<Rightarrow> Some (c, length pad + (length name + 1 + n)))"
proof -
  obtain x xs where name: "name = x # xs"
    using assms(2) by (cases name) auto
  have "position (\<lambda>b. \<not> is_padding_byte b) (pad @ name @ COLON # args) = Some (length pad)"
    using position_padding [OF assms(1)] assms(3) name by simp
  then show ?thesis
    using position_colon [OF assms(4), of args] by (simp add: parse_command_def)
qed

lemma take_append_exact: "length a = n \<Longrightarrow> take n (a @ b) = a"
  by simp

lemma hex_size_field:
  assumes "n < 2 ^ 32"
  shows "length (fmt_hex_upper 8 n) = 8" "from_utf8 (fmt_hex_upper 8 n) = Some (fmt_hex_upper 8 n)"
    "from_str_radix 16 (2 ^ 64) (fmt_hex_upper 8 n) = Some n" "hd (fmt_hex_upper 8 n) \<noteq> PERCENT"
    "fmt_hex_upper 8 n \<noteq> []"
proof -
  show len: "length (fmt_hex_upper 8 n) = 8"
    using assms by (intro length_fmt_hex_upper) simp
  show "from_utf8 (fmt_hex_upper 8 n) = Some (fmt_hex_upper 8 n)"
    using utf8_valid_ascii fmt_hex_upper_ascii by (simp add: from_utf8_def)
  show parse: "from_str_radix 16 (2 ^ 64) (fmt_hex_upper 8 n) = Some n"
    using assms by (intro from_str_radix_fmt_hex_upper) simp_all
  show ne: "fmt_hex_upper 8 n \<noteq> []"
    using len by auto
  show "hd (fmt_hex_upper 8 n) \<noteq> PERCENT"
  proof
    assume "hd (fmt_hex_upper 8 n) = PERCENT"
    then obtain ds where "fmt_hex_upper 8 n = PERCENT # ds"
      using ne by (metis list.collapse)
    then show False
      using parse by (simp add: from_str_radix_def to_digit_def digit_value_def is_ascii_digit_def)
  qed
qed

lemma parse_download_plain:
  assumes "n < 2 ^ 32"
  shows "parse_download (ascii ''download'') (fmt_hex_upper 8 n @ payload) = Some (Download n Plain, 8)"
proof -
  note f = hex_size_field [OF assms]
  have "take 1 (fmt_hex_upper 8 n @ payload) \<noteq> [PERCENT]"
    using f(4,5) by (cases "fmt_hex_upper 8 n") auto
  then show ?thesis
    using f(1,2,3) by (simp add: parse_download_def get_range_def)
qed

lemma parse_download_percent:
  assumes "n < 2 ^ 32"
  shows "parse_download (ascii ''download'') (PERCENT # fmt_hex_upper 8 n @ payload) = Some (Download n Fastboot, 9)"
  using hex_size_field [OF assms] by (simp add: parse_download_def get_range_def)

subsection \<open>Properties\<close>

text \<open>
  C28.  The parser always makes progress and never reads past its input: a parsed command consumes at
  least one byte and no more than there are.
\<close>

theorem parse_command_progress:
  assumes "parse_command xs = Some (c, n)"
  shows "0 < n \<and> n \<le> length xs"
  using assms by (rule parse_command_bounds)

theorem parse_command_progress_witness:
  "parse_command (ascii '' WOpen:x'') = Some (WOpen, 8) \<and> (0 :: nat) < 8 \<and> 8 \<le> length (ascii '' WOpen:x'')"
proof -
  have "parse_command (ascii '' WOpen:x'') = Some (WOpen, 8)"
    by (simp add: parse_command_def parse_named_def token_len_def is_padding_byte_def is_ascii_whitespace_def)
  then show ?thesis
    using parse_command_progress [of "ascii '' WOpen:x''" WOpen 8] by simp
qed

text \<open>
  C29.  A download command in the form hosts print it is understood exactly, whatever follows: leading
  padding, the keyword, an optional percent sign and the size as eight hexadecimal digits parse to the
  size, the kind the percent sign selects, and a consumed length that ends right before the payload, for
  every 32-bit size and every payload.
\<close>

theorem download_command_roundtrip:
  assumes "\<forall>b\<in>set pad. is_padding_byte b" "n < 2 ^ 32"
  shows "parse_command (pad @ ascii ''download:'' @ fmt_hex_upper 8 n @ payload) = Some (Download n Plain, length pad + 17) \<and>
    parse_command (pad @ ascii ''download:%'' @ fmt_hex_upper 8 n @ payload) = Some (Download n Fastboot, length pad + 18)"
proof -
  have name: "ascii ''download'' \<noteq> []" "\<not> is_padding_byte (hd (ascii ''download''))" "COLON \<notin> set (ascii ''download'')"
    by (simp_all add: is_padding_byte_def is_ascii_whitespace_def)
  have eqs: "ascii ''download:'' @ x = ascii ''download'' @ COLON # x" "ascii ''download:%'' @ x = ascii ''download'' @ COLON # PERCENT # x" for x
    by simp_all
  show ?thesis
    unfolding eqs parse_command_named [OF assms(1) name]
    using parse_download_plain [OF assms(2), of payload] parse_download_percent [OF assms(2), of payload]
    by (simp add: parse_named_def)
qed

theorem download_command_roundtrip_witness:
  "parse_command (ascii '' download:%0000001Fxyz:'') = Some (Download 31 Fastboot, 19)"
proof -
  have "fmt_hex_upper 8 31 = ascii ''0000001F''"
    by (simp add: fmt_hex_upper_def hex_digit_upper_def)
  then show ?thesis
    using download_command_roundtrip [of "ascii '' ''" 31 "ascii ''xyz:''"]
    by (simp add: is_padding_byte_def is_ascii_whitespace_def)
qed

text \<open>
  The data-phase header is DATA followed by exactly eight hexadecimal digits from which the host
  reads back the length, for every 32-bit length.
\<close>

theorem data_header_roundtrip:
  assumes "n < 2 ^ 32"
  shows "length (data_header n) = 12 \<and>
    (case strip_prefix (ascii ''DATA'') (data_header n) of None \<Rightarrow> None | Some ds \<Rightarrow> from_str_radix 16 (2 ^ 32) ds) = Some n"
  using hex_size_field(1) [OF assms] assms from_str_radix_fmt_hex_upper [of 8 n "2 ^ 32"]
  by (simp add: data_header_def del: strip_prefix.simps ascii_Cons)

theorem data_header_roundtrip_witness:
  "data_header 4096 = ascii ''DATA00001000'' \<and> length (data_header 4096) = 12"
proof -
  have "data_header 4096 = ascii ''DATA00001000''"
    by (simp add: data_header_def fmt_hex_upper_def hex_digit_upper_def)
  then show ?thesis
    using data_header_roundtrip [of 4096] by simp
qed

text \<open>
  Two inputs the parser reads differently from the protocol.  A Close command is not recognised if
  any later byte of the same buffer is a colon, because the colon is searched for in the whole buffer
  before the end of the token; and a size field may start with a plus sign.
\<close>

theorem parse_command_surprises:
  "parse_command (ascii ''Close'' @ [0] @ ascii ''getvar:version'') = Some (Unsupported, 20) \<and>
   parse_command (ascii ''Close'' @ [0]) = Some (Close, 5) \<and>
   parse_command (ascii ''download:+0000010'') = Some (Download 16 Plain, 17)"
  by (simp add: parse_command_def parse_named_def parse_download_def token_len_def is_padding_byte_def is_ascii_whitespace_def
      get_range_def from_utf8_def from_str_radix_def to_digit_def digit_value_def is_ascii_digit_def)

end
