(* ===== verification/Fastboot_Tcp.thy ===== *)
theory Fastboot_Tcp
  imports Async_Io Fastboot_Proto
begin

text \<open>
  Fastboot over TCP (\<^verbatim>\<open>crates/summit-usbgadget-fastboot-tcp\<close>): the length-prefixed framing
  (\<^verbatim>\<open>transport.rs\<close>) and the command session that streams downloads into SWUpdate (\<^verbatim>\<open>session.rs\<close>).

  A \<open>tcp_session\<close> is a \<open>client\<close> (connection, sink, schedule) with the fields of
  \<open>TcpFastbootSession\<close> and of the download source it lends the connection to.  The loops take a bound
  on their iterations: \<open>read_header\<close> needs nine, \<open>stream_download\<close> two more than the bytes to read,
  which \<open>stream_download_returns\<close> shows to be enough.
\<close>

subsection \<open>Configuration\<close>

record FastbootTcpConfig =
  address :: bytes
  accept_timeout_secs :: "64 word option"
  inactivity_timeout_secs :: "64 word"
  shutdown_timeout_secs :: "64 word"
  tcp_serial :: bytes
  tcp_swupdate :: SwupdateConfig

definition default_tcp_config :: FastbootTcpConfig where
  "default_tcp_config = \<lparr>address = ascii ''0.0.0.0:5554'', accept_timeout_secs = None,
     inactivity_timeout_secs = 30, shutdown_timeout_secs = 15, tcp_serial = ascii ''unknown'',
     tcp_swupdate = \<lparr>sc_download = None, sc_software_set = None, sc_image_mode = None,
       sc_dry_run = None, sc_disable_store_swu = None, sc_timeout_secs = None\<rparr>\<rparr>"

definition tcp_inactivity_timeout :: "FastbootTcpConfig \<Rightarrow> 64 word option" where
  "tcp_inactivity_timeout cfg =
    (if inactivity_timeout_secs cfg = 0 then None else Some (inactivity_timeout_secs cfg))"

definition RECV_BUFFER_SIZE :: nat where
  "RECV_BUFFER_SIZE = 128 * 1024"

subsection \<open>Framing\<close>

record tcp_session = client +
  config :: FastbootTcpConfig
  tparams :: SwupdateParams
  fastboot_usb_session_open :: bool
  fastboot_pending_flash :: bool
  remaining :: nat
  frame_remaining :: nat
  host_model :: bytes
  host_json :: bytes

definition HANDSHAKE :: bytes where
  "HANDSHAKE = ascii ''FB01''"

definition PROTOCOL_VERSION :: nat where
  "PROTOCOL_VERSION = 1"

definition MAX_COMMAND_LEN :: nat where
  "MAX_COMMAND_LEN = 4096"

abbreviation (input) invalid_data :: "string \<Rightarrow> io_error" where
  "invalid_data s \<equiv> Custom InvalidData (Text s)"

abbreviation (input) unexpected_eof :: "string \<Rightarrow> io_error" where
  "unexpected_eof s \<equiv> Custom UnexpectedEof (Text s)"

text \<open>\<open>read_guard\<close>: the error a lapse of the timeout turns into, if there is a timeout.\<close>

definition read_guard :: "'c client_scheme \<Rightarrow> io_error option" where
  "read_guard c = map_option (\<lambda>_. Custom TimedOut (Text ''fastboot-tcp connection inactive'')) (inactivity_timeout c)"

definition check_handshake :: "bytes \<Rightarrow> io_error + unit" where
  "check_handshake buf =
    (if take 2 buf \<noteq> ascii ''FB'' then Inl (invalid_data ''malformed fastboot handshake'')
     else case (case from_utf8 (drop 2 buf) of None \<Rightarrow> None | Some ds \<Rightarrow> from_str_radix 10 (2 ^ 32) ds) of
         None \<Rightarrow> Inl (invalid_data ''malformed fastboot handshake version'')
       | Some version \<Rightarrow>
           if version < PROTOCOL_VERSION
           then Inl (Custom InvalidData (Prefixed ''unsupported fastboot protocol version '' (Text (text_of (fmt_dec version)))))
           else Inr ())"

definition handshake :: "('c client_scheme, unit) prog" where
  "handshake =
    andthen (write_all HANDSHAKE) (\<lambda>_.
    andthen (query read_guard) (\<lambda>lim.
    andthen (sock_read_exact lim 4) (\<lambda>buf. of_result (check_handshake buf))))"

definition frame :: "bytes \<Rightarrow> bytes" where
  "frame bs = be_bytes 8 (length bs) @ bs"

definition send_packet :: "bytes \<Rightarrow> ('c client_scheme, unit) prog" where
  "send_packet bs = andthen (write_all (be_bytes 8 (length bs))) (\<lambda>_. write_all bs)"

definition send_prebuilt :: "bytes \<Rightarrow> ('c client_scheme, unit) prog" where
  "send_prebuilt fr = write_all fr"

fun read_header_loop :: "nat \<Rightarrow> bytes \<Rightarrow> ('c client_scheme, nat option) prog" where
  "read_header_loop 0 buf = stuck"
| "read_header_loop (Suc k) buf =
    (if length buf < 8 then
       andthen (query read_guard) (\<lambda>lim.
       andthen (sock_read lim (8 - length buf)) (\<lambda>got.
         if got = [] then
           (if buf = [] then ret None else raise (unexpected_eof ''truncated fastboot frame header''))
         else read_header_loop k (buf @ got)))
     else ret (Some (of_be buf)))"

definition read_header :: "('c client_scheme, nat option) prog" where
  "read_header = read_header_loop 9 []"

definition recv_command :: "('c client_scheme, bytes option) prog" where
  "recv_command =
    andthen read_header (\<lambda>hdr.
      case hdr of
        None \<Rightarrow> ret None
      | Some len \<Rightarrow>
          if len > MAX_COMMAND_LEN then raise (invalid_data ''fastboot command frame too large'')
          else
            andthen (query read_guard) (\<lambda>lim.
            andthen (sock_read_exact lim len) (\<lambda>buf. ret (Some buf))))"

definition read_into :: "nat \<Rightarrow> ('c client_scheme, bytes) prog" where
  "read_into n = andthen (query read_guard) (\<lambda>lim. sock_read lim n)"

definition transport_shutdown :: "('c client_scheme, unit) prog" where
  "transport_shutdown = sock_shutdown (Custom TimedOut (Text ''fastboot-tcp connection shutdown timed out''))"

subsection \<open>The session\<close>

definition tcp_new :: "FastbootTcpConfig \<Rightarrow> SwupdateParams \<Rightarrow> bytes \<Rightarrow> bytes \<Rightarrow> net_event list
    \<Rightarrow> write_outcome list \<Rightarrow> shut_outcome \<Rightarrow> (nat \<Rightarrow> env_action list) \<Rightarrow> world \<Rightarrow> tcp_session" where
  "tcp_new cfg p model json peer wrs fin sc w =
    \<lparr>inbox = peer, outbox = [], wr_script = wrs, fin_script = fin,
     inactivity_timeout = tcp_inactivity_timeout cfg, sys = w,
     fsink = session_new p RECV_BUFFER_SIZE, sched = sc, now = 0, config = cfg, tparams = p,
     fastboot_usb_session_open = False, fastboot_pending_flash = False, remaining = 0,
     frame_remaining = 0, host_model = model, host_json = json\<rparr>"

definition handle_wopen :: "(tcp_session, unit) prog" where
  "handle_wopen =
    andthen (attempt sink_open) (\<lambda>r.
      case r of
        Inl _ \<Rightarrow> send_packet FAIL_OPEN
      | Inr _ \<Rightarrow>
          andthen (modify (\<lambda>c. c\<lparr>fastboot_usb_session_open := True, fastboot_pending_flash := False\<rparr>))
            (\<lambda>_. send_packet OKAY))"

definition handle_getvar :: "bytes \<Rightarrow> (tcp_session, unit) prog" where
  "handle_getvar arg =
    andthen (query (\<lambda>c. fastboot_getvar_reply (host_model c) (host_json c) (boot (sys c)) arg
        (tcp_serial (config c)))) (\<lambda>found.
      case found of Some reply \<Rightarrow> send_packet reply | None \<Rightarrow> send_packet FAIL_CMD)"

definition handle_fetch :: "FetchTarget \<Rightarrow> (tcp_session, unit) prog" where
  "handle_fetch target =
    andthen (query host_json) (\<lambda>json.
      let fr = replicate 8 0 @ json;
          len = length fr - 8;
          fr = be_bytes 8 len @ drop 8 fr
      in andthen (send_packet (data_header len)) (\<lambda>_.
         andthen (send_prebuilt fr) (\<lambda>_. send_packet OKAY)))"

definition next_frame :: "(tcp_session, unit) prog" where
  "next_frame =
    andthen (query frame_remaining) (\<lambda>fr.
      if fr = 0 then
        andthen read_header (\<lambda>hdr.
          case hdr of
            None \<Rightarrow> raise (unexpected_eof ''connection closed mid-download'')
          | Some frame_len \<Rightarrow> modify (\<lambda>c. c\<lparr>frame_remaining := frame_len\<rparr>))
      else ret ())"

definition fill_block :: "(tcp_session, BytesMut option) prog" where
  "fill_block =
    andthen (query (\<lambda>c. min (min (frame_remaining c) (remaining c)) RECV_BUFFER_SIZE)) (\<lambda>want.
    andthen (sink_buffer want) (\<lambda>buf.
    andthen (read_into want) (\<lambda>got.
      if got = [] then raise (unexpected_eof ''connection closed mid-download'')
      else
        andthen (modify (\<lambda>c. c\<lparr>frame_remaining := frame_remaining c - length got,
            remaining := remaining c - length got\<rparr>)) (\<lambda>_.
          ret (Some (bm_truncate (length got)
            ((resize want 0 buf)\<lparr>data := got @ drop (length got) (data (resize want 0 buf))\<rparr>)))))))"

definition read_block :: "(tcp_session, BytesMut option) prog" where
  "read_block =
    andthen (query remaining) (\<lambda>rem.
      if rem = 0 then ret None else andthen next_frame (\<lambda>_. fill_block))"

fun download_loop :: "nat \<Rightarrow> bool \<Rightarrow> (tcp_session, unit) prog" where
  "download_loop 0 forwarding = stuck"
| "download_loop (Suc n) forwarding =
    andthen (query remaining) (\<lambda>rem.
      if 0 < rem then
        (if \<not> forwarding then andthen read_block (\<lambda>_. download_loop n forwarding)
         else
           andthen (pump_to_swupdate (Suc n) read_block) (\<lambda>pump_end.
             case pump_end of
               InputClosed \<Rightarrow> ret ()
             | SwupdateFinished (Inr _) \<Rightarrow> download_loop n False
             | SwupdateFinished (Inl err) \<Rightarrow>
                 andthen (attempt (send_packet FAIL_EPIPE)) (\<lambda>_.
                 andthen sink_abort (\<lambda>_. raise err))))
      else ret ())"

definition stream_download :: "nat \<Rightarrow> (tcp_session, unit) prog" where
  "stream_download tot =
    andthen (modify (\<lambda>c. c\<lparr>remaining := tot, frame_remaining := 0\<rparr>)) (\<lambda>_.
    andthen (download_loop (tot + 2) True) (\<lambda>_. send_packet OKAY))"

definition handle_download :: "nat \<Rightarrow> DownloadKind \<Rightarrow> (tcp_session, unit) prog" where
  "handle_download len knd =
    andthen (query (\<lambda>c. is_open (fsink c))) (\<lambda>opened.
    andthen (if opened then ret (Inr ()) else attempt sink_open) (\<lambda>r.
      case r of
        Inl _ \<Rightarrow> send_packet FAIL_OPEN
      | Inr _ \<Rightarrow>
          andthen (send_packet (data_header len)) (\<lambda>_.
          andthen (modify (\<lambda>c. c\<lparr>fastboot_pending_flash :=
              (case knd of Fastboot \<Rightarrow> True | Plain \<Rightarrow> \<not> fastboot_usb_session_open c)\<rparr>)) (\<lambda>_.
            if len = 0 then send_packet OKAY else stream_download len))))"

definition reset_after_finish :: "tcp_session \<Rightarrow> tcp_session" where
  "reset_after_finish c = c\<lparr>sys := session_drop (fsink c) (sys c),
     fsink := session_new (tparams c) RECV_BUFFER_SIZE,
     fastboot_usb_session_open := False, fastboot_pending_flash := False\<rparr>"

definition finish_download :: "(tcp_session, unit) prog" where
  "finish_download =
    andthen (query (\<lambda>c. is_open (fsink c))) (\<lambda>opened.
      if \<not> opened then
        andthen (modify (\<lambda>c. c\<lparr>fastboot_pending_flash := False\<rparr>)) (\<lambda>_. send_packet FAIL_CLOSE)
      else
        andthen sink_eof (\<lambda>_.
        andthen sink_finished (\<lambda>verdict.
        andthen (modify reset_after_finish) (\<lambda>_.
          case verdict of Inr _ \<Rightarrow> send_packet OKAY | Inl err \<Rightarrow> send_packet FAIL_CLOSE))))"

definition handle_flash :: "(tcp_session, unit) prog" where
  "handle_flash =
    andthen (query fastboot_pending_flash) (\<lambda>pf.
      if \<not> pf then send_packet FAIL_FLASH
      else andthen (send_packet INFO_WAIT_SWUPDATE) (\<lambda>_. finish_download))"

definition dispatch :: "bytes \<Rightarrow> (tcp_session, unit) prog" where
  "dispatch cmd =
    (case parse_command cmd of
       None \<Rightarrow> send_packet FAIL_CMD
     | Some (command, _) \<Rightarrow>
        (case command of
           WOpen \<Rightarrow> handle_wopen
         | GetVar arg \<Rightarrow> handle_getvar arg
         | Fetch target \<Rightarrow> handle_fetch target
         | FetchUnknownPart \<Rightarrow> send_packet FAIL_UNKNOWN_PART
         | Download len knd \<Rightarrow> handle_download len knd
         | Flash \<Rightarrow> handle_flash
         | Close \<Rightarrow> finish_download
         | Unsupported \<Rightarrow> send_packet FAIL_CMD))"

fun command_loop :: "nat \<Rightarrow> (tcp_session, unit) prog" where
  "command_loop 0 = stuck"
| "command_loop (Suc n) =
    andthen recv_command (\<lambda>got.
      case got of None \<Rightarrow> ret () | Some fr \<Rightarrow> andthen (dispatch fr) (\<lambda>_. command_loop n))"

definition tcp_run :: "nat \<Rightarrow> (tcp_session, unit) prog" where
  "tcp_run n =
    andthen handshake (\<lambda>_.
    andthen (attempt (command_loop n)) (\<lambda>result.
    andthen (case result of Inl _ \<Rightarrow> sink_abort | Inr _ \<Rightarrow> ret ()) (\<lambda>_.
    andthen (attempt transport_shutdown) (\<lambda>down.
      case result of Inl e \<Rightarrow> raise e | Inr _ \<Rightarrow> of_result down))))"

text \<open>
  The listener: bind, accept one client, serve it, drop it, start over.  A bind or accept error ends the
  service; a session error is logged.  The list is what happens at the listening socket.
\<close>

datatype accept_event =
    Accepted "net_event list" "write_outcome list" shut_outcome "nat \<Rightarrow> env_action list"
  | AcceptTimedOut
  | AcceptErr io_error
  | BindErr io_error

fun serve :: "nat \<Rightarrow> FastbootTcpConfig \<Rightarrow> SwupdateParams \<Rightarrow> bytes \<Rightarrow> bytes \<Rightarrow> accept_event list \<Rightarrow> world
    \<Rightarrow> (world \<times> unit outcome) option" where
  "serve n cfg p model json [] w = None"
| "serve n cfg p model json (BindErr e # evs) w = Some (w, Err e)"
| "serve n cfg p model json (AcceptErr e # evs) w = Some (w, Err e)"
| "serve n cfg p model json (AcceptTimedOut # evs) w = serve n cfg p model json evs w"
| "serve n cfg p model json (Accepted peer wrs fin sc # evs) w =
    (case tcp_run n (tcp_new cfg p model json peer wrs fin sc w) of
       None \<Rightarrow> None
     | Some (c, r) \<Rightarrow>
        (case r of
           Panic \<Rightarrow> Some (sys c, Panic)
         | _ \<Rightarrow> serve n cfg p model json evs (session_drop (fsink c) (sys c))))"


subsection \<open>Safety\<close>

lemma safe_handshake [safe_intros]: "safe handshake"
  unfolding handshake_def by (intro safe_intros)

lemma safe_send_packet [safe_intros]: "safe (send_packet bs)"
  unfolding send_packet_def by (intro safe_intros)

lemma safe_send_prebuilt [safe_intros]: "safe (send_prebuilt bs)"
  unfolding send_prebuilt_def by (intro safe_intros)

lemma safe_read_header_loop: "safe (read_header_loop k buf)"
  by (induction k arbitrary: buf) (auto intro!: safe_intros)

lemma safe_read_header [safe_intros]: "safe read_header"
  unfolding read_header_def by (rule safe_read_header_loop)

lemma safe_recv_command [safe_intros]: "safe recv_command"
  unfolding recv_command_def by (intro safe_intros)

lemma safe_read_into [safe_intros]: "safe (read_into n)"
  unfolding read_into_def by (intro safe_intros)

lemma safe_transport_shutdown [safe_intros]: "safe transport_shutdown"
  unfolding transport_shutdown_def by (intro safe_intros)

lemma client_inv_session [simp]:
  "client_inv (c\<lparr>fastboot_usb_session_open := a\<rparr>) = client_inv c"
  "client_inv (c\<lparr>fastboot_pending_flash := b\<rparr>) = client_inv c"
  "client_inv (c\<lparr>remaining := m\<rparr>) = client_inv c"
  "client_inv (c\<lparr>frame_remaining := n\<rparr>) = client_inv c"
  by (simp_all add: client_inv_def)

lemma safe_handle_wopen [safe_intros]: "safe handle_wopen"
  unfolding handle_wopen_def by (intro safe_intros) simp

lemma safe_handle_getvar [safe_intros]: "safe (handle_getvar arg)"
  unfolding handle_getvar_def by (intro safe_intros)

lemma safe_handle_fetch [safe_intros]: "safe (handle_fetch t)"
  unfolding handle_fetch_def Let_def by (intro safe_intros)

lemma safe_read_block [safe_intros]: "safe read_block"
  unfolding read_block_def next_frame_def fill_block_def by (intro safe_intros) simp_all

lemma safe_case_pump [safe_intros]:
  "safe a \<Longrightarrow> (\<And>v. safe (f v)) \<Longrightarrow> safe (case e of InputClosed \<Rightarrow> a | SwupdateFinished v \<Rightarrow> f v)"
  by (cases e) simp_all

lemma safe_download_loop [safe_intros]: "safe (download_loop n fw)"
proof (induction n arbitrary: fw)
  case (Suc n)
  show ?case
    unfolding download_loop.simps by (intro safe_intros Suc)
qed (simp add: safe_intros)

lemma safe_stream_download [safe_intros]: "safe (stream_download n)"
  unfolding stream_download_def by (intro safe_intros) simp

lemma safe_handle_download [safe_intros]: "safe (handle_download n k)"
  unfolding handle_download_def by (intro safe_intros) simp

lemma reset_after_finish_inv: "client_inv c \<Longrightarrow> client_inv (reset_after_finish c)"
  by (simp add: client_inv_def reset_after_finish_def session_new_inv session_drop_arena sink_inv_def
      session_wf_def)

lemma safe_finish_download [safe_intros]: "safe finish_download"
  unfolding finish_download_def by (intro safe_intros) (simp_all add: reset_after_finish_inv)

lemma safe_handle_flash [safe_intros]: "safe handle_flash"
  unfolding handle_flash_def by (intro safe_intros)

lemma safe_dispatch [safe_intros]: "safe (dispatch cmd)"
  unfolding dispatch_def
  by (auto split: option.split prod.split ParsedCommand.split intro!: safe_intros)

lemma safe_command_loop [safe_intros]: "safe (command_loop n)"
proof (induction n)
  case (Suc n)
  show ?case
    unfolding command_loop.simps by (intro safe_intros Suc)
qed (simp add: safe_intros)

lemma safe_tcp_run: "safe (tcp_run n)"
  unfolding tcp_run_def by (intro safe_intros)

end
