(* ===== verification/Fastboot_Data.thy ===== *)
theory Fastboot_Data
  imports Fastboot_Tcp
begin

text \<open>
  Reading the data phase of a fastboot download over TCP.

  \<open>data_phase c fs rest\<close> says how the rest of a download will arrive: the remainder of the current
  frame, the frames after it, and what follows, on a connection that neither fails nor stalls but may cut
  the bytes anywhere.  \<open>waited\<close>, \<open>sink_kept\<close>, \<open>same_source\<close> and \<open>quiet\<close> say what a call leaves
  alone.  The \<open>wp_\<close> lemmas hold for every behaviour of the other tasks; the \<open>returns_\<close> lemmas
  are for a device on which nothing fails and whose tasks are scheduled (\<open>lively\<close>), and show that the
  loops end.
\<close>

subsection \<open>Definitions\<close>

text \<open>Only the arrival queue, the tasks and the time have moved on.\<close>

definition waited :: "'c client_scheme \<Rightarrow> 'c client_scheme \<Rightarrow> bool" where
  "waited c c' \<longleftrightarrow> outbox c' = outbox c \<and> wr_script c' = wr_script c \<and> fin_script c' = fin_script c \<and>
    inactivity_timeout c' = inactivity_timeout c \<and> fsink c' = fsink c \<and> sched c' = sched c \<and>
    client.more c' = client.more c \<and>
    (client_inv c \<longrightarrow> client_inv c' \<and> (\<forall>z. fed c' = Some z \<longrightarrow> fed c = Some z)) \<and>
    (healthy_client c \<longrightarrow> healthy_client c' \<and> fed c' = fed c)"

text \<open>The frames the rest of a download arrives in, the first one already partly read.\<close>

definition data_phase :: "tcp_session \<Rightarrow> bytes list \<Rightarrow> bytes \<Rightarrow> bool" where
  "data_phase c fs rest \<longleftrightarrow> steady (inbox c) \<and>
    (\<exists>cur fs'. fs = cur # fs' \<and> length cur = frame_remaining c \<and> list_all (\<lambda>f. f \<noteq> [] \<and> length f < 2 ^ 64) fs' \<and>
      net_bytes (inbox c) = cur @ concat (map frame fs') @ rest \<and> remaining c = length (concat fs))"

definition quiet :: "tcp_session \<Rightarrow> tcp_session \<Rightarrow> bool" where
  "quiet c c' \<longleftrightarrow> outbox c' = outbox c \<and> wr_script c' = wr_script c \<and> fin_script c' = fin_script c \<and>
    inactivity_timeout c' = inactivity_timeout c \<and> sched c' = sched c \<and> config c' = config c \<and>
    tparams c' = tparams c \<and> fastboot_usb_session_open c' = fastboot_usb_session_open c \<and>
    fastboot_pending_flash c' = fastboot_pending_flash c \<and> host_model c' = host_model c \<and>
    host_json c' = host_json c"

text \<open>What reading a block keeps: the sink and what it has taken.\<close>

definition sink_kept :: "tcp_session \<Rightarrow> tcp_session \<Rightarrow> bool" where
  "sink_kept c c' \<longleftrightarrow> quiet c c' \<and> fsink c' = fsink c \<and>
    (client_inv c \<longrightarrow> client_inv c' \<and> (\<forall>z. fed c' = Some z \<longrightarrow> fed c = Some z)) \<and>
    (healthy_client c \<longrightarrow> healthy_client c' \<and> fed c' = fed c)"

text \<open>What a call into the sink leaves alone.\<close>

definition same_source :: "tcp_session \<Rightarrow> tcp_session \<Rightarrow> bool" where
  "same_source c c' \<longleftrightarrow> quiet c c' \<and> inbox c' = inbox c \<and> remaining c' = remaining c \<and>
    frame_remaining c' = frame_remaining c"

text \<open>How a pump over the data phase ends.\<close>

definition pump_ended :: "tcp_session \<Rightarrow> bytes list \<Rightarrow> bytes \<Rightarrow> PumpToSwupdateEnd \<Rightarrow> tcp_session \<Rightarrow> bool" where
  "pump_ended c fs rest e c' \<longleftrightarrow> (\<exists>fs'. data_phase c' fs' rest) \<and> remaining c' \<le> remaining c \<and>
    (case e of
       InputClosed \<Rightarrow> remaining c' = 0 \<and>
         (\<forall>z. fed c' = Some z \<longrightarrow> (\<exists>y. fed c = Some y \<and> z = y @ concat fs))
     | SwupdateFinished v \<Rightarrow> v = Inr () \<longrightarrow> terminal (fsink c') = Some (Inr ()))"

text \<open>The data phase is over and every byte of it was read.\<close>

definition phase_over :: "tcp_session \<Rightarrow> bytes \<Rightarrow> tcp_session \<Rightarrow> bool" where
  "phase_over c rest c' \<longleftrightarrow> quiet c c' \<and> steady (inbox c') \<and> net_bytes (inbox c') = rest"

subsection \<open>Reading from a connection that neither fails nor stalls\<close>

lemma waited_refl [simp]: "waited c c"
  by (simp add: waited_def)

lemma waited_trans: "waited a b \<Longrightarrow> waited b c \<Longrightarrow> waited a c"
  by (auto simp: waited_def)

lemma waited_fields:
  assumes "waited c c'"
  shows "outbox c' = outbox c" "wr_script c' = wr_script c" "fin_script c' = fin_script c"
    "inactivity_timeout c' = inactivity_timeout c" "fsink c' = fsink c" "sched c' = sched c"
    "read_guard c' = read_guard c"
  using assms by (auto simp: waited_def read_guard_def)

lemma waited_session:
  assumes "waited c c'"
  shows "config c' = config c" "tparams c' = tparams c"
    "fastboot_usb_session_open c' = fastboot_usb_session_open c"
    "fastboot_pending_flash c' = fastboot_pending_flash c" "remaining c' = remaining c"
    "frame_remaining c' = frame_remaining c" "host_model c' = host_model c" "host_json c' = host_json c"
  using assms by (cases c; cases c'; simp add: waited_def)+

lemma waited_pause: "waited c (c\<lparr>sys := env_run (sched c (now c)) (sys c), now := Suc (now c), inbox := es\<rparr>)"
  using healthy_env_run [of "sys c" "fsink c" "sched c (now c)"]
  by (auto simp: waited_def client_inv_def fed_def healthy_client_def env_run_inv dest: env_run_stream)

lemma returns_sock_read:
  assumes "steady (inbox c)"
  shows "returns (sock_read lim n) (\<lambda>c' r. \<exists>bs. r = Ok bs \<and> steady (inbox c') \<and> waited c c' \<and>
    net_bytes (inbox c) = bs @ net_bytes (inbox c') \<and> length bs \<le> n \<and>
    (bs = [] \<longrightarrow> n = 0 \<or> net_bytes (inbox c) = [])) c"
proof -
  obtain es r where r: "net_read n lim (inbox c) = (es, r)"
    by fastforce
  obtain bs where "r = Ok bs" "steady es" "net_bytes (inbox c) = bs @ net_bytes es" "length bs \<le> n"
    "bs = [] \<longrightarrow> n = 0 \<or> net_bytes (inbox c) = []"
    using net_read_steady [OF assms r] by blast
  then show ?thesis
    using r waited_pause [of c es] by (simp add: returns_def sock_read_def andthen_def pause_def)
qed

lemma returns_sock_read_exact:
  assumes "steady (inbox c)" "n \<le> length (net_bytes (inbox c))"
  shows "returns (sock_read_exact lim n) (\<lambda>c' r. r = Ok (take n (net_bytes (inbox c))) \<and> steady (inbox c') \<and>
    waited c c' \<and> net_bytes (inbox c') = drop n (net_bytes (inbox c))) c"
proof -
  obtain es where r: "net_read_exact n lim (inbox c) = (es, Ok (take n (net_bytes (inbox c))))" "steady es"
    "net_bytes es = drop n (net_bytes (inbox c))"
    using net_read_exact_steady [OF assms] by blast
  then show ?thesis
    using waited_pause [of c es] by (simp add: returns_def sock_read_exact_def andthen_def pause_def)
qed

lemma returns_read_header_loop:
  assumes "steady (inbox c)" "buf @ net_bytes (inbox c) = hdr @ rest" "length hdr = 8" "length buf \<le> 8"
    "8 < length buf + k"
  shows "returns (read_header_loop k buf) (\<lambda>c' r. r = Ok (Some (of_be hdr)) \<and> steady (inbox c') \<and> waited c c' \<and>
    net_bytes (inbox c') = rest) c"
  using assms
proof (induction k arbitrary: buf c)
  case (Suc k)
  show ?case
  proof (cases "length buf < 8")
    case True
    have ne: "net_bytes (inbox c) \<noteq> []"
      using Suc.prems(2,3) True by (auto simp: append_eq_append_conv2)
    have "returns (andthen (sock_read (read_guard c) (8 - length buf)) (\<lambda>got.
         if got = [] then
           (if buf = [] then ret None else raise (unexpected_eof ''truncated fastboot frame header''))
         else read_header_loop k (buf @ got))) (\<lambda>c' r. r = Ok (Some (of_be hdr)) \<and> steady (inbox c') \<and> waited c c' \<and>
    net_bytes (inbox c') = rest) c"
    proof (rule returns_bind [OF returns_sock_read [OF Suc.prems(1)]], goal_cases)
      case (1 c' bs)
      then have bs: "bs \<noteq> []" "0 < length bs"
        using ne True by auto
      have "returns (read_header_loop k (buf @ bs)) (\<lambda>c'' r. r = Ok (Some (of_be hdr)) \<and> steady (inbox c'') \<and>
          waited c' c'' \<and> net_bytes (inbox c'') = rest) c'"
        using 1 Suc.prems True bs(2) by (intro Suc.IH) (auto simp del: length_greater_0_conv)
      then show ?case
        using 1 bs by (auto elim!: returns_mono intro: waited_trans)
    qed auto
    then show ?thesis
      using True by simp
  next
    case False
    then have "buf = hdr" "net_bytes (inbox c) = rest"
      using Suc.prems(2,3,4) by auto
    then show ?thesis
      using Suc.prems False by simp
  qed
qed simp

lemma returns_read_header:
  assumes "steady (inbox c)" "net_bytes (inbox c) = be_bytes 8 n @ rest" "n < 2 ^ 64"
  shows "returns read_header (\<lambda>c' r. r = Ok (Some n) \<and> steady (inbox c') \<and> waited c c' \<and>
    net_bytes (inbox c') = rest) c"
  using returns_read_header_loop [OF assms(1), of "[]" "be_bytes 8 n" rest 9] assms(2,3)
  by (simp add: read_header_def of_be_be_bytes)

lemma returns_read_header_eof:
  assumes "steady (inbox c)" "net_bytes (inbox c) = []"
  shows "returns read_header (\<lambda>c' r. r = Ok None \<and> waited c c' \<and> net_bytes (inbox c') = [] \<and> steady (inbox c')) c"
  unfolding read_header_def using returns_sock_read [OF assms(1), of "read_guard c" 8] assms(2)
  by (simp add: eval_nat_numeral returns_andthen) (auto elim!: returns_mono)

lemma returns_recv_command:
  assumes "steady (inbox c)" "net_bytes (inbox c) = frame cmd @ rest" "length cmd \<le> 4096"
  shows "returns recv_command (\<lambda>c' r. r = Ok (Some cmd) \<and> steady (inbox c') \<and> waited c c' \<and>
    net_bytes (inbox c') = rest) c"
proof -
  have "net_bytes (inbox c) = be_bytes 8 (length cmd) @ (cmd @ rest)"
    using assms(2) by (simp add: frame_def)
  note hdr = returns_read_header [OF assms(1) this]
  show ?thesis
    unfolding recv_command_def
  proof (rule returns_bind [OF hdr], goal_cases)
    case (2 c' x)
    have rd: "returns (sock_read_exact (read_guard c') (length cmd)) (\<lambda>c'' r. r = Ok cmd \<and> steady (inbox c'') \<and>
      waited c' c'' \<and> net_bytes (inbox c'') = rest) c'"
      using 2 returns_sock_read_exact [of c' "length cmd" "read_guard c'"] by (auto elim!: returns_mono)
    show ?case
      using 2 assms(3) by (auto simp: MAX_COMMAND_LEN_def intro!: returns_bind [OF rd] intro: waited_trans)
  qed (use assms(3) in auto)
qed

lemma returns_recv_too_large:
  assumes "steady (inbox c)" "net_bytes (inbox c) = be_bytes 8 n @ rest" "4096 < n" "n < 2 ^ 64"
  shows "returns recv_command (\<lambda>c' r. r = Err (invalid_data ''fastboot command frame too large'') \<and>
    net_bytes (inbox c') = rest) c"
  unfolding recv_command_def
  by (rule returns_bind [OF returns_read_header [OF assms(1,2,4)]]) (use assms(3) in \<open>auto simp: MAX_COMMAND_LEN_def\<close>)

lemma returns_recv_eof:
  assumes "steady (inbox c)" "net_bytes (inbox c) = []"
  shows "returns recv_command (\<lambda>c' r. r = Ok None \<and> waited c c') c"
  unfolding recv_command_def by (rule returns_bind [OF returns_read_header_eof [OF assms]]) auto

subsection \<open>The data phase\<close>

lemma returns_sink_buffer:
  "client_inv c \<Longrightarrow> returns (sink_buffer n) (\<lambda>c' r. \<exists>b. r = Ok b \<and> data b = [] \<and> inbox c' = inbox c \<and> waited c c') c"
  by (auto simp: returns_def sink_buffer_def waited_def client_inv_def fed_def buffer_data buffer_inv
      healthy_client_def buffer_healthy split: prod.split)

lemma quiet_trans: "quiet a b \<Longrightarrow> quiet b c \<Longrightarrow> quiet a c"
  by (simp add: quiet_def)

lemma sink_kept_trans: "sink_kept a b \<Longrightarrow> sink_kept b c \<Longrightarrow> sink_kept a c"
  by (auto simp: sink_kept_def quiet_def)

lemma waited_sink_kept: "waited c c' \<Longrightarrow> sink_kept c c'"
  using waited_session [of c c'] by (auto simp: sink_kept_def quiet_def waited_def)

lemma sink_kept_modify [simp]:
  "sink_kept c (c\<lparr>remaining := m\<rparr>)" "sink_kept c (c\<lparr>frame_remaining := m\<rparr>)"
  "sink_kept c (c\<lparr>remaining := m, frame_remaining := n\<rparr>)" "sink_kept c (c\<lparr>frame_remaining := n, remaining := m\<rparr>)"
  by (simp_all add: sink_kept_def quiet_def client_inv_def fed_def healthy_client_def)

lemma data_phase_waited:
  "data_phase c fs rest \<Longrightarrow> waited c c' \<Longrightarrow> inbox c' = inbox c \<Longrightarrow> data_phase c' fs rest"
  by (auto simp: data_phase_def waited_session)

text \<open>The header of the next frame, when the current one is used up.\<close>

lemma returns_next_frame:
  assumes "data_phase c fs rest" "0 < remaining c"
  shows "returns next_frame (\<lambda>c' r. r = Ok () \<and> sink_kept c c' \<and> 0 < frame_remaining c' \<and> 0 < remaining c' \<and>
          (\<exists>fs'. concat fs' = concat fs \<and> data_phase c' fs' rest)) c"
proof (cases "frame_remaining c = 0")
  case True
  obtain fs' where fs: "fs = [] # fs'" "list_all (\<lambda>f. f \<noteq> [] \<and> length f < 2 ^ 64) fs'" "steady (inbox c)"
    "net_bytes (inbox c) = concat (map frame fs') @ rest" "remaining c = length (concat fs')"
    using assms(1) True by (auto simp: data_phase_def)
  then obtain f fs'' where f: "fs' = f # fs''"
    using assms(2) by (cases fs') auto
  have "net_bytes (inbox c) = be_bytes 8 (length f) @ (f @ concat (map frame fs'') @ rest)"
    using fs f by (simp add: frame_def)
  from returns_read_header [OF fs(3) this] have rd: "returns read_header (\<lambda>c' r. r = Ok (Some (length f)) \<and>
      steady (inbox c') \<and> waited c c' \<and> net_bytes (inbox c') = f @ concat (map frame fs'') @ rest) c"
    using fs(2) f by simp
  show ?thesis
    using True unfolding next_frame_def
  proof (simp, intro returns_bind [OF rd], goal_cases)
    case (1 c' x)
    then have "data_phase (c'\<lparr>frame_remaining := length f\<rparr>) (f # fs'') rest"
      using fs f waited_session(5) [of c c'] by (simp add: data_phase_def)
    moreover have "sink_kept c (c'\<lparr>frame_remaining := length f\<rparr>)"
      using 1 waited_sink_kept [of c c'] sink_kept_trans [OF _ sink_kept_modify(2)] by blast
    ultimately show ?case
      using 1 fs f assms(2) waited_session(5) [of c c'] by (auto intro!: exI [of _ "f # fs''"])
  qed auto
next
  case False
  with assms show ?thesis
    by (auto simp: waited_sink_kept next_frame_def)
qed

lemma returns_read_into:
  "steady (inbox c) \<Longrightarrow> returns (read_into n) (\<lambda>c' r. \<exists>bs. r = Ok bs \<and> steady (inbox c') \<and> waited c c' \<and>
    net_bytes (inbox c) = bs @ net_bytes (inbox c') \<and> length bs \<le> n \<and>
    (bs = [] \<longrightarrow> n = 0 \<or> net_bytes (inbox c) = [])) c"
  unfolding read_into_def using returns_sock_read by (simp only: returns_steps)

text \<open>A read from the front of the current frame takes a piece of that frame.\<close>

lemma split_frame:
  assumes "cur @ xs = got @ ys" "length got \<le> length cur"
  shows "cur = got @ drop (length got) cur \<and> ys = drop (length got) cur @ xs"
  using assms by (auto simp: append_eq_append_conv2)

lemma data_phase_read:
  assumes "data_phase c fs rest" "waited c c'" "steady (inbox c')" "net_bytes (inbox c) = got @ net_bytes (inbox c')"
    "length got \<le> frame_remaining c"
  shows "\<exists>fs'. concat fs = got @ concat fs' \<and>
    data_phase (c'\<lparr>frame_remaining := frame_remaining c' - length got, remaining := remaining c' - length got\<rparr>) fs' rest"
proof -
  obtain cur fs2 where cur: "fs = cur # fs2" "length cur = frame_remaining c"
    "list_all (\<lambda>f. f \<noteq> [] \<and> length f < 2 ^ 64) fs2" "net_bytes (inbox c) = cur @ concat (map frame fs2) @ rest"
    "remaining c = length cur + length (concat fs2)"
    using assms(1) by (auto simp: data_phase_def)
  have sp: "cur = got @ drop (length got) cur"
    "net_bytes (inbox c') = drop (length got) cur @ concat (map frame fs2) @ rest"
    using split_frame [of cur "concat (map frame fs2) @ rest" got] assms(4,5) cur(2,4) by simp_all
  have "concat fs = got @ concat (drop (length got) cur # fs2)"
    using sp(1) cur(1) by (metis append.assoc concat.simps(2))
  moreover have "data_phase (c'\<lparr>frame_remaining := frame_remaining c' - length got,
      remaining := remaining c' - length got\<rparr>) (drop (length got) cur # fs2) rest"
    using cur sp(2) assms(3,5) waited_session(5,6) [OF assms(2)] by (simp add: data_phase_def)
  ultimately show ?thesis
    by blast
qed

lemma returns_fill_block:
  assumes "data_phase c fs rest" "0 < remaining c" "0 < frame_remaining c" "client_inv c"
  shows "returns fill_block (\<lambda>c' r. \<exists>blk fs'. r = Ok (Some blk) \<and> data blk \<noteq> [] \<and>
    concat fs = data blk @ concat fs' \<and> data_phase c' fs' rest \<and> sink_kept c c') c"
proof -
  define want where "want = min (min (frame_remaining c) (remaining c)) RECV_BUFFER_SIZE"
  have want: "0 < want" "want \<le> frame_remaining c"
    using assms(2,3) by (simp_all add: want_def RECV_BUFFER_SIZE_def)
  have ne: "net_bytes (inbox c) \<noteq> []" "steady (inbox c)"
    using assms(1,3) by (auto simp: data_phase_def)
  show ?thesis
    unfolding fill_block_def returns_steps want_def [symmetric]
  proof (rule returns_bind [OF returns_sink_buffer [OF assms(4)]], goal_cases)
    case (1 c2 buf)
    then have b: "data buf = []" "inbox c2 = inbox c" "waited c c2" "steady (inbox c2)"
      using ne(2) by auto
    show ?case
    proof (rule returns_bind [OF returns_read_into [OF b(4), of want]], goal_cases)
      case (1 c3 got)
      then have g: "steady (inbox c3)" "waited c c3" "net_bytes (inbox c) = got @ net_bytes (inbox c3)"
        "length got \<le> want" "got \<noteq> []"
        using want b ne by (auto intro: waited_trans)
      let ?c = "c3\<lparr>frame_remaining := frame_remaining c3 - length got, remaining := remaining c3 - length got\<rparr>"
      obtain fs' where "concat fs = got @ concat fs'" "data_phase ?c fs' rest"
        using data_phase_read [OF assms(1) g(2,1,3)] g(4) want(2) by auto
      moreover have "sink_kept c ?c"
        using waited_sink_kept [OF g(2)] sink_kept_trans sink_kept_modify(4) by blast
      ultimately show ?case
        using g(4,5) b(1) by auto
    qed auto
  qed auto
qed

lemma returns_read_block:
  assumes "data_phase c fs rest" "0 < remaining c" "client_inv c"
  shows "returns read_block (\<lambda>c' r. \<exists>blk fs'. r = Ok (Some blk) \<and> data blk \<noteq> [] \<and>
    concat fs = data blk @ concat fs' \<and> data_phase c' fs' rest \<and> sink_kept c c') c"
  unfolding read_block_def
proof (use assms(2) in simp, rule returns_bind [OF returns_next_frame [OF assms(1,2)]], goal_cases)
  case (1 c1 u)
  then obtain fs1 where fs1: "concat fs1 = concat fs" "data_phase c1 fs1 rest"
    by blast
  have k: "0 < remaining c1" "0 < frame_remaining c1" "sink_kept c c1"
    using 1 by blast+
  have inv: "client_inv c1"
    using k(3) assms(3) by (simp add: sink_kept_def)
  show ?case
    by (rule returns_mono [OF returns_fill_block [OF fs1(2) k(1,2) inv]])
      (use sink_kept_trans [OF k(3)] in \<open>unfold fs1(1), blast\<close>)
qed auto

lemma same_source_sink [simp]:
  "same_source c (c\<lparr>now := k\<rparr>)" "same_source c (c\<lparr>sys := w, fsink := s\<rparr>)" "same_source c (c\<lparr>sys := w, fsink := s, now := k\<rparr>)"
  by (simp_all add: same_source_def quiet_def)

lemma data_phase_same: "same_source c c' \<Longrightarrow> data_phase c' fs rest = data_phase c fs rest"
  by (simp add: same_source_def data_phase_def)

lemma data_phase_done: "data_phase c fs rest \<Longrightarrow> remaining c = 0 \<Longrightarrow>
    concat fs = [] \<and> steady (inbox c) \<and> net_bytes (inbox c) = rest"
  by (cases "tl fs") (auto simp: data_phase_def)

lemma data_phase_remaining: "data_phase c fs rest \<Longrightarrow> remaining c = length (concat fs)"
  by (auto simp: data_phase_def)

lemma wp_try_finished:
  "client_inv c \<Longrightarrow> wp sink_try_finished (\<lambda>c' r. \<exists>v. r = Ok v \<and> client_inv c' \<and> same_source c c' \<and> fed c' = fed c \<and>
    (v = Some (Inr ()) \<longrightarrow> terminal (fsink c') = Some (Inr ()))) c"
  by (auto simp: wp_def sink_try_finished_def try_finished_def client_inv_def fed_def poll_status_inv
      poll_status_stream poll_status_success split: prod.split)

lemma wp_finished:
  "client_inv c \<Longrightarrow> wp sink_finished (\<lambda>c' r. \<exists>v. r = Ok v \<and> client_inv c' \<and> same_source c c' \<and>
    (v = Inr () \<longrightarrow> terminal (fsink c') = Some (Inr ()))) c"
  by (auto simp: wp_def sink_finished_def client_inv_def finished_inv finished_success split: option.split)

lemma wp_send:
  assumes "client_inv c"
  shows "wp (sink_send x) (\<lambda>c' r. client_inv c' \<and> same_source c c' \<and> r \<noteq> Panic \<and>
    (\<forall>f. r = Ok f \<and> f \<noteq> FeedClosed \<longrightarrow>
      (\<forall>z. fed c' = Some z \<longrightarrow> (\<exists>y. fed c = Some y \<and> z = y @ data x)))) c"
proof (rule wpI)
  fix c' r
  assume run: "sink_send x c = Some (c', r)"
  then obtain w s where s: "send (sched c (now c)) x (sys c) (fsink c) = Some (w, s, r)"
    "c' = c\<lparr>sys := w, fsink := s, now := Suc (now c)\<rparr>"
    by (auto simp: sink_send_def split: option.splits)
  show "client_inv c' \<and> same_source c c' \<and> r \<noteq> Panic \<and>
    (\<forall>f. r = Ok f \<and> f \<noteq> FeedClosed \<longrightarrow>
      (\<forall>z. fed c' = Some z \<longrightarrow> (\<exists>y. fed c = Some y \<and> z = y @ data x)))"
    using assms [unfolded client_inv_def] s(1)
    by (cases rule: send_cases) (use assms s in \<open>simp_all add: client_inv_def fed_def\<close>)
qed

lemma wp_read_block:
  assumes "data_phase c fs rest" "client_inv c"
  shows "wp read_block (\<lambda>c' r. \<exists>ob fs'. r = Ok ob \<and> client_inv c' \<and> sink_kept c c' \<and> data_phase c' fs' rest \<and>
    (case ob of None \<Rightarrow> concat fs = [] \<and> concat fs' = [] | Some blk \<Rightarrow> concat fs = data blk @ concat fs')) c"
proof (cases "remaining c = 0")
  case True
  then show ?thesis
    using assms data_phase_done [OF assms(1)] waited_sink_kept [OF waited_refl, of c]
    by (auto simp: read_block_def)
next
  case False
  then have "returns read_block (\<lambda>c' r. \<exists>blk fs'. r = Ok (Some blk) \<and> data blk \<noteq> [] \<and>
    concat fs = data blk @ concat fs' \<and> data_phase c' fs' rest \<and> sink_kept c c') c"
    using returns_read_block [OF assms(1) _ assms(2)] by simp
  then have "wp read_block (\<lambda>c' r. \<exists>blk fs'. r = Ok (Some blk) \<and> data blk \<noteq> [] \<and>
    concat fs = data blk @ concat fs' \<and> data_phase c' fs' rest \<and> sink_kept c c') c"
    by (simp add: returns_wp)
  then show ?thesis
  proof (rule wp_mono, elim exE conjE)
    fix c' r blk fs'
    assume a: "r = Ok (Some blk)" "concat fs = data blk @ concat fs'" "data_phase c' fs' rest" "sink_kept c c'"
    then have "client_inv c'"
      using assms(2) by (simp add: sink_kept_def)
    with a show "\<exists>ob fs'. r = Ok ob \<and> client_inv c' \<and> sink_kept c c' \<and> data_phase c' fs' rest \<and>
      (case ob of None \<Rightarrow> concat fs = [] \<and> concat fs' = [] | Some blk \<Rightarrow> concat fs = data blk @ concat fs')"
      by (intro exI [of _ "Some blk"] exI [of _ fs']) simp
  qed
qed

lemma quiet_same: "same_source c c' \<Longrightarrow> quiet c c'"
  by (simp add: same_source_def)

lemma same_source_trans: "same_source a b \<Longrightarrow> same_source b c \<Longrightarrow> same_source a c"
  by (auto simp: same_source_def quiet_def)

lemma wp_pump_block:
  assumes "client_inv c"
  shows "wp (pump_block blk) (\<lambda>c' r. client_inv c' \<and> same_source c c' \<and>
    (r = Ok None \<longrightarrow> (\<forall>z. fed c' = Some z \<longrightarrow> (\<exists>y. fed c = Some y \<and> z = y @ data blk))) \<and>
    (\<forall>e. r = Ok (Some e) \<longrightarrow> (\<exists>v. e = SwupdateFinished v \<and> (v = Inr () \<longrightarrow> terminal (fsink c') = Some (Inr ()))))) c"
proof -
  have tf: "wp (if is_open (fsink c) then sink_try_finished else ret None) (\<lambda>c' r. \<exists>v. r = Ok v \<and>
    client_inv c' \<and> same_source c c' \<and> fed c' = fed c \<and>
    (v = Some (Inr ()) \<longrightarrow> terminal (fsink c') = Some (Inr ()))) c"
    using wp_try_finished [OF assms] assms by (auto simp: same_source_def quiet_def)
  show ?thesis
    unfolding pump_block_def wp_steps
  proof (rule wp_bind [OF tf], elim exE conjE, goal_cases)
    case (1 c2 seen v)
    show ?case
    proof (cases seen)
      case None
      show ?thesis
        unfolding None option.case
      proof (rule wp_bind [OF wp_send [OF \<open>client_inv c2\<close>]], goal_cases)
        case (1 c3 f)
        then have s3: "client_inv c3" "same_source c c3"
          using \<open>same_source c c2\<close> same_source_trans by blast+
        show ?case
        proof (cases "f = FeedClosed")
          case True
          show ?thesis
            unfolding True if_True simp_thms
            by (rule wp_bind [OF wp_finished [OF s3(1)]]) (use same_source_trans [OF s3(2)] in auto)
        qed (use 1 s3 \<open>fed c2 = fed c\<close> in auto)
      qed (use same_source_trans [OF \<open>same_source c c2\<close>] in blast)+
    qed (use 1 in auto)
  qed auto
qed

lemma pump_ended_step:
  assumes "pump_ended c2 fs1 rest e c'" "concat fs = data blk @ concat fs1" "remaining c2 \<le> remaining c"
    "\<And>z. fed c2 = Some z \<Longrightarrow> \<exists>y. fed c = Some y \<and> z = y @ data blk"
  shows "pump_ended c fs rest e c'"
proof (cases e)
  case InputClosed
  have "\<exists>y. fed c = Some y \<and> z = y @ concat fs" if "fed c' = Some z" for z
    using assms(1,4) that unfolding assms(2) InputClosed pump_ended_def PumpToSwupdateEnd.case
    by (metis append.assoc)
  then show ?thesis
    using assms(1,3) InputClosed by (auto simp: pump_ended_def)
qed (use assms(1,3) in \<open>auto simp: pump_ended_def\<close>)

lemma wp_pump:
  assumes "data_phase c fs rest" "client_inv c"
  shows "wp (pump_to_swupdate n read_block) (\<lambda>c' r. client_inv c' \<and> quiet c c' \<and>
    (\<forall>e. r = Ok e \<longrightarrow> pump_ended c fs rest e c')) c"
  using assms
proof (induction n arbitrary: c fs)
  case (Suc n)
  show ?case
    unfolding pump_to_swupdate.simps
  proof (rule wp_bind [OF wp_read_block [OF Suc.prems]], elim exE conjE, goal_cases)
    case (1 c1 got ob fs1)
    have q1: "quiet c c1" "\<And>z. fed c1 = Some z \<Longrightarrow> fed c = Some z"
      using \<open>sink_kept c c1\<close> Suc.prems(2) by (simp_all add: sink_kept_def)
    note rem = data_phase_remaining [OF Suc.prems(1)] data_phase_remaining [OF \<open>data_phase c1 fs1 rest\<close>]
    show ?case
    proof (cases got)
      case None
      then have "concat fs = []" "concat fs1 = []"
        using 1 by auto
      moreover from this have "remaining c = 0" "remaining c1 = 0"
        using rem by (simp_all only: list.size)
      ultimately show ?thesis
        using None 1 q1 by (auto simp: pump_ended_def)
    next
      case (Some blk)
      then have cat: "concat fs = data blk @ concat fs1"
        using 1 by auto
      show ?thesis
        unfolding Some option.case
      proof (rule wp_bind [OF wp_pump_block [OF \<open>client_inv c1\<close>, of blk]], goal_cases)
        case (1 c2 ended)
        have c2: "client_inv c2" "data_phase c2 fs1 rest" "quiet c c2"
          using 1 \<open>data_phase c1 fs1 rest\<close> data_phase_same [of c1 c2] q1(1) quiet_same quiet_trans by blast+
        have rem2: "remaining c2 \<le> remaining c"
          using rem cat data_phase_remaining [OF c2(2)] by simp
        show ?case
        proof (cases ended)
          case None
          then have st: "\<And>z. fed c2 = Some z \<Longrightarrow> \<exists>y. fed c = Some y \<and> z = y @ data blk"
            using 1 q1(2) by blast
          show ?thesis
            unfolding None option.case
            by (rule wp_mono [OF Suc.IH [OF c2(2,1)]])
              (use pump_ended_step [OF _ cat rem2 st] quiet_trans [OF c2(3)] in blast)
        qed (use 1 c2 rem2 in \<open>auto simp: pump_ended_def\<close>)
      qed (use q1(1) quiet_same quiet_trans in blast)+
    qed
  qed auto
qed simp

lemma phase_over_quiet: "quiet c c1 \<Longrightarrow> phase_over c1 rest c' \<Longrightarrow> phase_over c rest c'"
  by (auto simp: phase_over_def intro: quiet_trans)

lemma wp_drain_loop:
  assumes "data_phase c fs rest" "client_inv c" "terminal (fsink c) = Some (Inr ())"
  shows "wp (download_loop n False) (\<lambda>c' r. r = Ok () \<longrightarrow> phase_over c rest c' \<and> terminal (fsink c') = Some (Inr ())) c"
  using assms
proof (induction n arbitrary: c fs)
  case (Suc n)
  show ?case
  proof (cases "remaining c = 0")
    case True
    then show ?thesis
      using data_phase_done [OF Suc.prems(1)] Suc.prems(3) by (simp add: phase_over_def quiet_def)
  next
    case False
    have "wp (andthen read_block (\<lambda>_. download_loop n False))
      (\<lambda>c' r. r = Ok () \<longrightarrow> phase_over c rest c' \<and> terminal (fsink c') = Some (Inr ())) c"
    proof (rule wp_bind [OF wp_read_block [OF Suc.prems(1,2)]], elim exE conjE, goal_cases)
      case (1 c1 got ob fs1)
      have t: "terminal (fsink c1) = Some (Inr ())" "quiet c c1"
        using \<open>sink_kept c c1\<close> Suc.prems(3) by (simp_all add: sink_kept_def)
      show ?case
        by (rule wp_mono [OF Suc.IH [OF \<open>data_phase c1 fs1 rest\<close> \<open>client_inv c1\<close> t(1)]])
          (use phase_over_quiet [OF t(2)] in blast)
    qed auto
    then show ?thesis
      using False by simp
  qed
qed simp

lemma wp_download_loop:
  assumes "data_phase c fs rest" "client_inv c"
  shows "wp (download_loop n True) (\<lambda>c' r. r = Ok () \<longrightarrow> phase_over c rest c' \<and>
    (terminal (fsink c') = Some (Inr ()) \<or>
     (\<forall>z. fed c' = Some z \<longrightarrow> (\<exists>y. fed c = Some y \<and> z = y @ concat fs)))) c"
proof (cases n)
  case (Suc n')
  show ?thesis
  proof (cases "remaining c = 0")
    case True
    then show ?thesis
      using data_phase_done [OF assms(1)] Suc by (simp add: phase_over_def quiet_def)
  next
    case False
    then have pos: "(0 < remaining c) = True"
      by simp
    show ?thesis
      unfolding Suc download_loop.simps wp_steps pos if_True not_True_eq_False if_False
    proof (rule wp_bind [OF wp_pump [OF assms]], goal_cases)
      case (1 c1 e)
      then have p: "pump_ended c fs rest e c1" "client_inv c1" "quiet c c1"
        by blast+
      show ?case
      proof (cases e)
        case InputClosed
        then show ?thesis
          using p(1,3) data_phase_done [of c1 _ rest] by (auto simp: phase_over_def pump_ended_def)
      next
        case (SwupdateFinished v)
        show ?thesis
        proof (cases v)
          case (Inr u)
          then obtain fs1 where f: "data_phase c1 fs1 rest" "terminal (fsink c1) = Some (Inr ())"
            using p(1) SwupdateFinished unfolding pump_ended_def by auto
          show ?thesis
            unfolding SwupdateFinished Inr PumpToSwupdateEnd.case sum.case
            by (rule wp_mono [OF wp_drain_loop [OF f(1) p(2) f(2)]]) (use phase_over_quiet [OF p(3)] in blast)
        next
          case (Inl err)
          then show ?thesis
            using SwupdateFinished by (simp add: wp_def prog_defs split: option.split outcome.split)
        qed
      qed
    qed auto
  qed
qed simp

lemma returns_pump_block:
  assumes "healthy_client c" "tx (fsink c) = Some i" "lively i (sched c)" "fed c = Some y"
  shows "returns (pump_block blk) (\<lambda>c' r. healthy_client c' \<and> tx (fsink c') = Some i \<and> same_source c c' \<and>
    (r = Ok None \<and> fed c' = Some (y @ data blk) \<or> r = Ok (Some (SwupdateFinished (Inr ()))))) c"
proof -
  have op: "is_open (fsink c)"
    using assms(2) by (simp add: is_open_def)
  obtain w s v where p: "try_finished (sys c) (fsink c) = (w, s, v)"
    by (metis prod.exhaust)
  have h: "healthy_sink (sys c) (fsink c)" "\<And>k. list_all healthy_action (sched c k)"
    using assms(1) by (simp_all add: healthy_client_def)
  have f: "healthy_sink w s" "sink_stream w s = Some y" "tx s = Some i" "v = None \<or> v = Some (Inr ())"
    using healthy_poll_status [OF h(1) op p] assms(2,4) by (simp_all add: fed_def)
  obtain xs ys where sc: "sched c (now c) = xs @ drain_round i @ ys"
    using assms(3) unfolding lively_def by blast
  obtain w' where "send (sched c (now c)) blk w s = Some (w', s, Ok (FeedOk (bm_len blk)))" "healthy_sink w' s"
    "sink_stream w' s = Some (y @ data blk)"
    using healthy_send [OF f(1,3,2) h(2) sc] by blast
  then show ?thesis
    using op p f h(2) by (auto simp: pump_block_def prog_defs sink_try_finished_def sink_send_def returns_def
        healthy_client_def fed_def)
qed

lemma returns_pump:
  assumes "data_phase c fs rest" "healthy_client c" "tx (fsink c) = Some i" "lively i (sched c)" "fed c = Some y"
    "remaining c < n"
  shows "returns (pump_to_swupdate n read_block) (\<lambda>c' r. healthy_client c' \<and> tx (fsink c') = Some i \<and>
    (r = Ok InputClosed \<and> fed c' = Some (y @ concat fs) \<or> r = Ok (SwupdateFinished (Inr ())))) c"
  using assms
proof (induction n arbitrary: c fs y)
  case (Suc n)
  show ?case
  proof (cases "remaining c = 0")
    case True
    have cat: "concat fs = []"
      using data_phase_done [OF Suc.prems(1) True] by simp
    show ?thesis
      using Suc.prems True by (simp add: read_block_def returns_andthen cat)
  next
    case False
    then have pos: "0 < remaining c"
      by simp
    show ?thesis
      unfolding pump_to_swupdate.simps
    proof (rule returns_bind [OF returns_read_block [OF Suc.prems(1) pos healthy_client_inv [OF Suc.prems(2)]]],
        elim exE conjE, goal_cases)
      case (1 c1 got blk fs1)
      have k: "healthy_client c1" "tx (fsink c1) = Some i" "lively i (sched c1)" "fed c1 = Some y"
        using \<open>sink_kept c c1\<close> Suc.prems(2-5) by (simp_all add: sink_kept_def quiet_def)
      have got: "got = Some blk"
        using \<open>Ok got = Ok (Some blk)\<close> by simp
      show ?case
        unfolding got option.case
      proof (rule returns_bind [OF returns_pump_block [OF k, of blk]], goal_cases)
        case (1 c2 ended)
        then have k2: "healthy_client c2" "tx (fsink c2) = Some i" "same_source c1 c2"
          by blast+
        have ph2: "data_phase c2 fs1 rest" "lively i (sched c2)"
          using data_phase_same [OF k2(3)] \<open>data_phase c1 fs1 rest\<close> k(3) k2(3) by (simp_all add: same_source_def quiet_def)
        show ?case
        proof (cases ended)
          case None
          then have f2: "fed c2 = Some (y @ data blk)"
            using 1 by simp
          have "remaining c2 < n"
            using data_phase_remaining [OF ph2(1)] data_phase_remaining [OF Suc.prems(1)] Suc.prems(6)
              \<open>concat fs = data blk @ concat fs1\<close> \<open>data blk \<noteq> []\<close> by (cases "data blk") auto
          from Suc.IH [OF ph2(1) k2(1,2) ph2(2) f2 this] show ?thesis
            unfolding None option.case \<open>concat fs = data blk @ concat fs1\<close> by simp
        qed (use 1 k2 in auto)
      qed auto
    qed auto
  qed
qed simp

lemma returns_drain_loop:
  assumes "data_phase c fs rest" "healthy_client c" "remaining c < n"
  shows "returns (download_loop n False) (\<lambda>c' r. r = Ok () \<and> healthy_client c' \<and> fsink c' = fsink c) c"
  using assms
proof (induction n arbitrary: c fs)
  case (Suc n)
  show ?case
  proof (cases "remaining c = 0")
    case False
    then have pos: "0 < remaining c"
      by simp
    have "returns (andthen read_block (\<lambda>_. download_loop n False))
      (\<lambda>c' r. r = Ok () \<and> healthy_client c' \<and> fsink c' = fsink c) c"
    proof (rule returns_bind [OF returns_read_block [OF Suc.prems(1) pos healthy_client_inv [OF Suc.prems(2)]]],
        elim exE conjE, goal_cases)
      case (1 c1 got blk fs1)
      have k: "healthy_client c1" "fsink c1 = fsink c"
        using \<open>sink_kept c c1\<close> Suc.prems(2) by (simp_all add: sink_kept_def)
      have "remaining c1 < n"
        using data_phase_remaining [OF \<open>data_phase c1 fs1 rest\<close>] data_phase_remaining [OF Suc.prems(1)] Suc.prems(3)
          \<open>concat fs = data blk @ concat fs1\<close> \<open>data blk \<noteq> []\<close> by (cases "data blk") auto
      with Suc.IH [OF \<open>data_phase c1 fs1 rest\<close> k(1)] show ?case
        by (simp add: k(2))
    qed auto
    with pos show ?thesis
      by simp
  qed (use Suc.prems in simp)
qed simp

lemma returns_download_loop:
  assumes "data_phase c fs rest" "healthy_client c" "tx (fsink c) = Some i" "lively i (sched c)" "fed c = Some y"
    "remaining c + 1 < n"
  shows "returns (download_loop n True) (\<lambda>c' r. r = Ok () \<and> healthy_client c' \<and>
    (fed c' = Some (y @ concat fs) \<or> terminal (fsink c') = Some (Inr ()))) c"
proof (cases "remaining c = 0")
  case True
  have cat: "concat fs = []"
    using data_phase_done [OF assms(1) True] by simp
  obtain n' where "n = Suc n'"
    using assms(6) by (cases n) auto
  then show ?thesis
    using True assms(2,5) by (simp add: cat)
next
  case False
  then have pos: "(0 < remaining c) = True"
    by simp
  obtain n' where n: "n = Suc n'" "remaining c < n'"
    using assms(6) by (cases n) auto
  have lt: "remaining c < Suc n'"
    using n by simp
  note pm = returns_conj [OF returns_pump [OF assms(1-5) lt] wp_pump [OF assms(1) healthy_client_inv [OF assms(2)]]]
  show ?thesis
    unfolding n(1) download_loop.simps returns_steps pos if_True not_True_eq_False if_False
  proof (rule returns_bind [OF pm], goal_cases)
    case (1 c1 e)
    then have p: "pump_ended c fs rest e c1" "healthy_client c1"
      "e = InputClosed \<and> fed c1 = Some (y @ concat fs) \<or> e = SwupdateFinished (Inr ())"
      by auto
    show ?case
    proof (cases e)
      case InputClosed
      then show ?thesis
        using p by simp
    next
      case (SwupdateFinished v)
      then have v: "v = Inr ()"
        using p(3) by simp
      obtain fs1 where f: "data_phase c1 fs1 rest" "remaining c1 \<le> remaining c"
        "terminal (fsink c1) = Some (Inr ())"
        using p(1) SwupdateFinished v unfolding pump_ended_def by auto
      have "remaining c1 < n'"
        using f(2) n(2) by simp
      from returns_drain_loop [OF f(1) p(2) this] show ?thesis
        unfolding SwupdateFinished v PumpToSwupdateEnd.case sum.case using f(3)
        by (auto elim: returns_mono)
    qed
  qed auto
qed

end
