(* ===== verification/Fastboot_Tcp_Spec.thy ===== *)
theory Fastboot_Tcp_Spec
  imports Fastboot_Data
begin

text \<open>
  What a fastboot client over TCP can rely on: framing, handshake, one answer per command, integrity and
  completion of downloads, and a listener that outlives its clients.

  \<open>silent\<close> and \<open>says\<close> are a small calculus of what a program sends: nothing, or frames with a given
  property when it succeeds.
\<close>

subsection \<open>Definitions\<close>

text \<open>A program that sends nothing, and one that sends frames when it succeeds.\<close>

definition silent :: "('c client_scheme, 'a) prog \<Rightarrow> bool" where
  "silent m \<longleftrightarrow> (\<forall>c. wp m (\<lambda>c' r. outbox c' = outbox c) c)"

definition says :: "('c client_scheme, 'a) prog \<Rightarrow> (bytes list \<Rightarrow> bool) \<Rightarrow> bool" where
  "says m P \<longleftrightarrow> (\<forall>c. wp m (\<lambda>c' r. is_Ok r \<longrightarrow> (\<exists>rs. outbox c' = outbox c @ concat (map frame rs) \<and> P rs)) c)"

text \<open>A complete answer: one final reply, after a progress message or a data phase.\<close>

definition is_final :: "bytes \<Rightarrow> bool" where
  "is_final r \<longleftrightarrow> take 4 r = ascii ''OKAY'' \<or> take 4 r = ascii ''FAIL''"

fun answered :: "bytes list \<Rightarrow> bool" where
  "answered [f] = is_final f"
| "answered [i, f] = ((take 4 i = ascii ''INFO'' \<or> take 4 i = ascii ''DATA'') \<and> is_final f)"
| "answered [d, doc, f] = (take 4 d = ascii ''DATA'' \<and> is_final f)"
| "answered _ = False"

text \<open>What sending leaves alone.\<close>

definition sent_from :: "'c client_scheme \<Rightarrow> 'c client_scheme \<Rightarrow> bool" where
  "sent_from c c' \<longleftrightarrow> inbox c' = inbox c \<and> fsink c' = fsink c \<and> sched c' = sched c \<and>
    client.more c' = client.more c \<and>
    (client_inv c \<longrightarrow> client_inv c' \<and> (\<forall>z. fed c' = Some z \<longrightarrow> fed c = Some z)) \<and>
    (healthy_client c \<longrightarrow> healthy_client c' \<and> fed c' = fed c)"

definition demo_client :: tcp_session where
  "demo_client = tcp_new default_tcp_config default_params (ascii ''board'') (ascii ''{}'') [] [] ShutOk
     (\<lambda>_. drain_round 0) idle_world"

text \<open>A session with an open transfer.\<close>

definition demo_open :: tcp_session where
  "demo_open = (case session_open idle_world (session_new default_params RECV_BUFFER_SIZE) of
     (w, s, _) \<Rightarrow> demo_client\<lparr>sys := w, fsink := s,
       inbox := [Arrive (be_bytes 8 2 @ [1]), Arrive (2 # be_bytes 8 1 @ [3, 7])]\<rparr>)"

subsection \<open>Replies\<close>

named_theorems silent_intros \<open>programs that send nothing\<close>

lemma silent_basic [silent_intros]:
  "silent (ret x)" "silent (raise e)" "silent (query g)" "silent stuck" "silent pause"
  by (simp_all add: silent_def) (simp add: wp_def pause_def)

lemma silent_modify [silent_intros]: "(\<And>c. outbox (f c) = outbox c) \<Longrightarrow> silent (modify f)"
  by (simp add: silent_def)

lemma silent_andthen [silent_intros]:
  assumes "silent m" "\<And>x. silent (f x)"
  shows "silent (andthen m f)"
  unfolding silent_def
proof (intro allI, rule wp_bind)
  fix c :: "'a client_scheme"
  show "wp m (\<lambda>c' r. outbox c' = outbox c) c"
    using assms(1) by (simp add: silent_def)
  show "wp (f x) (\<lambda>c' r. outbox c' = outbox c) c'" if "outbox c' = outbox c" for c' x
    using assms(2) [unfolded silent_def, THEN spec, of x c'] by (simp only: that)
qed auto

lemma silent_attempt [silent_intros]: "silent m \<Longrightarrow> silent (attempt m)"
  by (auto simp: silent_def wp_attempt elim!: wp_mono split: outcome.split)

lemma silent_if [silent_intros]: "silent a \<Longrightarrow> silent b \<Longrightarrow> silent (if P then a else b)"
  by simp

lemma silent_case_option [silent_intros]:
  "silent a \<Longrightarrow> (\<And>x. silent (f x)) \<Longrightarrow> silent (case v of None \<Rightarrow> a | Some x \<Rightarrow> f x)"
  by (cases v) simp_all

lemma silent_reads [silent_intros]: "silent (sock_read lim n)" "silent (sock_read_exact lim n)"
  unfolding sock_read_def sock_read_exact_def
  by (rule silent_andthen [OF silent_basic(5)], simp add: silent_def wp_def split: prod.split)+

lemma silent_sink [silent_intros]:
  "silent (sink_buffer n)" "silent sink_open" "silent (sink_send x)" "silent sink_eof"
  "silent sink_try_finished" "silent sink_finished" "silent sink_abort"
  by (auto simp: silent_def wp_def sink_buffer_def sink_open_def sink_send_def sink_eof_def sink_try_finished_def
      sink_finished_def sink_abort_def split: prod.split option.split)

lemma silent_read_header [silent_intros]: "silent read_header"
proof -
  have "silent (read_header_loop k buf)" for k buf
    by (induction k arbitrary: buf) (auto intro!: silent_intros)
  then show ?thesis
    by (simp add: read_header_def)
qed

lemma silent_read_block [silent_intros]: "silent read_block"
  unfolding read_block_def next_frame_def fill_block_def read_into_def by (intro silent_intros) simp_all

lemma silent_pump [silent_intros]: "silent nb \<Longrightarrow> silent (pump_to_swupdate n nb)"
  by (induction n) (auto simp: pump_block_def intro!: silent_intros)

lemma says_bind:
  assumes "silent m" "\<And>x. says (f x) P"
  shows "says (andthen m f) P"
  unfolding says_def
proof (intro allI, rule wp_bind)
  fix c :: "'a client_scheme"
  show "wp m (\<lambda>c' r. outbox c' = outbox c) c"
    using assms(1) by (simp add: silent_def)
  show "wp (f x) (\<lambda>c' r. is_Ok r \<longrightarrow> (\<exists>rs. outbox c' = outbox c @ concat (map frame rs) \<and> P rs)) c'"
    if "outbox c' = outbox c" for c' x
    using assms(2) [unfolded says_def, THEN spec, of x c'] by (simp only: that)
qed auto

lemma says_andthen:
  assumes "says m P" "\<And>x. says (f x) Q" "\<And>rs rs'. P rs \<Longrightarrow> Q rs' \<Longrightarrow> R (rs @ rs')"
  shows "says (andthen m f) R"
  unfolding says_def
proof (intro allI, rule wp_bind)
  fix c :: "'a client_scheme"
  show "wp m (\<lambda>c' r. is_Ok r \<longrightarrow> (\<exists>rs. outbox c' = outbox c @ concat (map frame rs) \<and> P rs)) c"
    using assms(1) by (simp add: says_def)
next
  fix c c' :: "'a client_scheme" and x :: 'b
  assume "is_Ok (Ok x) \<longrightarrow> (\<exists>rs. outbox c' = outbox c @ concat (map frame rs) \<and> P rs)"
  then obtain rs where rs: "outbox c' = outbox c @ concat (map frame rs)" "P rs"
    by auto
  have "wp (f x) (\<lambda>c'' r. is_Ok r \<longrightarrow> (\<exists>rs. outbox c'' = outbox c' @ concat (map frame rs) \<and> Q rs)) c'"
    using assms(2) by (simp add: says_def)
  then show "wp (f x) (\<lambda>c' r. is_Ok r \<longrightarrow> (\<exists>rs. outbox c' = outbox c @ concat (map frame rs) \<and> R rs)) c'"
  proof (rule wp_mono)
    fix c2 r
    assume a: "is_Ok r \<longrightarrow> (\<exists>rs. outbox c2 = outbox c' @ concat (map frame rs) \<and> Q rs)"
    show "is_Ok r \<longrightarrow> (\<exists>rs. outbox c2 = outbox c @ concat (map frame rs) \<and> R rs)"
    proof
      assume "is_Ok r"
      then obtain rs' where "outbox c2 = outbox c' @ concat (map frame rs')" "Q rs'"
        using a by blast
      then show "\<exists>rs. outbox c2 = outbox c @ concat (map frame rs) \<and> R rs"
        using rs assms(3) by (intro exI [of _ "rs @ rs'"]) simp
    qed
  qed
qed auto

lemma wp_write_all: "wp (write_all bs) (\<lambda>c' r. is_Ok r \<longrightarrow> outbox c' = outbox c @ bs) c"
  by (simp add: write_all_def wp_def prog_defs pause_def split: list.split write_outcome.split)

lemma says_send_packet: "P [bs] \<Longrightarrow> says (send_packet bs) P"
  unfolding says_def
proof (intro allI)
  fix c :: "'a client_scheme"
  assume "P [bs]"
  have "wp (send_packet bs) (\<lambda>c' r. is_Ok r \<longrightarrow> outbox c' = outbox c @ frame bs) c"
    unfolding send_packet_def frame_def
  proof (rule wp_bind [OF wp_write_all], goal_cases)
    case (1 c' x)
    then show ?case
      using wp_write_all [of bs c'] by simp
  qed auto
  then show "wp (send_packet bs) (\<lambda>c' r. is_Ok r \<longrightarrow> (\<exists>rs. outbox c' = outbox c @ concat (map frame rs) \<and> P rs)) c"
    by (rule wp_mono) (use \<open>P [bs]\<close> in \<open>auto intro: exI [of _ "[bs]"]\<close>)
qed

lemma is_final_replies [simp]:
  "is_final OKAY" "is_final FAIL_CLOSE" "is_final FAIL_CMD" "is_final FAIL_EPIPE" "is_final FAIL_FLASH"
  "is_final FAIL_OPEN" "is_final FAIL_UNKNOWN_PART"
  by (simp_all add: is_final_def reply_defs)

lemma is_final_getvar: "fastboot_getvar_reply m j i arg ser = Some r \<Longrightarrow> is_final r"
proof -
  have lit: "take 4 (ascii s) = ascii (take 4 s)" for s
    by (simp add: ascii_def take_map)
  show "fastboot_getvar_reply m j i arg ser = Some r \<Longrightarrow> is_final r"
    unfolding fastboot_getvar_reply_def is_final_def OKAY_def
    by (auto simp del: ascii_Cons simp: lit split: if_split_asm)
qed

lemma take_data_header [simp]: "take 4 (data_header n) = ascii ''DATA''"
  by (simp add: data_header_def)

lemma says_silent: "silent m \<Longrightarrow> P [] \<Longrightarrow> says m P"
  unfolding silent_def says_def by (intro allI, rule wp_mono, erule spec) (auto intro: exI [of _ "[]"])

lemma says_never:
  "(\<And>c c' x. m c \<noteq> Some (c', Ok x)) \<Longrightarrow> says m P"
  by (auto simp: says_def intro!: wpI elim!: is_Ok.elims)

lemma says_raise: "says (raise e) P"
  by (rule says_never) (simp add: raise_def)

lemma says_mono: "says m P \<Longrightarrow> (\<And>rs. P rs \<Longrightarrow> Q rs) \<Longrightarrow> says m Q"
  unfolding says_def by (blast intro: wp_mono)

lemma says_case_sum: "(\<And>e. says (f e) P) \<Longrightarrow> (\<And>x. says (g x) P) \<Longrightarrow> says (case v of Inl e \<Rightarrow> f e | Inr x \<Rightarrow> g x) P"
  by (cases v) simp_all

lemma says_if: "says a P \<Longrightarrow> says b P \<Longrightarrow> says (if Q then a else b) P"
  by simp

lemmas says_intros = says_bind says_case_sum says_if silent_intros

lemma says_download_loop: "says (download_loop n fw) (\<lambda>rs. rs = [])"
proof (induction n arbitrary: fw)
  case (Suc n)
  have never: "says (andthen (attempt (send_packet FAIL_EPIPE)) (\<lambda>_. andthen sink_abort (\<lambda>_. raise err)))
      (\<lambda>rs. rs = [])" for err :: io_error
    by (rule says_never) (auto simp: prog_defs split: option.splits outcome.splits)
  have "says (case e of InputClosed \<Rightarrow> ret () | SwupdateFinished (Inr _) \<Rightarrow> download_loop n False
      | SwupdateFinished (Inl err) \<Rightarrow> andthen (attempt (send_packet FAIL_EPIPE)) (\<lambda>_.
          andthen sink_abort (\<lambda>_. raise err))) (\<lambda>rs. rs = [])" for e
    by (auto split: PumpToSwupdateEnd.split sum.split intro!: never Suc says_silent silent_intros)
  then show ?case
    unfolding download_loop.simps by (intro says_intros Suc) (auto intro: says_silent silent_intros)
qed (auto intro: says_silent silent_intros)

lemma says_stream_download: "says (stream_download n) (\<lambda>rs. \<exists>f. rs = [f] \<and> is_final f)"
  unfolding stream_download_def
proof (rule says_bind)
  show "says (andthen (download_loop (n + 2) True) (\<lambda>_. send_packet OKAY)) (\<lambda>rs. \<exists>f. rs = [f] \<and> is_final f)"
    by (rule says_andthen [OF says_download_loop says_send_packet]) auto
qed (auto intro: silent_intros)

lemma says_finish_download: "says finish_download (\<lambda>rs. \<exists>f. rs = [f] \<and> is_final f)"
  unfolding finish_download_def
  by (intro says_intros says_send_packet) (auto simp: reset_after_finish_def)

lemma says_handle_download: "says (handle_download n k) answered"
proof -
  have fin: "says (andthen (modify (\<lambda>c. c\<lparr>fastboot_pending_flash :=
              (case k of Fastboot \<Rightarrow> True | Plain \<Rightarrow> \<not> fastboot_usb_session_open c)\<rparr>)) (\<lambda>_.
            if n = 0 then send_packet OKAY else stream_download n)) (\<lambda>rs. \<exists>f. rs = [f] \<and> is_final f)"
    by (intro says_intros says_send_packet says_stream_download) auto
  have "says (andthen (send_packet (data_header n)) (\<lambda>_.
          andthen (modify (\<lambda>c. c\<lparr>fastboot_pending_flash :=
              (case k of Fastboot \<Rightarrow> True | Plain \<Rightarrow> \<not> fastboot_usb_session_open c)\<rparr>)) (\<lambda>_.
            if n = 0 then send_packet OKAY else stream_download n))) answered"
    by (rule says_andthen [OF says_send_packet [of "\<lambda>rs. rs = [data_header n]"] fin]) auto
  then show ?thesis
    unfolding handle_download_def
    by (intro says_bind [OF silent_basic(3)] says_bind [OF silent_if [OF silent_basic(1) silent_attempt [OF silent_sink(2)]]]
        says_case_sum) (simp_all add: says_send_packet)
qed

lemma says_handle_flash: "says handle_flash answered"
proof -
  have "take 4 INFO_WAIT_SWUPDATE = ascii ''INFO''"
    by (simp add: INFO_WAIT_SWUPDATE_def)
  then have "says (andthen (send_packet INFO_WAIT_SWUPDATE) (\<lambda>_. finish_download)) answered"
    by (intro says_andthen [OF says_send_packet [of "\<lambda>rs. rs = [INFO_WAIT_SWUPDATE]"] says_finish_download]) auto
  then show ?thesis
    unfolding handle_flash_def by (intro says_bind [OF silent_basic(3)] says_if) (simp_all add: says_send_packet)
qed

lemma says_handle_fetch: "says (handle_fetch t) answered"
proof -
  have fin: "says (andthen (send_prebuilt (be_bytes 8 (length json) @ json)) (\<lambda>_. send_packet OKAY :: (tcp_session, unit) prog))
      (\<lambda>rs. \<exists>f. rs = [json, f] \<and> is_final f)" for json
  proof -
    have "says (send_prebuilt (be_bytes 8 (length json) @ json)) (\<lambda>rs. rs = [json])"
      unfolding says_def send_prebuilt_def
      by (intro allI wp_mono [OF wp_write_all]) (simp add: frame_def)
    then show ?thesis
      by (rule says_andthen [OF _ says_send_packet [of "\<lambda>rs. rs = [OKAY]"]]) auto
  qed
  have "says (andthen (send_packet (data_header (length json))) (\<lambda>_.
      andthen (send_prebuilt (be_bytes 8 (length json) @ json)) (\<lambda>_. send_packet OKAY :: (tcp_session, unit) prog))) answered" for json
    by (rule says_andthen [OF says_send_packet [of "\<lambda>rs. rs = [data_header (length json)]"] fin]) auto
  then show ?thesis
    unfolding handle_fetch_def Let_def by (intro says_bind [OF silent_basic(3)]) simp
qed

lemma says_handle_wopen: "says handle_wopen answered"
  unfolding handle_wopen_def by (intro says_intros says_send_packet) auto

lemma says_handle_getvar: "says (handle_getvar arg) answered"
  unfolding says_def handle_getvar_def wp_steps
proof
  fix c :: tcp_session
  let ?P = "\<lambda>m. wp m (\<lambda>c' r. is_Ok r \<longrightarrow> (\<exists>rs. outbox c' = outbox c @ concat (map frame rs) \<and> answered rs)) c"
  have "?P (send_packet r)" if "is_final r" for r
    using says_send_packet [of answered r, unfolded says_def, rule_format] that by simp
  then show "?P (case fastboot_getvar_reply (host_model c) (host_json c) (boot (sys c)) arg (tcp_serial (config c)) of
      Some reply \<Rightarrow> send_packet reply | None \<Rightarrow> send_packet FAIL_CMD)"
    using is_final_getvar by (auto split: option.split)
qed

lemma says_dispatch: "says (dispatch cmd) answered"
  unfolding dispatch_def
  by (auto split: option.split prod.split ParsedCommand.split intro!: says_handle_wopen says_handle_getvar
      says_handle_fetch says_handle_download says_handle_flash says_send_packet
      says_mono [OF says_finish_download])

subsection \<open>Properties\<close>

lemma send_packet_Ok: "send_packet bs c = Some (c', Ok ()) \<Longrightarrow> outbox c' = outbox c @ frame bs"
  using says_send_packet [of "\<lambda>rs. rs = [bs]" bs] by (fastforce simp: says_def dest: wpD)

lemma sent_from_trans: "sent_from a b \<Longrightarrow> sent_from b c \<Longrightarrow> sent_from a c"
  by (auto simp: sent_from_def)

lemma wp_write_all_frame: "wp (write_all bs) (\<lambda>c' r. sent_from c c') c"
  using waited_pause [of c "inbox c"]
  by (auto simp: wp_def write_all_def prog_defs pause_def waited_def client_inv_def fed_def healthy_client_def
      sent_from_def split: list.split write_outcome.split)

lemma wp_send_packet_frame: "wp (send_packet bs) (\<lambda>c' r. sent_from c c') c"
  unfolding send_packet_def
proof (rule wp_bind [OF wp_write_all_frame], goal_cases)
  case (1 c' x)
  then show ?case
    using sent_from_trans by (blast intro: wp_mono [OF wp_write_all_frame])
qed auto

lemma send_packet_frame: "send_packet bs c = Some (c', r) \<Longrightarrow> sent_from c c'"
  using wpD [OF wp_send_packet_frame] .

text \<open>
  C26.  Framing round trip.  What \<open>send_packet\<close> writes for a command of at most 4096 bytes is read back as
  exactly that command by \<open>recv_command\<close>, however the connection cuts the bytes into segments and
  whatever follows, and what follows stays unread.
\<close>

theorem tcp_framing_roundtrip:
  assumes "send_packet cmd s = Some (s', Ok ())" "outbox s = []"
    "steady (inbox c)" "net_bytes (inbox c) = outbox s' @ rest" "length cmd \<le> 4096"
  shows "\<exists>c'. recv_command c = Some (c', Ok (Some cmd)) \<and> steady (inbox c') \<and> net_bytes (inbox c') = rest \<and>
    outbox c' = outbox c \<and> fsink c' = fsink c"
proof -
  have "net_bytes (inbox c) = frame cmd @ rest"
    using assms(4) send_packet_Ok [OF assms(1)] assms(2) by simp
  from returns_recv_command [OF assms(3) this assms(5)] show ?thesis
    by (auto dest!: returnsD simp: waited_fields)
qed

lemma demo_client_simps [simp]:
  "inbox demo_client = []" "outbox demo_client = []" "wr_script demo_client = []" "sys demo_client = idle_world"
  "fsink demo_client = session_new default_params RECV_BUFFER_SIZE" "now demo_client = 0"
  "sched demo_client = (\<lambda>_. drain_round 0)" "fastboot_pending_flash demo_client = False"
  "remaining demo_client = 0" "frame_remaining demo_client = 0"
  "inactivity_timeout demo_client = Some 30"
  by (simp_all add: demo_client_def tcp_new_def tcp_inactivity_timeout_def default_tcp_config_def)

theorem tcp_framing_roundtrip_witness:
  "\<exists>c'. recv_command (demo_client\<lparr>inbox := [Arrive [0, 0, 0], Arrive [0, 0, 0, 0, 5, 67], Arrive [], Arrive [108, 111, 115, 101, 7]]\<rparr>)
     = Some (c', Ok (Some (ascii ''Close''))) \<and> net_bytes (inbox c') = [7]"
proof -
  obtain s' where s': "send_packet (ascii ''Close'') demo_client = Some (s', Ok ())"
    by (auto simp: send_packet_def write_all_def prog_defs pause_def)
  have "outbox s' = [0, 0, 0, 0, 0, 0, 0, 5, 67, 108, 111, 115, 101]"
    using send_packet_Ok [OF s'] by (simp add: frame_def be_bytes_def)
  then show ?thesis
    using tcp_framing_roundtrip [OF s', of "demo_client\<lparr>inbox := [Arrive [0, 0, 0], Arrive [0, 0, 0, 0, 5, 67], Arrive [], Arrive [108, 111, 115, 101, 7]]\<rparr>" "[7]"]
    by auto
qed

text \<open>
  A frame that announces a command of more than 4096 bytes is refused before any of it is read; the
  session then ends with that error.
\<close>

theorem tcp_oversized_command_refused:
  assumes "steady (inbox c)" "net_bytes (inbox c) = be_bytes 8 n @ rest" "4096 < n" "n < 2 ^ 64"
  shows "\<exists>c'. command_loop (Suc k) c = Some (c', Err (invalid_data ''fastboot command frame too large'')) \<and>
    net_bytes (inbox c') = rest"
proof -
  have "returns (command_loop (Suc k)) (\<lambda>c' r. r = Err (invalid_data ''fastboot command frame too large'') \<and>
    net_bytes (inbox c') = rest) c"
    unfolding command_loop.simps by (rule returns_bind [OF returns_recv_too_large [OF assms]]) auto
  then show ?thesis
    by (auto dest!: returnsD)
qed

theorem tcp_oversized_command_refused_witness:
  "\<exists>c'. command_loop 1 (demo_client\<lparr>inbox := [Arrive [0, 0, 0, 0, 0, 0, 16, 1, 99]]\<rparr>) =
     Some (c', Err (invalid_data ''fastboot command frame too large'')) \<and> net_bytes (inbox c') = [99]"
  using tcp_oversized_command_refused [of "demo_client\<lparr>inbox := [Arrive [0, 0, 0, 0, 0, 0, 16, 1, 99]]\<rparr>" 4097 "[99]" 0]
  by (simp add: be_bytes_def)

text \<open>
  C11.  Every command is answered.  Whatever the command, the state of the session and the behaviour of
  the other tasks, a dispatch that does not end the connection has sent exactly one final reply (OKAY or
  FAIL), alone or after a progress message, a data header, or a data header and the document it announces.
\<close>

theorem tcp_every_command_answered:
  assumes "dispatch cmd c = Some (c', Ok ())"
  shows "\<exists>rs. outbox c' = outbox c @ concat (map frame rs) \<and> answered rs"
  using wpD [OF says_dispatch [unfolded says_def, THEN spec] assms] by simp

theorem tcp_every_command_answered_witness:
  "\<exists>c' rs. dispatch (ascii ''flash:x'') demo_client = Some (c', Ok ()) \<and>
     outbox c' = concat (map frame rs) \<and> answered rs"
proof -
  have pc: "parse_command (ascii ''flash:x'') = Some (Flash, 7)"
    by (simp add: parse_command_def parse_named_def token_len_def is_padding_byte_def is_ascii_whitespace_def Let_def)
  have "returns (dispatch (ascii ''flash:x'')) (\<lambda>c' r. r = Ok ()) demo_client"
    unfolding dispatch_def pc
    by (simp add: handle_flash_def send_packet_def write_all_def returns_def prog_defs pause_def)
  then obtain c' where c': "dispatch (ascii ''flash:x'') demo_client = Some (c', Ok ())"
    by (auto dest!: returnsD)
  then show ?thesis
    using tcp_every_command_answered [OF c'] by auto
qed


lemma idle_demo_inv: "client_inv (demo_client\<lparr>inbox := es\<rparr>)"
  by (simp add: client_inv_def session_new_inv arena_wf_def idle_world_def)

lemma returns_send_packet:
  assumes "wr_script c = []"
  shows "returns (send_packet bs) (\<lambda>c' r. r = Ok () \<and> outbox c' = outbox c @ frame bs \<and> sent_from c c') c"
proof -
  have "returns (send_packet bs) (\<lambda>c' r. r = Ok () \<and> outbox c' = outbox c @ frame bs) c"
    using assms by (simp add: send_packet_def write_all_def returns_def prog_defs pause_def frame_def)
  from returns_conj [OF this wp_send_packet_frame] show ?thesis
    by (auto elim: returns_mono)
qed

lemma returns_stream_download:
  assumes "healthy_client c" "tx (fsink c) = Some i" "lively i (sched c)" "fed c = Some y" "wr_script c = []"
    "list_all (\<lambda>f. f \<noteq> [] \<and> length f < 2 ^ 64) fs" "steady (inbox c)"
    "net_bytes (inbox c) = concat (map frame fs) @ rest"
  shows "returns (stream_download (length (concat fs))) (\<lambda>c' r. r = Ok () \<and> outbox c' = outbox c @ frame OKAY \<and>
    net_bytes (inbox c') = rest \<and> healthy_client c' \<and>
    (fed c' = Some (y @ concat fs) \<or> terminal (fsink c') = Some (Inr ()))) c"
proof -
  let ?c = "c\<lparr>remaining := length (concat fs), frame_remaining := 0\<rparr>"
  have ph: "data_phase ?c ([] # fs) rest"
    using assms(6-8) by (simp add: data_phase_def)
  have h: "healthy_client ?c" "tx (fsink ?c) = Some i" "lively i (sched ?c)" "fed ?c = Some y"
    using assms(1-4) by (simp_all add: fed_def healthy_client_def)
  have lt: "remaining ?c + 1 < length (concat fs) + 2"
    by simp
  note lp = returns_conj [OF returns_download_loop [OF ph h lt] wp_download_loop [OF ph healthy_client_inv [OF h(1)]]]
  show ?thesis
    unfolding stream_download_def returns_steps
  proof (rule returns_bind [OF lp], goal_cases)
    case (1 c1 u)
    then have c1: "healthy_client c1" "fed c1 = Some (y @ concat fs) \<or> terminal (fsink c1) = Some (Inr ())"
      "outbox c1 = outbox c" "wr_script c1 = []" "net_bytes (inbox c1) = rest"
      using assms(5) by (auto simp: phase_over_def quiet_def)
    show ?case
      by (rule returns_mono [OF returns_send_packet [OF c1(4)]]) (use c1 in \<open>auto simp: sent_from_def\<close>)
  qed auto
qed

text \<open>
  C8.  A download over TCP ends.  On a device on which nothing fails and whose tasks are scheduled at
  every await point, a host that sends the announced payload, framed and cut in any way, gets its OKAY:
  the loop stops, and the payload is in the queue of the transfer unless SWUpdate has already succeeded.
\<close>

theorem tcp_download_completes:
  assumes "healthy_client c" "tx (fsink c) = Some i" "lively i (sched c)" "fed c = Some y" "wr_script c = []"
    "list_all (\<lambda>f. f \<noteq> [] \<and> length f < 2 ^ 64) fs" "steady (inbox c)"
    "net_bytes (inbox c) = concat (map frame fs) @ rest"
  shows "\<exists>c'. stream_download (length (concat fs)) c = Some (c', Ok ()) \<and> outbox c' = outbox c @ frame OKAY \<and>
    net_bytes (inbox c') = rest \<and> (fed c' = Some (y @ concat fs) \<or> terminal (fsink c') = Some (Inr ()))"
  using returnsD [OF returns_stream_download [OF assms]] by auto

lemma demo_open_ready:
  "healthy_client demo_open" "tx (fsink demo_open) = Some 0" "lively 0 (sched demo_open)"
  "fed demo_open = Some []" "wr_script demo_open = []" "steady (inbox demo_open)" "client_inv demo_open"
  "net_bytes (inbox demo_open) = concat (map frame [[1, 2], [3]]) @ [7]"
proof -
  let ?s = "session_new default_params RECV_BUFFER_SIZE"
  obtain w s r where o: "session_open idle_world ?s = (w, s, r)"
    by (metis prod.exhaust)
  have inv: "sink_inv idle_world ?s"
    by (simp add: session_new_inv arena_wf_def idle_world_def)
  have u: "unused idle_world ?s"
    by (simp add: unused_def idle_world_def)
  have eo: "ensure_open idle_world ?s = (w, s, r)"
    using o by (simp add: ensure_open_def)
  have f: "r = Ok ()" "sink_inv w s" "feeding w s" "sink_stream w s = Some []"
    using unused_open [OF inv u eo] by simp_all
  have "tx s = Some 0"
    using session_open_Ok(3) [OF inv, of w s] o f(1) by (simp add: idle_world_def)
  with f show "healthy_client demo_open" "tx (fsink demo_open) = Some 0" "fed demo_open = Some []"
    by (simp_all add: demo_open_def o healthy_client_def healthy_sink_def fed_def drain_round_def)
  then show "client_inv demo_open"
    by (simp add: healthy_client_inv)
  show "lively 0 (sched demo_open)"
    by (auto simp: demo_open_def o lively_def intro: exI [of _ "[]"])
  show "wr_script demo_open = []" "steady (inbox demo_open)"
    "net_bytes (inbox demo_open) = concat (map frame [[1, 2], [3]]) @ [7]"
    by (simp_all add: demo_open_def o frame_def be_bytes_def)
qed

theorem tcp_download_completes_witness:
  "\<exists>c'. stream_download 3 demo_open = Some (c', Ok ()) \<and> net_bytes (inbox c') = [7] \<and>
    (fed c' = Some [1, 2, 3] \<or> terminal (fsink c') = Some (Inr ()))"
  using tcp_download_completes [OF demo_open_ready(1-5) _ demo_open_ready(6,8)] by (auto simp: numeral_3_eq_3)


text \<open>
  C13.  The service outlives its clients.  Whatever clients connect and whatever they send, and however the
  other tasks behave, no session panics, the arena of transfers stays well formed, and the service only
  ends when binding or accepting fails.
\<close>

theorem tcp_service_survives:
  assumes "arena_wf w" "serve n cfg p model json evs w = Some (w', r)"
  shows "arena_wf w' \<and> (\<exists>e. r = Err e \<and> (BindErr e \<in> set evs \<or> AcceptErr e \<in> set evs))"
  using assms
proof (induction n cfg p model json evs w rule: serve.induct)
  case (5 n cfg p model json peer wrs fin sc evs w)
  let ?c = "tcp_new cfg p model json peer wrs fin sc w"
  have inv: "client_inv ?c"
    using "5.prems"(1) by (simp add: client_inv_def tcp_new_def session_new_inv)
  obtain c x where run: "tcp_run n ?c = Some (c, x)"
    using "5.prems"(2) by (auto split: option.splits)
  have s: "client_inv c" "x \<noteq> Panic"
    using safeD [OF safe_tcp_run inv run] by simp_all
  then have "arena_wf (session_drop (fsink c) (sys c))"
    by (simp add: client_inv_def sink_inv_def session_drop_arena)
  with 5 run s(2) show ?case
    by (cases x) auto
qed auto

theorem tcp_service_survives_witness:
  "serve 5 default_tcp_config default_params [] []
     [AcceptTimedOut, Accepted [Arrive (ascii ''GET '')] [] ShutOk (\<lambda>_. []), BindErr (Os 98)] idle_world =
     Some (idle_world, Err (Os 98)) \<and> arena_wf idle_world"
proof -
  have "serve 5 default_tcp_config default_params [] []
     [AcceptTimedOut, Accepted [Arrive (ascii ''GET '')] [] ShutOk (\<lambda>_. []), BindErr (Os 98)] idle_world =
     Some (idle_world, Err (Os 98))"
    by (simp add: tcp_run_def handshake_def write_all_def sock_read_exact_def prog_defs pause_def tcp_new_def env_run_def
        check_handshake_def from_str_radix_def PROTOCOL_VERSION_def session_drop_def drop_tx_def drop_recycle_def
        from_utf8_def)
  then show ?thesis
    using tcp_service_survives [of idle_world 5 default_tcp_config default_params "[]" "[]"]
    by (auto simp: arena_wf_def idle_world_def)
qed

lemma to_digit_10: "to_digit 10 b = (if is_ascii_digit b then Some (unat b - 48) else None)"
  by (auto simp: to_digit_def digit_value_def is_ascii_digit_def word_le_nat_alt)

lemma digit_bounds: "is_ascii_digit x \<Longrightarrow> 48 \<le> unat x \<and> unat x \<le> 57"
  by (simp add: is_ascii_digit_def word_le_nat_alt)

lemma from_str_radix_2:
  "from_str_radix 10 (2 ^ 32) [a, b] =
    (if a = 43 then (if is_ascii_digit b then Some (unat b - 48) else None)
     else if is_ascii_digit a \<and> is_ascii_digit b then Some ((unat a - 48) * 10 + (unat b - 48)) else None)"
proof -
  have "(unat a - 48) * 10 + (unat b - 48) < 2 ^ 32" if "is_ascii_digit a" "is_ascii_digit b"
  proof -
    have "unat a - 48 \<le> 9" "unat b - 48 \<le> 9"
      using that digit_bounds by fastforce+
    then show ?thesis
      by simp
  qed
  moreover have "unat x - 48 < 2 ^ 32" for x :: byte
    using byte_less [of x] by simp
  ultimately show ?thesis
    by (simp add: from_str_radix_def to_digit_10)
qed

text \<open>
  The handshake.  Of the four bytes a peer may send, exactly those are accepted that start with FB
  and go on with a two-digit version other than 00, or with a plus sign and a digit other than 0; every
  other handshake ends the session before any command is read.
\<close>

theorem tcp_handshake_accepts:
  assumes "length buf = 4"
  shows "check_handshake buf = Inr () \<longleftrightarrow>
    (\<exists>a b. buf = [70, 66, a, b] \<and>
      (is_ascii_digit a \<and> is_ascii_digit b \<and> (a, b) \<noteq> (48, 48) \<or> a = 43 \<and> is_ascii_digit b \<and> b \<noteq> 48))"
proof -
  obtain f g a b where buf: "buf = [f, g, a, b]"
    using assms by (auto simp: length_Suc_conv eval_nat_numeral)
  have z: "unat x - 48 = 0 \<longleftrightarrow> x = 48" if "is_ascii_digit x" for x
    using digit_bounds [OF that] by (auto simp: word_unat_eq_iff)
  have u: "from_utf8 [a, b] = Some [a, b]" if "is_ascii_digit a \<or> a = 43" "is_ascii_digit b"
  proof -
    have "a < 0x80" "b < 0x80"
      using that digit_bounds by (fastforce simp: word_less_nat_alt)+
    then show ?thesis
      by (simp add: from_utf8_def)
  qed
  have "check_handshake buf = Inr () \<longleftrightarrow> f = 70 \<and> g = 66 \<and> from_utf8 [a, b] \<noteq> None \<and>
      (\<exists>v. from_str_radix 10 (2 ^ 32) [a, b] = Some v \<and> 1 \<le> v)"
    by (auto simp: check_handshake_def buf from_utf8_def PROTOCOL_VERSION_def split: option.splits)
  also have "\<dots> \<longleftrightarrow> f = 70 \<and> g = 66 \<and>
      (is_ascii_digit a \<and> is_ascii_digit b \<and> (a, b) \<noteq> (48, 48) \<or> a = 43 \<and> is_ascii_digit b \<and> b \<noteq> 48)"
    unfolding from_str_radix_2 using u z [of a] z [of b] by (auto simp: is_ascii_digit_def split: if_splits)
  finally show ?thesis
    by (simp add: buf)
qed

theorem tcp_handshake_accepts_witness: "check_handshake [70, 66, 43, 49] = Inr ()"
  using tcp_handshake_accepts [of "[70, 66, 43, 49]"] by (simp add: is_ascii_digit_def)



end
