(* ===== verification/Fastboot_Usb.thy ===== *)
theory Fastboot_Usb
  imports Fastboot_Proto Functionfs
begin

text \<open>
  Fastboot over USB bulk endpoints (\<^verbatim>\<open>summit-usbgadget-fastboot-usb/src/lib.rs\<close>, \<^verbatim>\<open>state.rs\<close>,
  \<^verbatim>\<open>commands.rs\<close>): the data loop, which queues bulk-OUT reads, runs commands and feeds downloads to the
  update session, and the control plane on endpoint zero, which tells it whether the function is enabled.

  The host, the controller and the control plane are a list of events \<open>bulk\<close>; bulk-IN transfers are the
  list \<open>replies\<close>, with scripted failures.  The other tasks run at every await point, as in \<open>Async_Io\<close>.
  \<open>connected_step\<close> is one turn of the loop of \<open>serve_connected\<close>; the loops take a bound on their turns.
  No operation panics (\<open>safe_data_loop\<close>), and the control plane is an instance of \<open>ep0_handler\<close>.
\<close>

subsection \<open>State\<close>

text \<open>16 KiB, the largest request the ChipIdea controller takes.\<close>

definition USB_RECV_BUFFER_SIZE :: nat where
  "USB_RECV_BUFFER_SIZE = 16 * 1024"

text \<open>What wakes the connected loop: a bulk-OUT transfer of the host, the stall timeout, a receive error, a
  change of the enabled flag, or the end of the control loop.\<close>

datatype usb_event = Packet bytes | StallTimeout | BulkErr io_error | Signal bool | ControlEnded

record FastbootUsbState = client +
  rx_max_packet_size :: nat
  rx_max_packet_size_default :: nat
  bulk :: "usb_event list"
  rx_queue :: "BytesMut option"
  submit_script :: "io_error option list"
  negotiated :: "nat option"
  replies :: "bytes list"
  download_params :: SwupdateParams
  fastboot_usb_session_open :: bool
  serial :: bytes
  download_size :: nat
  downloaded_size :: nat
  fastboot_pending_flash :: bool
  finish_pending :: bool
  pending_fail_reply :: "bytes option"
  gadget_torn_down :: bool
  host_model :: bytes
  host_json :: bytes

definition usb_new :: "SwupdateParams \<Rightarrow> bytes \<Rightarrow> nat \<Rightarrow> bytes \<Rightarrow> bytes \<Rightarrow> usb_event list \<Rightarrow> io_error option list
    \<Rightarrow> nat option \<Rightarrow> write_outcome list \<Rightarrow> (nat \<Rightarrow> env_action list) \<Rightarrow> world \<Rightarrow> FastbootUsbState" where
  "usb_new p ser mps model json evs subs neg wrs sc w =
    \<lparr>inbox = [], outbox = [], wr_script = wrs, fin_script = ShutOk, inactivity_timeout = None, sys = w,
     fsink = session_new p USB_RECV_BUFFER_SIZE, sched = sc, now = 0,
     rx_max_packet_size = mps, rx_max_packet_size_default = mps, bulk = evs, rx_queue = None,
     submit_script = subs, negotiated = neg, replies = [], download_params = p,
     fastboot_usb_session_open = False, serial = ser, download_size = 0, downloaded_size = 0,
     fastboot_pending_flash = False, finish_pending = False, pending_fail_reply = None,
     gadget_torn_down = False, host_model = model, host_json = json\<rparr>"

definition reset_state :: "(FastbootUsbState, unit) prog" where
  "reset_state = modify (\<lambda>c. c\<lparr>sys := session_drop (fsink c) (sys c),
     fsink := session_new (download_params c) USB_RECV_BUFFER_SIZE, fastboot_usb_session_open := False,
     download_size := 0, downloaded_size := 0, fastboot_pending_flash := False, finish_pending := False,
     pending_fail_reply := None\<rparr>)"

text \<open>A bulk-IN transfer.\<close>

definition tx_send :: "bytes \<Rightarrow> (FastbootUsbState, unit) prog" where
  "tx_send bs = andthen pause (\<lambda>_ c.
    case wr_script c of
      [] \<Rightarrow> Some (c\<lparr>replies := replies c @ [bs]\<rparr>, Ok ())
    | Wrote # rest \<Rightarrow> Some (c\<lparr>replies := replies c @ [bs], wr_script := rest\<rparr>, Ok ())
    | WriteFailed _ e # rest \<Rightarrow> Some (c\<lparr>wr_script := rest\<rparr>, Err e))"

text \<open>\<^verbatim>\<open>let _ = send_static(..).await\<close>.\<close>

definition send_static :: "bytes \<Rightarrow> (FastbootUsbState, unit) prog" where
  "send_static bs = andthen (attempt (tx_send bs)) (\<lambda>_. ret ())"

definition fail_download :: "bytes \<Rightarrow> (FastbootUsbState, unit) prog" where
  "fail_download reply = andthen sink_abort (\<lambda>_. modify (\<lambda>c. c\<lparr>pending_fail_reply := Some reply\<rparr>))"

definition usb_reset :: "bytes option \<Rightarrow> (FastbootUsbState, unit) prog" where
  "usb_reset reply =
    andthen (modify (\<lambda>c. c\<lparr>rx_queue := None\<rparr>)) (\<lambda>_.
    andthen sink_abort (\<lambda>_.
    andthen reset_state (\<lambda>_.
      case reply of None \<Rightarrow> ret () | Some r \<Rightarrow> send_static r)))"

definition remaining_download_bytes :: "'c FastbootUsbState_scheme \<Rightarrow> nat" where
  "remaining_download_bytes c = download_size c - downloaded_size c"

definition download_active :: "'c FastbootUsbState_scheme \<Rightarrow> bool" where
  "download_active c \<longleftrightarrow> downloaded_size c < download_size c"

definition usb_in_flight :: "'c FastbootUsbState_scheme \<Rightarrow> bool" where
  "usb_in_flight c \<longleftrightarrow> download_active c \<or> fastboot_pending_flash c \<or> finish_pending c"

definition recv_capacity :: "'c FastbootUsbState_scheme \<Rightarrow> nat" where
  "recv_capacity c =
    (if \<not> download_active c then USB_RECV_BUFFER_SIZE
     else let rest = max 1 (min (remaining_download_bytes c) USB_RECV_BUFFER_SIZE);
              mps = max 1 (rx_max_packet_size c)
          in div_ceil rest mps * mps)"

definition recv_buffer :: "(FastbootUsbState, BytesMut) prog" where
  "recv_buffer = andthen (query recv_capacity) (\<lambda>capacity.
    if capacity \<ge> USB_RECV_BUFFER_SIZE then sink_buffer USB_RECV_BUFFER_SIZE
    else ret (with_capacity capacity))"

subsection \<open>Commands\<close>

definition send_data_header :: "nat \<Rightarrow> (FastbootUsbState, unit) prog" where
  "send_data_header len = tx_send (data_header len)"

definition begin_download_command :: "(FastbootUsbState, bool) prog" where
  "begin_download_command =
    andthen (attempt sink_open) (\<lambda>r.
      case r of Inl _ \<Rightarrow> andthen (send_static FAIL_OPEN) (\<lambda>_. ret False) | Inr _ \<Rightarrow> ret True)"

definition start_finish_download_command :: "(FastbootUsbState, bool) prog" where
  "start_finish_download_command =
    andthen (query (\<lambda>c. is_open (fsink c))) (\<lambda>opened.
      if \<not> opened then andthen (send_static FAIL_CLOSE) (\<lambda>_. ret False)
      else
        andthen sink_eof (\<lambda>_.
        andthen (modify (\<lambda>c. c\<lparr>finish_pending := True\<rparr>)) (\<lambda>_. ret True)))"

definition handle_wopen_command :: "(FastbootUsbState, bool) prog" where
  "handle_wopen_command =
    andthen begin_download_command (\<lambda>begun.
      if \<not> begun then ret False
      else
        andthen (modify (\<lambda>c. c\<lparr>fastboot_usb_session_open := True, fastboot_pending_flash := False\<rparr>)) (\<lambda>_.
        andthen (send_static OKAY) (\<lambda>_. ret True)))"

definition handle_fetch_command :: "FetchTarget \<Rightarrow> (FastbootUsbState, bool) prog" where
  "handle_fetch_command target =
    andthen (query host_json) (\<lambda>json.
    andthen (attempt (send_data_header (length json))) (\<lambda>r.
      case r of Inl _ \<Rightarrow> ret False
      | Inr _ \<Rightarrow>
          andthen (attempt (tx_send json)) (\<lambda>r.
            case r of Inl _ \<Rightarrow> ret False | Inr _ \<Rightarrow> andthen (send_static OKAY) (\<lambda>_. ret True))))"

definition start_download_transfer :: "nat \<Rightarrow> DownloadKind \<Rightarrow> (FastbootUsbState, bool) prog" where
  "start_download_transfer len knd =
    andthen (query (\<lambda>c. is_open (fsink c))) (\<lambda>opened.
    andthen (if opened then ret True else begin_download_command) (\<lambda>begun.
      if \<not> begun then ret False
      else
        andthen (attempt (send_data_header len)) (\<lambda>r.
          case r of
            Inl _ \<Rightarrow> andthen (usb_reset None) (\<lambda>_. ret False)
          | Inr _ \<Rightarrow>
              andthen (modify (\<lambda>c. c\<lparr>download_size := len, downloaded_size := 0,
                fastboot_pending_flash :=
                  (case knd of Fastboot \<Rightarrow> True | Plain \<Rightarrow> \<not> fastboot_usb_session_open c)\<rparr>)) (\<lambda>_.
              if len = 0 then
                andthen (modify (\<lambda>c. c\<lparr>download_size := 0, downloaded_size := 0\<rparr>)) (\<lambda>_.
                andthen (send_static OKAY) (\<lambda>_. ret True))
              else ret True))))"

definition finish_flash_download :: "(FastbootUsbState, bool) prog" where
  "finish_flash_download =
    andthen (query fastboot_pending_flash) (\<lambda>pf.
      if \<not> pf then andthen (send_static FAIL_FLASH) (\<lambda>_. ret False)
      else
        andthen (query download_active) (\<lambda>active.
          if active then andthen (send_static FAIL_BADSIZE) (\<lambda>_. ret False)
          else
            andthen (send_static INFO_WAIT_SWUPDATE) (\<lambda>_.
            andthen start_finish_download_command (\<lambda>started.
              if \<not> started then
                andthen (modify (\<lambda>c. c\<lparr>fastboot_pending_flash := False\<rparr>)) (\<lambda>_. ret False)
              else ret True))))"

definition handle_close_command :: "(FastbootUsbState, bool) prog" where
  "handle_close_command = andthen start_finish_download_command (\<lambda>started. if \<not> started then ret False else ret True)"

definition usb_getvar :: "bytes \<Rightarrow> (FastbootUsbState, bool) prog" where
  "usb_getvar arg =
    andthen (query (\<lambda>c. fastboot_getvar_reply (host_model c) (host_json c) (boot (sys c)) arg (serial c))) (\<lambda>found.
      case found of
        Some reply \<Rightarrow> andthen (send_static reply) (\<lambda>_. ret True)
      | None \<Rightarrow> andthen (send_static FAIL_CMD) (\<lambda>_. ret False))"

text \<open>\<^verbatim>\<open>chunk[..consumed]\<close> panics when the parser claims more than it was given.\<close>

definition crash :: "('c, 'a) prog" where
  "crash c = Some (c, Panic)"

definition handle_command_chunk :: "BytesMut \<Rightarrow> (FastbootUsbState, bool \<times> BytesMut) prog" where
  "handle_command_chunk chunk =
    (case parse_command (data chunk) of
       None \<Rightarrow> ret (False, chunk)
     | Some (command, consumed) \<Rightarrow>
         if consumed > bm_len chunk then crash
         else
           (let rest = snd (split_to consumed chunk) in
            andthen
              (case command of
                 WOpen \<Rightarrow> handle_wopen_command
               | GetVar arg \<Rightarrow> usb_getvar arg
               | Fetch target \<Rightarrow> handle_fetch_command target
               | FetchUnknownPart \<Rightarrow> andthen (send_static FAIL_UNKNOWN_PART) (\<lambda>_. ret False)
               | Download len knd \<Rightarrow> start_download_transfer len knd
               | Flash \<Rightarrow> finish_flash_download
               | Close \<Rightarrow> handle_close_command
               | Unsupported \<Rightarrow> andthen (send_static FAIL_CMD) (\<lambda>_. ret False))
              (\<lambda>handled. ret (handled, rest))))"

subsection \<open>The data plane\<close>

definition saturating_add :: "nat \<Rightarrow> nat \<Rightarrow> nat" where
  "saturating_add a b = min (a + b) (2 ^ 64 - 1)"

definition count_chunk :: "nat \<Rightarrow> (FastbootUsbState, unit) prog" where
  "count_chunk n = modify (\<lambda>c. c\<lparr>downloaded_size := saturating_add (downloaded_size c) n\<rparr>)"

text \<open>\<^verbatim>\<open>self.downloaded_size >= self.download_size\<close>\<close>

definition at_boundary :: "'c FastbootUsbState_scheme \<Rightarrow> bool" where
  "at_boundary c \<longleftrightarrow> download_size c \<le> downloaded_size c"

definition sink_try_send :: "BytesMut \<Rightarrow> ('c client_scheme, Feed) prog" where
  "sink_try_send blk c =
    (case try_send blk (sys c) (fsink c) of (w, s, r) \<Rightarrow> Some (c\<lparr>sys := w, fsink := s\<rparr>, r))"

text \<open>The chunk goes to the session, which may have to be waited for.\<close>

definition feed_chunk :: "BytesMut \<Rightarrow> (FastbootUsbState, io_error + unit) prog" where
  "feed_chunk chunk =
    andthen (attempt (sink_try_send chunk)) (\<lambda>r.
      case r of
        Inl e \<Rightarrow> ret (Inl e)
      | Inr (FeedFull item) \<Rightarrow>
          andthen (attempt (sink_send item)) (\<lambda>r.
            case r of
              Inl e \<Rightarrow> ret (Inl e)
            | Inr (FeedFull _) \<Rightarrow> crash
            | Inr _ \<Rightarrow> ret (Inr ()))
      | Inr _ \<Rightarrow> ret (Inr ()))"

definition handle_download_chunk :: "BytesMut \<Rightarrow> (FastbootUsbState, bool) prog" where
  "handle_download_chunk chunk =
    (if data chunk = [] then ret True
     else
       andthen (query pending_fail_reply) (\<lambda>failed.
         case failed of
           Some reply \<Rightarrow>
             andthen (count_chunk (bm_len chunk)) (\<lambda>_.
             andthen (query at_boundary) (\<lambda>over.
               if over then andthen (send_static reply) (\<lambda>_. andthen reset_state (\<lambda>_. ret True))
               else ret True))
         | None \<Rightarrow>
             andthen (feed_chunk chunk) (\<lambda>outcome.
             andthen (count_chunk (bm_len chunk)) (\<lambda>_.
               case outcome of
                 Inr _ \<Rightarrow>
                   andthen (query at_boundary) (\<lambda>over.
                     if over then andthen (send_static OKAY) (\<lambda>_. ret True) else ret True)
               | Inl err \<Rightarrow>
                   (let reply = (if kind err = NotConnected then FAIL_NOTOPEN else FAIL_EPIPE) in
                    andthen (fail_download reply) (\<lambda>_.
                    andthen (query at_boundary) (\<lambda>over.
                      if over then andthen (send_static reply) (\<lambda>_. andthen reset_state (\<lambda>_. ret True))
                      else ret True)))))))"

definition handle_rx_chunk :: "BytesMut \<Rightarrow> (FastbootUsbState, bool) prog" where
  "handle_rx_chunk chunk =
    andthen (query download_active) (\<lambda>active.
      if \<not> active then
        andthen (handle_command_chunk chunk) (\<lambda>(handled, rest).
        andthen (query download_active) (\<lambda>active.
          if handled \<and> active \<and> data rest \<noteq> [] then handle_download_chunk rest else ret True))
      else
        andthen (query remaining_download_bytes) (\<lambda>rem.
          if bm_len chunk > rem then
            (let (trailing, front) = split_off rem chunk in
             andthen (handle_download_chunk front) (\<lambda>on.
               if \<not> on then ret False
               else
                 andthen (query download_active) (\<lambda>active.
                   if active then ret True else handle_download_chunk trailing)))
          else handle_download_chunk chunk))"

definition on_recv :: "io_error + BytesMut option \<Rightarrow> (FastbootUsbState, bool) prog" where
  "on_recv data_res =
    (case data_res of
       Inr (Some chunk) \<Rightarrow> handle_rx_chunk chunk
     | Inr None \<Rightarrow> ret True
     | Inl err \<Rightarrow>
         if kind err = TimedOut then
           andthen (query usb_in_flight) (\<lambda>busy.
             if busy then andthen (usb_reset (Some FAIL_BADSIZE)) (\<lambda>_. ret False) else ret True)
         else if is_closed_transport_error err then
           andthen (modify (\<lambda>c. c\<lparr>gadget_torn_down := True\<rparr>)) (\<lambda>_.
           andthen (usb_reset None) (\<lambda>_. ret False))
         else andthen (usb_reset (Some FAIL_BADSIZE)) (\<lambda>_. ret False))"

text \<open>
  The outcome of awaiting the queued read: a completed transfer fills at most the buffer and leaves the
  rest to the next read; the stall timeout only runs during a download and leaves the read queued.
\<close>

definition fetched :: "usb_event \<Rightarrow> (FastbootUsbState, io_error + BytesMut option) prog" where
  "fetched ev c =
    (case rx_queue c of
       None \<Rightarrow> Some (c, Ok (Inr None))
     | Some buf \<Rightarrow>
        (case ev of
           Packet bs \<Rightarrow>
             Some (c\<lparr>rx_queue := None,
                 bulk := (if length bs \<le> cap buf then bulk c else Packet (drop (cap buf) bs) # bulk c)\<rparr>,
               Ok (Inr (Some (buf\<lparr>data := take (cap buf) bs\<rparr>))))
         | BulkErr e \<Rightarrow> Some (c\<lparr>rx_queue := None\<rparr>, Ok (Inl e))
         | _ \<Rightarrow>
             if download_active c
             then Some (c, Ok (Inl (Custom TimedOut (Text ''timed out waiting for fastboot-usb download data''))))
             else Some (c, Ok (Inr None))))"

definition transfer_step :: "usb_event \<Rightarrow> (FastbootUsbState, bool) prog" where
  "transfer_step ev =
    andthen (query finish_pending) (\<lambda>finishing.
      if finishing then
        andthen sink_finished (\<lambda>verdict.
        andthen reset_state (\<lambda>_.
        andthen (send_static (case verdict of Inr _ \<Rightarrow> OKAY | Inl _ \<Rightarrow> FAIL_CLOSE)) (\<lambda>_. ret True)))
      else andthen (fetched ev) on_recv)"

definition try_recv :: "BytesMut \<Rightarrow> (FastbootUsbState, unit) prog" where
  "try_recv buf c =
    (case submit_script c of
       Some e # rest \<Rightarrow> Some (c\<lparr>submit_script := rest\<rparr>, Err e)
     | None # rest \<Rightarrow> Some (c\<lparr>submit_script := rest, rx_queue := Some buf\<rparr>, Ok ())
     | [] \<Rightarrow> Some (c\<lparr>rx_queue := Some buf\<rparr>, Ok ()))"

definition submit_recv :: "(FastbootUsbState, unit) prog" where
  "submit_recv =
    andthen (query rx_queue) (\<lambda>q.
      if q \<noteq> None then ret ()
      else
        andthen recv_buffer (\<lambda>buf.
        andthen (attempt (try_recv buf)) (\<lambda>r.
          case r of
            Inr _ \<Rightarrow> ret ()
          | Inl err \<Rightarrow>
              if is_closed_transport_error err then modify (\<lambda>c. c\<lparr>gadget_torn_down := True\<rparr>) else ret ())))"

text \<open>A failure of SWUpdate during the download is noticed before the next read.\<close>

definition check_failed :: "(FastbootUsbState, unit) prog" where
  "check_failed =
    andthen (query (\<lambda>c. \<not> finish_pending c \<and> download_active c \<and> pending_fail_reply c = None)) (\<lambda>look.
      if look then
        andthen (query (\<lambda>c. is_open (fsink c))) (\<lambda>opened.
        andthen (if opened then sink_try_finished else ret None) (\<lambda>seen.
          case seen of Some (Inl _) \<Rightarrow> fail_download FAIL_EPIPE | _ \<Rightarrow> ret ()))
      else ret ())"

text \<open>
  The select: changes of the enabled flag first; the transfer arm when it is ready (the verdict, or the
  queued read).  Transfers of the host stay with the host while nothing reads them.  A wait for a verdict that
  does not come is ended by the next change of the flag.
\<close>

fun next_signal :: "usb_event list \<Rightarrow> (usb_event \<times> usb_event list) option" where
  "next_signal [] = None"
| "next_signal (Signal b # es) = Some (Signal b, es)"
| "next_signal (ControlEnded # es) = Some (ControlEnded, es)"
| "next_signal (e # es) = map_option (\<lambda>(s, es). (s, e # es)) (next_signal es)"

definition select_event :: "(FastbootUsbState, usb_event) prog" where
  "select_event = andthen pause (\<lambda>_ c.
    if finish_pending c then
      (case bulk c of
         Signal b # es \<Rightarrow> Some (c\<lparr>bulk := es\<rparr>, Ok (Signal b))
       | ControlEnded # es \<Rightarrow> Some (c\<lparr>bulk := es\<rparr>, Ok ControlEnded)
       | _ \<Rightarrow>
           if finished (sched c (now c)) (sys c) (fsink c) \<noteq> None then Some (c, Ok StallTimeout)
           else (case next_signal (bulk c) of
               None \<Rightarrow> None
             | Some (e, es) \<Rightarrow>
                 Some (c\<lparr>bulk := es, sys := env_run (sched c (now c)) (sys c), now := Suc (now c)\<rparr>, Ok e)))
    else if rx_queue c \<noteq> None then
      (case bulk c of [] \<Rightarrow> None | e # es \<Rightarrow> Some (c\<lparr>bulk := es\<rparr>, Ok e))
    else
      (case next_signal (bulk c) of None \<Rightarrow> None | Some (e, es) \<Rightarrow> Some (c\<lparr>bulk := es\<rparr>, Ok e)))"

text \<open>One turn of the connected loop; False when it returns.\<close>

definition connected_step :: "(FastbootUsbState, bool) prog" where
  "connected_step =
    andthen check_failed (\<lambda>_.
    andthen submit_recv (\<lambda>_.
    andthen (query gadget_torn_down) (\<lambda>down.
      if down then andthen (usb_reset None) (\<lambda>_. ret False)
      else
        andthen select_event (\<lambda>ev.
          case ev of
            Signal on \<Rightarrow> if on then ret True else andthen (usb_reset None) (\<lambda>_. ret False)
          | ControlEnded \<Rightarrow> andthen (usb_reset None) (\<lambda>_. ret False)
          | _ \<Rightarrow> transfer_step ev))))"

text \<open>The first turns of the connected loop: True while it is still serving.\<close>

fun connected_turns :: "nat \<Rightarrow> (FastbootUsbState, bool) prog" where
  "connected_turns 0 = ret True"
| "connected_turns (Suc n) = andthen connected_step (\<lambda>on. if on then connected_turns n else ret False)"

definition query_packet_size :: "(FastbootUsbState, unit) prog" where
  "query_packet_size = modify (\<lambda>c. c\<lparr>rx_max_packet_size :=
    (case negotiated c of Some n \<Rightarrow> n | None \<Rightarrow> rx_max_packet_size_default c)\<rparr>)"

fun connected_loop :: "nat \<Rightarrow> (FastbootUsbState, unit) prog" where
  "connected_loop 0 = stuck"
| "connected_loop (Suc n) = andthen connected_step (\<lambda>on. if on then connected_loop n else ret ())"

definition serve_connected :: "nat \<Rightarrow> (FastbootUsbState, unit) prog" where
  "serve_connected n = andthen query_packet_size (\<lambda>_. connected_loop n)"

text \<open>\<open>wait_for_enabled\<close>: the current flag counts for the first wait only.\<close>

fun wait_signals :: "usb_event list \<Rightarrow> (bool \<times> usb_event list) option" where
  "wait_signals [] = None"
| "wait_signals (Signal b # es) = (if b then Some (True, es) else wait_signals es)"
| "wait_signals (ControlEnded # es) = Some (False, es)"
| "wait_signals (e # es) = map_option (\<lambda>(on, es). (on, e # es)) (wait_signals es)"

definition wait_for_enabled :: "bool \<Rightarrow> (FastbootUsbState, bool) prog" where
  "wait_for_enabled accept c =
    (if accept then Some (c, Ok True)
     else case wait_signals (bulk c) of
       None \<Rightarrow> None | Some (on, es) \<Rightarrow> Some (c\<lparr>bulk := es\<rparr>, Ok on))"

text \<open>\<open>current\<close>: the flag reads true when the loop starts.\<close>

fun data_loop :: "nat \<Rightarrow> nat \<Rightarrow> bool \<Rightarrow> (FastbootUsbState, unit) prog" where
  "data_loop 0 n current = stuck"
| "data_loop (Suc k) n current =
    andthen (wait_for_enabled current) (\<lambda>on.
      if \<not> on then ret ()
      else
        andthen (modify (\<lambda>c. c\<lparr>gadget_torn_down := False\<rparr>)) (\<lambda>_.
        andthen (serve_connected n) (\<lambda>_. data_loop k n False)))"

subsection \<open>Notions for the properties\<close>

text \<open>\<open>FastbootControl\<close> publishes whether the function is enabled; the values it sent, in order.\<close>

definition publish :: "bool \<Rightarrow> (bool list Custom, unit) prog" where
  "publish b = modify (\<lambda>c. c\<lparr>hnd := hnd c @ [b]\<rparr>)"

definition control_handle_event :: "Event \<Rightarrow> (bool list Custom, unit) prog" where
  "control_handle_event event =
    (case event of
       Enable \<Rightarrow> publish True
     | Disable \<Rightarrow> publish False
     | Unbind \<Rightarrow> publish False
     | SetupHostToDevice ctrl \<Rightarrow> andthen (attempt (recv_all_async ctrl)) (\<lambda>_. ret ())
     | SetupDeviceToHost ctrl \<Rightarrow> andthen (attempt (send_async [])) (\<lambda>_. ret ())
     | _ \<Rightarrow> ret ())"

definition control_handler :: "bool list event_handler" where
  "control_handler = \<lparr>handle_event = control_handle_event, on_transport_closed = ret (),
     idle_timeout = (\<lambda>_. None), on_idle_timeout = ret ()\<rparr>"

text \<open>The second attempt, which waits for room.\<close>

definition resend :: "BytesMut \<Rightarrow> (FastbootUsbState, io_error + unit) prog" where
  "resend item = andthen (attempt (sink_send item)) (\<lambda>r.
     case r of Inl e \<Rightarrow> ret (Inl e) | Inr (FeedFull _) \<Rightarrow> crash | Inr _ \<Rightarrow> ret (Inr ()))"

subsection \<open>The fastboot control plane\<close>

subsection \<open>Safety\<close>

lemma client_inv_usb [simp]:
  "client_inv (c\<lparr>rx_max_packet_size := a1\<rparr>) = client_inv c"
  "client_inv (c\<lparr>bulk := a2\<rparr>) = client_inv c"
  "client_inv (c\<lparr>rx_queue := a3\<rparr>) = client_inv c"
  "client_inv (c\<lparr>submit_script := a4\<rparr>) = client_inv c"
  "client_inv (c\<lparr>replies := a5\<rparr>) = client_inv c"
  "client_inv (c\<lparr>fastboot_usb_session_open := a6\<rparr>) = client_inv c"
  "client_inv (c\<lparr>download_size := a7\<rparr>) = client_inv c"
  "client_inv (c\<lparr>downloaded_size := a7\<rparr>) = client_inv c"
  "client_inv (c\<lparr>fastboot_pending_flash := a6\<rparr>) = client_inv c"
  "client_inv (c\<lparr>finish_pending := a6\<rparr>) = client_inv c"
  "client_inv (c\<lparr>pending_fail_reply := a8\<rparr>) = client_inv c"
  "client_inv (c\<lparr>gadget_torn_down := a6\<rparr>) = client_inv c"
  by (simp_all add: client_inv_def)

lemma reset_state_inv:
  "client_inv c \<Longrightarrow> client_inv (c\<lparr>sys := session_drop (fsink c) (sys c), fsink := session_new p n\<rparr>)"
  by (simp add: client_inv_def session_new_inv session_drop_arena sink_inv_def session_wf_def)

lemma safe_reset_state [safe_intros]: "safe reset_state"
  unfolding reset_state_def by (intro safe_intros) (simp add: reset_state_inv)

lemma safe_tx_send [safe_intros]: "safe (tx_send bs)"
  unfolding tx_send_def
  by (intro safe_intros) (simp add: safe_def wp_def split: list.split write_outcome.split)

lemma safe_send_static [safe_intros]: "safe (send_static bs)"
  unfolding send_static_def by (intro safe_intros)

lemma safe_fail_download [safe_intros]: "safe (fail_download bs)"
  unfolding fail_download_def by (intro safe_intros) simp

lemma safe_usb_reset [safe_intros]: "safe (usb_reset r)"
  unfolding usb_reset_def by (intro safe_intros) simp

lemma safe_recv_buffer [safe_intros]: "safe recv_buffer"
  unfolding recv_buffer_def by (intro safe_intros)

lemma safe_begin [safe_intros]: "safe begin_download_command"
  unfolding begin_download_command_def by (intro safe_intros)

lemma safe_start_finish [safe_intros]: "safe start_finish_download_command"
  unfolding start_finish_download_command_def by (intro safe_intros) simp

lemma safe_commands [safe_intros]:
  "safe handle_wopen_command" "safe (handle_fetch_command t)" "safe (start_download_transfer n k)"
  "safe finish_flash_download" "safe handle_close_command" "safe (usb_getvar arg)"
  unfolding handle_wopen_command_def handle_fetch_command_def start_download_transfer_def
    finish_flash_download_def handle_close_command_def usb_getvar_def send_data_header_def
  by (intro safe_intros; simp)+

lemma safe_handle_command [safe_intros]: "safe (handle_command_chunk chunk)"
proof (cases "parse_command (data chunk)")
  case (Some x)
  obtain command n where x: "x = (command, n)"
    by fastforce
  have "\<not> bm_len chunk < n"
    using parse_command_bounds [of "data chunk" command n] Some x by (simp add: bm_len_def)
  then show ?thesis
    unfolding handle_command_chunk_def Some x option.case prod.case Let_def
    by (auto split: ParsedCommand.split intro!: safe_intros)
qed (simp add: handle_command_chunk_def safe_intros)

lemma safe_try_send [safe_intros]: "safe (sink_try_send blk)"
  by (auto simp: safe_def wp_def sink_try_send_def client_inv_def split: prod.split dest: try_send_inv try_send_other(4))

lemma send_not_full:
  assumes "client_inv c" "sink_send x c = Some (c', Ok f)"
  shows "f \<noteq> FeedFull y"
proof -
  obtain w s where r: "send (sched c (now c)) x (sys c) (fsink c) = Some (w, s, Ok f)"
    using assms(2) by (auto simp: sink_send_def split: option.splits)
  show ?thesis
    using assms(1) [unfolded client_inv_def] r by (cases rule: send_cases) auto
qed

lemma safe_resend: "safe (resend item)"
  unfolding safe_def resend_def
proof (intro allI impI)
  fix c :: FastbootUsbState
  assume inv: "client_inv c"
  have "wp (sink_send item) (\<lambda>c' r. (client_inv c' \<and> r \<noteq> Panic) \<and> (\<forall>f y. r = Ok f \<longrightarrow> f \<noteq> FeedFull y)) c"
  proof (rule wp_conj)
    show "wp (sink_send item) (\<lambda>c' r. client_inv c' \<and> r \<noteq> Panic) c"
      using safe_sink_send [of item, unfolded safe_def] inv by blast
    show "wp (sink_send item) (\<lambda>c' r. \<forall>f y. r = Ok f \<longrightarrow> f \<noteq> FeedFull y) c"
      using send_not_full [OF inv, of item] by (intro wpI) blast
  qed
  then show "wp (andthen (attempt (sink_send item)) (\<lambda>r.
          case r of Inl e \<Rightarrow> ret (Inl e) | Inr (FeedFull _) \<Rightarrow> crash | Inr _ \<Rightarrow> ret (Inr ())))
        (\<lambda>c' r. client_inv c' \<and> r \<noteq> Panic) c"
    unfolding wp_andthen wp_attempt
    by (rule wp_mono) (auto split: outcome.split Feed.split)
qed

lemma safe_feed_chunk [safe_intros]: "safe (feed_chunk chunk)"
  unfolding feed_chunk_def resend_def [symmetric]
  by (intro safe_intros) (simp add: safe_intros safe_resend split: Feed.split)

lemma safe_download_chunk [safe_intros]: "safe (handle_download_chunk chunk)"
  unfolding handle_download_chunk_def Let_def count_chunk_def by (intro safe_intros) simp_all

lemma safe_rx_chunk [safe_intros]: "safe (handle_rx_chunk chunk)"
  unfolding handle_rx_chunk_def Let_def
  by (intro safe_intros) (auto split: prod.split intro!: safe_intros)

lemma safe_on_recv [safe_intros]: "safe (on_recv r)"
  unfolding on_recv_def by (intro safe_intros) simp_all

lemma safe_fetched [safe_intros]: "safe (fetched ev)"
  by (simp add: safe_def wp_def fetched_def split: option.split usb_event.split)

lemma safe_transfer_step [safe_intros]: "safe (transfer_step ev)"
  unfolding transfer_step_def by (intro safe_intros)

lemma safe_submit_recv [safe_intros]: "safe submit_recv"
proof -
  have "safe (try_recv buf)" for buf
    by (simp add: safe_def wp_def try_recv_def split: list.split option.split)
  then show ?thesis
    unfolding submit_recv_def by (intro safe_intros) simp_all
qed

lemma safe_check_failed [safe_intros]: "safe check_failed"
  unfolding check_failed_def by (intro safe_intros)

lemma safe_select [safe_intros]: "safe select_event"
  unfolding select_event_def
  by (rule safe_andthen [OF safe_pause])
    (auto simp: safe_def wp_def client_inv_def env_run_inv split: list.split usb_event.split option.split)

lemma safe_connected_step [safe_intros]: "safe connected_step"
  unfolding connected_step_def by (intro safe_intros) (auto split: usb_event.split intro!: safe_intros)

lemma safe_connected_turns: "safe (connected_turns n)"
  by (induction n) (auto intro!: safe_intros)

lemma safe_connected_loop [safe_intros]: "safe (connected_loop n)"
  by (induction n) (auto intro!: safe_intros)

lemma safe_data_loop: "safe (data_loop k n current)"
proof (induction k arbitrary: current)
  case (Suc k)
  have "safe (wait_for_enabled current)"
    by (auto simp: safe_def wp_def wait_for_enabled_def split: option.split)
  then show ?case
    unfolding data_loop.simps serve_connected_def query_packet_size_def
    by (intro safe_intros Suc) simp_all
qed (simp add: safe_intros)

interpretation control_ep0: ep0_handler control_handler "\<lambda>_. True"
proof unfold_locales
  have "tame (\<lambda>_. True) (publish b)" for b
    by (simp add: tame_def publish_def)
  then show "tame (\<lambda>_. True) (handle_event control_handler e)" for e
    by (simp add: control_handler_def control_handle_event_def) (intro tame_intros)
qed (simp_all add: control_handler_def tame_intros)

end
