(* ===== verification/Fastboot_Usb_Spec.thy ===== *)
theory Fastboot_Usb_Spec
  imports Fastboot_Usb
begin

text \<open>
  What fastboot over USB promises: the bytes of a download reach the update session complete and in order
  with one reply, the transfer state stays consistent over any run, the loop leaves nothing behind when it
  returns, and reads have the sizes the controller takes.  \<open>usb_phase\<close> is the invariant of the data phase,
  \<open>usb_over\<close> its end; \<open>stops_in\<close> and \<open>aside\<close> carry the proofs about returning and about the
  transfer state through the handlers.
\<close>

subsection \<open>Definitions\<close>

definition sink_only :: "'c client_scheme \<Rightarrow> 'c client_scheme \<Rightarrow> bool" where
  "sink_only c c' \<longleftrightarrow> wr_script c' = wr_script c \<and> sched c' = sched c \<and> client.more c' = client.more c"

text \<open>
  Transfer \<open>i\<close> was given exactly these bytes, and the session is still attached to it; a failure of it stays on
  record.
\<close>

definition grown :: "nat \<Rightarrow> 'c client_scheme \<Rightarrow> bytes \<Rightarrow> 'c client_scheme \<Rightarrow> bool" where
  "grown i c xs c' \<longleftrightarrow> accounts i (sys c) (fsink c) xs (sys c') (fsink c') \<and>
    (attached i (fsink c) \<longrightarrow> attached i (fsink c'))"

definition lasting :: "nat \<Rightarrow> 'c client_scheme \<Rightarrow> 'c client_scheme \<Rightarrow> bool" where
  "lasting i c c' \<longleftrightarrow> (failed_at i (sys c) \<longrightarrow> failed_at i (sys c'))"

text \<open>
  The state of a data phase that started in \<open>c0\<close> and carries \<open>content\<close> to transfer \<open>i\<close>, when the bytes \<open>xs\<close> have been
  received but not yet handled: what is left comes in packets, followed by \<open>rest\<close>.
\<close>

definition usb_chunk :: "nat \<Rightarrow> FastbootUsbState \<Rightarrow> bytes \<Rightarrow> usb_event list \<Rightarrow> bytes \<Rightarrow> FastbootUsbState \<Rightarrow> bool" where
  "usb_chunk i c0 content rest xs c \<longleftrightarrow> client_inv c \<and> \<not> finish_pending c \<and> \<not> gadget_torn_down c \<and>
    wr_script c = [] \<and> submit_script c = [] \<and> replies c = replies c0 \<and> download_size c < 2 ^ 64 \<and>
    (\<exists>dn ps. content = dn @ xs @ concat ps \<and> bulk c = map Packet ps @ rest \<and> [] \<notin> set ps \<and>
      downloaded_size c + length xs + length (concat ps) = download_size c \<and>
      (pending_fail_reply c = None \<and> attached i (fsink c) \<and> grown i c0 dn c \<or>
       pending_fail_reply c = Some FAIL_EPIPE \<and> failed_at i (sys c)))"

definition usb_phase :: "nat \<Rightarrow> FastbootUsbState \<Rightarrow> bytes \<Rightarrow> usb_event list \<Rightarrow> FastbootUsbState \<Rightarrow> bool" where
  "usb_phase i c0 content rest c \<longleftrightarrow> usb_chunk i c0 content rest [] c \<and> download_active c"

text \<open>The end of the data phase: one reply, and nothing of what follows has been read.\<close>

definition usb_over :: "nat \<Rightarrow> FastbootUsbState \<Rightarrow> bytes \<Rightarrow> usb_event list \<Rightarrow> FastbootUsbState \<Rightarrow> bool" where
  "usb_over i c0 content rest c \<longleftrightarrow> client_inv c \<and> bulk c = rest \<and> \<not> download_active c \<and> pending_fail_reply c = None \<and>
    (replies c = replies c0 @ [OKAY] \<and> grown i c0 content c \<or>
     replies c = replies c0 @ [FAIL_EPIPE] \<and> download_size c = 0 \<and> failed_at i (sys c))"

text \<open>No read is queued and the session has started over.\<close>

definition quiesced :: "FastbootUsbState \<Rightarrow> bool" where
  "quiesced c \<longleftrightarrow> rx_queue c = None \<and> fsink c = session_new (download_params c) USB_RECV_BUFFER_SIZE \<and>
    \<not> usb_in_flight c \<and> download_size c = 0 \<and> pending_fail_reply c = None"

text \<open>A step that stops the loop only in states of a certain kind.\<close>

definition stops_in :: "('c \<Rightarrow> bool) \<Rightarrow> ('c, bool) prog \<Rightarrow> bool" where
  "stops_in Q m \<longleftrightarrow> (\<forall>c. wp m (\<lambda>c' r. r = Ok False \<longrightarrow> Q c') c)"

text \<open>The transfer state, and what holds of it between two operations.\<close>

definition ctl :: "FastbootUsbState \<Rightarrow> nat \<times> nat \<times> bool \<times> bytes option" where
  "ctl c = (download_size c, downloaded_size c, finish_pending c, pending_fail_reply c)"

definition ctl_ok :: "FastbootUsbState \<Rightarrow> bool" where
  "ctl_ok c \<longleftrightarrow> (finish_pending c \<longrightarrow> \<not> download_active c) \<and> (pending_fail_reply c \<noteq> None \<longrightarrow> download_active c)"

text \<open>Between commands: nothing is being transferred or waited for.\<close>

definition at_rest :: "FastbootUsbState \<Rightarrow> bool" where
  "at_rest c \<longleftrightarrow> \<not> finish_pending c \<and> \<not> download_active c \<and> pending_fail_reply c = None"

text \<open>A program that leaves the transfer state alone.\<close>

definition aside :: "(FastbootUsbState, 'a) prog \<Rightarrow> bool" where
  "aside m \<longleftrightarrow> (\<forall>c. wp m (\<lambda>c' r. ctl c' = ctl c) c)"

text \<open>Operations that keep the transfer state consistent.\<close>

definition keeps_ctl :: "(FastbootUsbState, 'a) prog \<Rightarrow> bool" where
  "keeps_ctl m \<longleftrightarrow> (\<forall>c. ctl_ok c \<longrightarrow> wp m (\<lambda>c' r. ctl_ok c') c)"

text \<open>No verdict is being waited for.\<close>

definition receiving :: "FastbootUsbState \<Rightarrow> bool" where
  "receiving c \<longleftrightarrow> ctl_ok c \<and> \<not> finish_pending c"

definition usb_inv :: "FastbootUsbState \<Rightarrow> bool" where
  "usb_inv c \<longleftrightarrow> client_inv c \<and> ctl_ok c"

text \<open>A board in the middle of nothing, and one in a download of three bytes.\<close>

definition demo_usb :: FastbootUsbState where
  "demo_usb = usb_new default_params (ascii ''00'') 512 (ascii ''board'') (ascii ''{}'') [] [] (Some 512) []
     (\<lambda>_. drain_round 0) idle_world"

definition demo_download :: FastbootUsbState where
  "demo_download = (case session_open idle_world (session_new default_params USB_RECV_BUFFER_SIZE) of
     (w, s, _) \<Rightarrow> demo_usb\<lparr>sys := w, fsink := s, download_size := 3, bulk := [Packet [1, 2], Packet [3], Signal True]\<rparr>)"

subsection \<open>What the sink operations leave alone\<close>

lemma sink_only_refl [simp]: "sink_only c c"
  by (simp add: sink_only_def)

lemma sink_only_trans: "sink_only a b \<Longrightarrow> sink_only b c \<Longrightarrow> sink_only a c"
  by (simp add: sink_only_def)

lemma sink_only_usb:
  assumes "sink_only c c'"
  shows "rx_max_packet_size c' = rx_max_packet_size c" "bulk c' = bulk c" "rx_queue c' = rx_queue c"
    "submit_script c' = submit_script c" "replies c' = replies c" "download_params c' = download_params c"
    "download_size c' = download_size c" "downloaded_size c' = downloaded_size c"
    "fastboot_pending_flash c' = fastboot_pending_flash c" "finish_pending c' = finish_pending c"
    "pending_fail_reply c' = pending_fail_reply c" "gadget_torn_down c' = gadget_torn_down c"
    "fastboot_usb_session_open c' = fastboot_usb_session_open c" "negotiated c' = negotiated c"
    "rx_max_packet_size_default c' = rx_max_packet_size_default c" "wr_script c' = wr_script c" "sched c' = sched c"
  using assms by (cases c; cases c'; simp add: sink_only_def)+

lemma grown_refl [simp]: "grown i c [] c"
  by (simp add: grown_def accounts_refl)

lemma grown_trans: "grown i a xs b \<Longrightarrow> grown i b ys c \<Longrightarrow> grown i a (xs @ ys) c"
  unfolding grown_def using accounts_trans by blast

text \<open>Only the session and the tasks matter.\<close>

lemma grown_cong: "sys c = sys d \<Longrightarrow> fsink c = fsink d \<Longrightarrow> grown i a xs c = grown i a xs d"
  by (simp add: grown_def)

lemma returns_pause:
  "client_inv c \<Longrightarrow> returns pause (\<lambda>c' r. r = Ok () \<and> client_inv c' \<and> sink_only c c' \<and> grown i c [] c' \<and> lasting i c c') c"
  by (simp add: returns_def pause_def client_inv_def sink_only_def grown_def lasting_def env_run_inv env_run_account
      failed_at_env_run)

lemma wp_pause:
  "client_inv c \<Longrightarrow> wp pause (\<lambda>c' r. r = Ok () \<and> client_inv c' \<and> sink_only c c' \<and> grown i c [] c' \<and> lasting i c c') c"
  using returns_pause [of c i] by (simp add: returns_wp)

lemma wp_buffer:
  "client_inv c \<Longrightarrow> wp (sink_buffer n) (\<lambda>c' r. \<exists>b. r = Ok b \<and> client_inv c' \<and> sink_only c c' \<and> grown i c [] c' \<and> lasting i c c') c"
  by (auto simp: wp_def sink_buffer_def sink_only_def grown_def lasting_def client_inv_def buffer_inv buffer_account
      split: prod.split)

lemma wp_sink_try_finished:
  "client_inv c \<Longrightarrow> wp sink_try_finished (\<lambda>c' r. \<exists>v. r = Ok v \<and> client_inv c' \<and> sink_only c c' \<and>
    (attached i (fsink c) \<longrightarrow> (case v of Some (Inl e) \<Rightarrow> failed_at i (sys c') | _ \<Rightarrow> attached i (fsink c') \<and> grown i c [] c'))) c"
  by (auto simp: wp_def sink_try_finished_def try_finished_def client_inv_def poll_status_inv poll_status_account
      sink_only_def grown_def split: prod.split option.split sum.split)

lemma failed_at_abort: "failed_at i w \<Longrightarrow> failed_at i (fst (abort w s))"
  by (auto simp: failed_at_def abort_def Let_def drop_recycle_def drop_tx_def nth_list_modify cancel_status_def
      split: option.split status_task.splits)

lemma wp_abort:
  "client_inv c \<Longrightarrow> wp sink_abort (\<lambda>c' r. r = Ok () \<and> client_inv c' \<and> sink_only c c' \<and> lasting i c c') c"
  using failed_at_abort [of i "sys c" "fsink c"]
  by (auto simp: wp_def sink_abort_def client_inv_def sink_only_def lasting_def split: prod.split dest: abort_inv)

lemma wp_try_send:
  assumes "client_inv c"
  shows "wp (sink_try_send x) (\<lambda>c' r. client_inv c' \<and> sink_only c c' \<and>
    (r = Ok (FeedOk (bm_len x)) \<and> grown i c (data x) c' \<or> r = Ok (FeedFull x) \<and> grown i c [] c' \<or>
     r = Ok FeedClosed \<and> grown i c (data x) c' \<or>
     r = Err (other_error ''restart pending after successful SWUpdate; rejecting new update'') \<and> \<not> attached i (fsink c))) c"
proof (rule wpI)
  fix c' r
  assume "sink_try_send x c = Some (c', r)"
  then obtain w s where t: "try_send x (sys c) (fsink c) = (w, s, r)" "c' = c\<lparr>sys := w, fsink := s\<rparr>"
    by (auto simp: sink_try_send_def split: prod.splits)
  have inv: "sink_inv (sys c) (fsink c)"
    using assms by (simp add: client_inv_def)
  have "r = Ok (FeedOk (bm_len x)) \<or> r = Ok (FeedFull x) \<or> r = Ok FeedClosed \<or>
     r = Err (other_error ''restart pending after successful SWUpdate; rejecting new update'')"
    using inv t(1) by (cases rule: try_send_cases) auto
  then show "client_inv c' \<and> sink_only c c' \<and>
    (r = Ok (FeedOk (bm_len x)) \<and> grown i c (data x) c' \<or> r = Ok (FeedFull x) \<and> grown i c [] c' \<or>
     r = Ok FeedClosed \<and> grown i c (data x) c' \<or>
     r = Err (other_error ''restart pending after successful SWUpdate; rejecting new update'') \<and> \<not> attached i (fsink c))"
    using try_send_inv [OF inv t(1)] try_send_account(1) [OF inv t(1), of _ i] try_send_account(2) [OF inv t(1), of _ i]
      try_send_account(3) [OF inv t(1), of i "data x"] try_send_account(4) [OF inv t(1), of i] t(2)
    by (auto simp: client_inv_def sink_only_def grown_def)
qed

lemma wp_send_wait:
  assumes "client_inv c"
  shows "wp (sink_send x) (\<lambda>c' r. client_inv c' \<and> sink_only c c' \<and>
    (r = Ok (FeedOk (bm_len x)) \<and> grown i c (data x) c' \<or> r = Ok FeedClosed \<and> grown i c (data x) c' \<or>
     r = Err (other_error ''restart pending after successful SWUpdate; rejecting new update'') \<and> \<not> attached i (fsink c))) c"
proof (rule wpI)
  fix c' r
  assume "sink_send x c = Some (c', r)"
  then obtain w s where t: "send (sched c (now c)) x (sys c) (fsink c) = Some (w, s, r)"
    "c' = c\<lparr>sys := w, fsink := s, now := Suc (now c)\<rparr>"
    by (auto simp: sink_send_def split: option.splits)
  have inv: "sink_inv (sys c) (fsink c)"
    using assms by (simp add: client_inv_def)
  have "sink_inv w s \<and> (r = Ok (FeedOk (bm_len x)) \<or> r = Ok FeedClosed \<or>
     r = Err (other_error ''restart pending after successful SWUpdate; rejecting new update''))"
    using inv t(1) by (cases rule: send_cases) (use inv in auto)
  then show "client_inv c' \<and> sink_only c c' \<and>
    (r = Ok (FeedOk (bm_len x)) \<and> grown i c (data x) c' \<or> r = Ok FeedClosed \<and> grown i c (data x) c' \<or>
     r = Err (other_error ''restart pending after successful SWUpdate; rejecting new update'') \<and> \<not> attached i (fsink c))"
    using send_account(1) [OF inv t(1), of _ i] send_account(2) [OF inv t(1), of i "data x"]
      send_account(3) [OF inv t(1), of i] t(2)
    by (auto simp: client_inv_def sink_only_def grown_def)
qed

lemma wp_feed_chunk:
  assumes "client_inv c"
  shows "wp (feed_chunk x) (\<lambda>c' r. client_inv c' \<and> sink_only c c' \<and>
    (r = Ok (Inr ()) \<and> grown i c (data x) c' \<or> (\<exists>e. r = Ok (Inl e) \<and> kind e = Other \<and> \<not> attached i (fsink c)))) c"
  unfolding feed_chunk_def wp_andthen [of "attempt (sink_try_send x)"] wp_attempt [of "sink_try_send x"]
proof (rule wp_mono [OF wp_try_send [OF assms, of x i]], elim conjE disjE, goal_cases)
  case (2 c1 r)
  have "attached i (fsink c) \<longrightarrow> attached i (fsink c1)"
    using 2(4) by (simp add: grown_def)
  then show ?case
    using 2(3) wp_send_wait [OF 2(1), of x i] sink_only_trans [OF 2(2)] grown_trans [OF 2(4)]
    by (simp add: wp_andthen wp_attempt) (erule wp_mono, auto)
qed auto

subsection \<open>The data phase\<close>

lemma usb_chunk_sink:
  assumes "usb_chunk i c0 content rest xs c" "sink_only c c'" "client_inv c'" "grown i c [] c'" "lasting i c c'"
  shows "usb_chunk i c0 content rest xs c'"
  using assms(1,3,4,5) grown_trans [of i c0 _ c "[]" c'] unfolding usb_chunk_def sink_only_usb [OF assms(2)]
  by (fastforce simp: grown_def [of i c "[]" c'] lasting_def)

lemma wp_tx_send:
  assumes "client_inv c" "wr_script c = []"
  shows "wp (tx_send bs) (\<lambda>c' r. r = Ok () \<and> client_inv c' \<and> grown i c [] c' \<and> lasting i c c' \<and> (\<exists>c1. sink_only c c1 \<and> c' = c1\<lparr>replies := replies c @ [bs]\<rparr>)) c"
  unfolding tx_send_def
proof (rule wp_bind [OF wp_pause [OF assms(1), of i]], goal_cases)
  case (1 c1 u)
  then have "wr_script c1 = []" "replies c1 = replies c"
    using assms(2) sink_only_usb(5,16) [of c c1] by simp_all
  then show ?case
    using 1 by (auto simp: wp_def grown_def lasting_def)
qed auto

lemma wp_send_static:
  assumes "client_inv c" "wr_script c = []"
  shows "wp (send_static bs) (\<lambda>c' r. r = Ok () \<and> client_inv c' \<and> grown i c [] c' \<and> lasting i c c' \<and> (\<exists>c1. sink_only c c1 \<and> c' = c1\<lparr>replies := replies c @ [bs]\<rparr>)) c"
  unfolding send_static_def wp_andthen wp_attempt
  by (rule wp_mono [OF wp_tx_send [OF assms, of _ i]]) auto

lemma usb_chunkE:
  assumes "usb_chunk i c0 content rest xs c"
  obtains dn ps where "content = dn @ xs @ concat ps" "bulk c = map Packet ps @ rest" "[] \<notin> set ps"
    "downloaded_size c + length xs + length (concat ps) = download_size c"
    "pending_fail_reply c = None \<and> attached i (fsink c) \<and> grown i c0 dn c \<or>
      pending_fail_reply c = Some FAIL_EPIPE \<and> failed_at i (sys c)"
    "client_inv c" "\<not> finish_pending c" "\<not> gadget_torn_down c" "wr_script c = []" "submit_script c = []"
    "replies c = replies c0" "download_size c < 2 ^ 64"
  using assms unfolding usb_chunk_def by blast

lemma wp_fail_download:
  assumes "client_inv c" "failed_at i (sys c)"
  shows "wp (fail_download FAIL_EPIPE) (\<lambda>c' r. r = Ok () \<and> client_inv c' \<and> failed_at i (sys c') \<and>
    (\<exists>c1. sink_only c c1 \<and> c' = c1\<lparr>pending_fail_reply := Some FAIL_EPIPE\<rparr>)) c"
  unfolding fail_download_def by (rule wp_bind [OF wp_abort [OF assms(1), of i]]) (use assms(2) in \<open>auto simp: lasting_def\<close>)

lemma usb_chunk_failed:
  assumes "usb_chunk i c0 content rest xs c" "sink_only c c'" "client_inv c'" "failed_at i (sys c')"
  shows "usb_chunk i c0 content rest xs (c'\<lparr>pending_fail_reply := Some FAIL_EPIPE\<rparr>)"
  using assms(1,3,4) unfolding usb_chunk_def by (auto simp: sink_only_usb [OF assms(2)])

lemma wp_check_failed:
  assumes "usb_phase i c0 content rest c"
  shows "wp check_failed (\<lambda>c' r. r = Ok () \<and> usb_phase i c0 content rest c') c"
proof (cases "pending_fail_reply c = None")
  case np: True
  have ph: "usb_chunk i c0 content rest [] c" "download_active c" "\<not> finish_pending c" and inv: "client_inv c"
    and att: "attached i (fsink c)"
    using assms np by (auto simp: usb_phase_def usb_chunk_def)
  let ?tf = "if is_open (fsink c) then sink_try_finished else ret None"
  have tf: "wp ?tf (\<lambda>c' r. \<exists>v. r = Ok v \<and> client_inv c' \<and> sink_only c c' \<and>
    (case v of Some (Inl e) \<Rightarrow> failed_at i (sys c') | _ \<Rightarrow> attached i (fsink c') \<and> grown i c [] c')) c"
    using wp_sink_try_finished [OF inv, of i] inv att by simp
  have "wp (andthen ?tf (\<lambda>seen.
      case seen of Some (Inl _) \<Rightarrow> fail_download FAIL_EPIPE | _ \<Rightarrow> ret ())) (\<lambda>c' r. r = Ok () \<and> usb_phase i c0 content rest c') c"
  proof (rule wp_bind [OF tf], elim exE conjE, goal_cases)
    case (1 c' seen v)
    have act: "download_active c'"
      using sink_only_usb [OF 1(3)] ph(2) by (simp add: download_active_def)
    show ?case
    proof (cases "\<exists>e. seen = Some (Inl e)")
      case True
      then have fl: "failed_at i (sys c')"
        using 1(1,4) by auto
      have "wp (fail_download FAIL_EPIPE) (\<lambda>c' r. r = Ok () \<and> usb_phase i c0 content rest c') c'"
      proof (rule wp_mono [OF wp_fail_download [OF 1(2) fl]], elim exE conjE)
        fix c2 r c1
        assume r: "r = Ok ()" "client_inv c2" "failed_at i (sys c2)" "sink_only c' c1" "c2 = c1\<lparr>pending_fail_reply := Some FAIL_EPIPE\<rparr>"
        have "usb_chunk i c0 content rest [] c2"
          using usb_chunk_failed [OF ph(1) sink_only_trans [OF 1(3) r(4)]] r by (simp add: client_inv_def)
        then show "r = Ok () \<and> usb_phase i c0 content rest c2"
          using r act sink_only_usb [OF r(4)] by (simp add: usb_phase_def download_active_def)
      qed
      then show ?thesis
        using True by auto
    next
      case False
      then have "attached i (fsink c')" "grown i c [] c'"
        using 1(1,4) by (auto split: option.splits sum.splits)
      then have "usb_chunk i c0 content rest [] c'"
        using ph(1) np 1(2) grown_trans [of i c0 _ c "[]" c'] unfolding usb_chunk_def sink_only_usb [OF 1(3)] by fastforce
      then show ?thesis
        using False act by (auto simp: usb_phase_def split: option.split sum.split)
    qed
  qed auto
  then show ?thesis
    using ph(2,3) np unfolding check_failed_def wp_steps by (simp only: simp_thms if_True wp_steps)
next
  case False
  then show ?thesis
    using assms unfolding check_failed_def wp_steps by (simp only: simp_thms if_False wp_simps)
qed

lemma wp_submit_recv:
  assumes "usb_phase i c0 content rest c"
  shows "wp submit_recv (\<lambda>c' r. r = Ok () \<and> usb_phase i c0 content rest c' \<and> rx_queue c' \<noteq> None) c"
proof (cases "rx_queue c")
  case None
  have ph: "usb_chunk i c0 content rest [] c" "download_active c" and inv: "client_inv c"
    using assms by (simp_all add: usb_phase_def usb_chunk_def)
  have rb: "wp recv_buffer (\<lambda>c' r. \<exists>b. r = Ok b \<and> client_inv c' \<and> sink_only c c' \<and> grown i c [] c' \<and> lasting i c c') c"
    unfolding recv_buffer_def wp_steps using wp_buffer [OF inv, of _ i] inv by (auto simp: lasting_def)
  have "wp (andthen recv_buffer (\<lambda>buf.
        andthen (attempt (try_recv buf)) (\<lambda>r. case r of Inr _ \<Rightarrow> ret ()
          | Inl err \<Rightarrow> if is_closed_transport_error err then modify (\<lambda>c. c\<lparr>gadget_torn_down := True\<rparr>) else ret ())))
      (\<lambda>c' r. r = Ok () \<and> usb_phase i c0 content rest c' \<and> rx_queue c' \<noteq> None) c"
  proof (rule wp_bind [OF rb], elim exE conjE, goal_cases)
    case (1 c' buf b)
    have ch: "usb_chunk i c0 content rest [] c'" "download_active c'"
      using usb_chunk_sink [OF ph(1)] 1 ph(2) sink_only_usb [of c c'] by (simp_all add: download_active_def)
    then have "submit_script c' = []"
      by (simp add: usb_chunk_def)
    moreover have "usb_phase i c0 content rest (c'\<lparr>rx_queue := Some buf\<rparr>)"
      using ch by (simp add: usb_phase_def usb_chunk_def download_active_def grown_def)
    ultimately show ?case
      by (simp add: wp_andthen wp_attempt) (simp add: wp_def try_recv_def ret_def)
  qed auto
  then show ?thesis
    using None unfolding submit_recv_def wp_steps by (simp only: simp_thms if_False)
qed (use assms in \<open>simp add: submit_recv_def\<close>)

text \<open>The select yields the next packet, and awaiting the read cuts off what fits the buffer.\<close>

lemma wp_select_fetch:
  assumes "usb_phase i c0 content rest c" "rx_queue c \<noteq> None"
  shows "wp select_event (\<lambda>c' r. \<exists>p. r = Ok (Packet p) \<and> \<not> finish_pending c' \<and>
    wp (fetched (Packet p)) (\<lambda>c'' r. \<exists>chunk. r = Ok (Inr (Some chunk)) \<and> usb_chunk i c0 content rest (data chunk) c'' \<and>
      download_active c'') c') c"
proof -
  have ph: "usb_chunk i c0 content rest [] c" "download_active c" and inv: "client_inv c"
    using assms by (simp_all add: usb_phase_def usb_chunk_def)
  show ?thesis
    unfolding select_event_def
  proof (rule wp_bind [OF wp_pause [OF inv, of i]], elim conjE, goal_cases)
    case (1 c' u)
    have ch: "usb_chunk i c0 content rest [] c'" "download_active c'" "rx_queue c' = rx_queue c"
      using usb_chunk_sink [OF ph(1)] 1 ph(2) sink_only_usb [of c c'] by (simp_all add: download_active_def)
    from ch(1) obtain dn ps where d: "content = dn @ concat ps" "bulk c' = map Packet ps @ rest" "[] \<notin> set ps"
      "downloaded_size c' + length (concat ps) = download_size c'"
      "pending_fail_reply c' = None \<and> attached i (fsink c') \<and> grown i c0 dn c' \<or>
        pending_fail_reply c' = Some FAIL_EPIPE \<and> failed_at i (sys c')"
      "\<not> finish_pending c'"
      by (rule usb_chunkE) auto
    obtain p ps' where p: "ps = p # ps'"
      using d(4) ch(2) by (cases ps) (auto simp: download_active_def)
    obtain buf where buf: "rx_queue c' = Some buf"
      using ch(3) assms(2) by auto
    let ?c = "\<lambda>es. c'\<lparr>rx_queue := None, bulk := es\<rparr>"
    have "usb_chunk i c0 content rest p (?c (map Packet ps' @ rest))"
      unfolding usb_chunk_def
      by (intro conjI exI [of _ dn] exI [of _ ps']) (use ch(1) [unfolded usb_chunk_def] d p in \<open>simp_all add: grown_def\<close>)
    moreover have "usb_chunk i c0 content rest (take n p) (?c (Packet (drop n p) # map Packet ps' @ rest))" if "n < length p" for n
      unfolding usb_chunk_def
      by (intro conjI exI [of _ dn] exI [of _ "drop n p # ps'"])
        (use ch(1) [unfolded usb_chunk_def] d p that in \<open>simp_all add: grown_def\<close>)
    ultimately show ?case
      using d(2,6) p buf ch(2) by (auto simp: wp_def fetched_def download_active_def)
  qed auto
qed

lemma saturating_small: "a + b < 2 ^ 64 \<Longrightarrow> saturating_add a b = a + b"
  by (simp add: saturating_add_def)

text \<open>The boundary: the reply is sent, and after a failure the session starts over.\<close>

lemma wp_boundary_ok:
  assumes "client_inv c" "wr_script c = []" "\<not> download_active c" "bulk c = rest" "replies c = replies c0"
    "pending_fail_reply c = None" "grown i c0 content c"
  shows "wp (andthen (send_static OKAY) (\<lambda>_. ret True)) (\<lambda>c' r. r = Ok True \<and> usb_over i c0 content rest c') c"
proof (rule wp_bind [OF wp_send_static [OF assms(1,2), of _ i]], goal_cases)
  case (1 c' u)
  then obtain c1 where c1: "sink_only c c1" "c' = c1\<lparr>replies := replies c @ [OKAY]\<rparr>" and g: "grown i c [] c'" "client_inv c'"
    by blast
  have "grown i c0 content c'"
    using grown_trans [OF assms(7) g(1)] by simp
  then show ?case
    using g c1(2) assms(3-6) sink_only_usb [OF c1(1)] by (simp add: usb_over_def download_active_def)
qed auto

lemma failed_at_drop: "failed_at i w \<Longrightarrow> failed_at i (session_drop s w)"
  by (auto simp: failed_at_def session_drop_def drop_recycle_def drop_tx_def nth_list_modify split: option.split status_task.splits)

lemma wp_boundary_fail:
  assumes "client_inv c" "wr_script c = []" "bulk c = rest" "replies c = replies c0" "failed_at i (sys c)"
  shows "wp (andthen (send_static FAIL_EPIPE) (\<lambda>_. andthen reset_state (\<lambda>_. ret True)))
    (\<lambda>c' r. r = Ok True \<and> usb_over i c0 content rest c') c"
proof (rule wp_bind [OF wp_send_static [OF assms(1,2), of _ i]], goal_cases)
  case (1 c' u)
  then obtain c1 where c1: "sink_only c c1" "c' = c1\<lparr>replies := replies c @ [FAIL_EPIPE]\<rparr>" and g: "client_inv c'" "lasting i c c'"
    by blast
  have "client_inv (c'\<lparr>sys := session_drop (fsink c') (sys c'), fsink := session_new p n\<rparr>)" for p n
    by (rule reset_state_inv [OF g(1)])
  moreover have "failed_at i (session_drop (fsink c') (sys c'))"
    using g(2) assms(5) failed_at_drop by (simp add: lasting_def)
  ultimately show ?case
    using c1 assms(3,4) sink_only_usb [OF c1(1)] by (simp add: reset_state_def usb_over_def download_active_def)
qed auto

lemma usb_phaseI:
  assumes "client_inv c" "\<not> finish_pending c" "\<not> gadget_torn_down c" "wr_script c = []" "submit_script c = []"
    "replies c = replies c0" "download_size c < 2 ^ 64" "content = dn @ concat ps" "bulk c = map Packet ps @ rest"
    "[] \<notin> set ps" "downloaded_size c + length (concat ps) = download_size c" "ps \<noteq> []"
    "pending_fail_reply c = None \<and> attached i (fsink c) \<and> grown i c0 dn c \<or>
      pending_fail_reply c = Some FAIL_EPIPE \<and> failed_at i (sys c)"
  shows "usb_phase i c0 content rest c"
proof -
  have "0 < length (concat ps)"
    using assms(10,12) by (cases ps) auto
  with assms(11) have act: "downloaded_size c < download_size c"
    by linarith
  show ?thesis
    unfolding usb_phase_def usb_chunk_def download_active_def
    by (intro conjI exI [of _ dn] exI [of _ ps]) (use assms act in simp_all)
qed

lemma wp_download_chunk:
  assumes "usb_chunk i c0 content rest (data chunk) c" "download_active c"
  shows "wp (handle_download_chunk chunk) (\<lambda>c' r. r = Ok True \<and> (usb_phase i c0 content rest c' \<or> usb_over i c0 content rest c')) c"
proof (cases "data chunk = []")
  case True
  then show ?thesis
    using assms by (simp add: handle_download_chunk_def usb_phase_def)
next
  case ne: False
  from assms(1) obtain dn ps where d: "content = dn @ data chunk @ concat ps" "bulk c = map Packet ps @ rest" "[] \<notin> set ps"
    "downloaded_size c + length (data chunk) + length (concat ps) = download_size c"
    "pending_fail_reply c = None \<and> attached i (fsink c) \<and> grown i c0 dn c \<or>
      pending_fail_reply c = Some FAIL_EPIPE \<and> failed_at i (sys c)"
    and q: "client_inv c" "\<not> finish_pending c" "\<not> gadget_torn_down c" "wr_script c = []" "submit_script c = []"
    "replies c = replies c0" "download_size c < 2 ^ 64"
    by (rule usb_chunkE)
  let ?len = "length (data chunk)"
  let ?Q = "\<lambda>c' r. r = Ok True \<and> (usb_phase i c0 content rest c' \<or> usb_over i c0 content rest c')"
  have sat: "saturating_add (downloaded_size c) ?len = downloaded_size c + ?len"
    using d(4) q(7) by (intro saturating_small) simp
  have bnd: "download_size c \<le> downloaded_size c + ?len \<longleftrightarrow> ps = []"
  proof (cases ps)
    case (Cons a list)
    then have "0 < length a"
      using d(3) by auto
    then show ?thesis
      using d(4) Cons by (simp del: length_greater_0_conv)
  qed (use d(4) in simp)
  show ?thesis
  proof (cases "pending_fail_reply c")
    case (Some reply)
    then have r: "reply = FAIL_EPIPE"
      using d(5) by simp
    let ?c = "c\<lparr>downloaded_size := downloaded_size c + ?len\<rparr>"
    have "ps \<noteq> [] \<Longrightarrow> usb_phase i c0 content rest ?c"
      by (rule usb_phaseI [of _ c0 content "dn @ data chunk" ps]) (use d q Some r in simp_all)
    moreover have "ps = [] \<Longrightarrow> wp (andthen (send_static FAIL_EPIPE) (\<lambda>_. andthen reset_state (\<lambda>_. ret True))) ?Q ?c"
      by (rule wp_mono [OF wp_boundary_fail [of ?c rest c0 i content]]) (use d q Some in auto)
    ultimately show ?thesis
      using ne Some r sat bnd by (simp add: handle_download_chunk_def count_chunk_def at_boundary_def bm_len_def)
  next
    case None
    then have g: "grown i c0 dn c" and att: "attached i (fsink c)"
      using d(5) by simp_all
    have "wp (andthen (feed_chunk chunk) (\<lambda>outcome.
             andthen (count_chunk (bm_len chunk)) (\<lambda>_.
               case outcome of
                 Inr _ \<Rightarrow>
                   andthen (query at_boundary) (\<lambda>over.
                     if over then andthen (send_static OKAY) (\<lambda>_. ret True) else ret True)
               | Inl err \<Rightarrow>
                   (let reply = (if kind err = NotConnected then FAIL_NOTOPEN else FAIL_EPIPE) in
                    andthen (fail_download reply) (\<lambda>_.
                    andthen (query at_boundary) (\<lambda>over.
                      if over then andthen (send_static reply) (\<lambda>_. andthen reset_state (\<lambda>_. ret True))
                      else ret True)))))) ?Q c"
    proof (rule wp_bind [OF wp_feed_chunk [OF q(1), of chunk i]], elim conjE, goal_cases)
      case (1 c1 outcome)
      note so = sink_only_usb [OF 1(2)]
      let ?c = "c1\<lparr>downloaded_size := downloaded_size c + ?len\<rparr>"
      from 1(3) show ?case
      proof (elim disjE conjE exE)
        assume o: "Ok outcome = Ok (Inr ())" and gr: "grown i c (data chunk) c1"
        have gr2: "grown i c0 (dn @ data chunk) ?c" "attached i (fsink ?c)"
          using grown_trans [OF g gr] gr att by (simp_all add: grown_def)
        have "ps \<noteq> [] \<Longrightarrow> usb_phase i c0 content rest ?c"
          by (rule usb_phaseI [of _ c0 content "dn @ data chunk" ps]) (use 1(1) d q None gr2 so in simp_all)
        moreover have "ps = [] \<Longrightarrow> wp (andthen (send_static OKAY) (\<lambda>_. ret True)) ?Q ?c"
          by (rule wp_mono [OF wp_boundary_ok [of ?c rest c0 i content]])
            (use 1(1) d q None gr2 so in \<open>auto simp: download_active_def\<close>)
        ultimately show ?thesis
          using o sat bnd so by (simp add: count_chunk_def at_boundary_def bm_len_def)
      next
        fix e
        assume "\<not> attached i (fsink c)"
        then show ?thesis
          using att by simp
      qed
    qed auto
    then show ?thesis
      using ne None unfolding handle_download_chunk_def by (simp only: if_False wp_steps option.case)
  qed
qed

lemma wp_connected_step:
  assumes "usb_phase i c0 content rest c"
  shows "wp connected_step (\<lambda>c' r. r = Ok True \<and> (usb_phase i c0 content rest c' \<or> usb_over i c0 content rest c')) c"
  unfolding connected_step_def
proof (rule wp_bind [OF wp_check_failed [OF assms]], elim conjE, goal_cases)
  case (1 c1 u)
  show ?case
  proof (rule wp_bind [OF wp_submit_recv [OF 1(2)]], elim conjE, goal_cases)
    case (1 c2 u)
    have td: "\<not> gadget_torn_down c2"
      using 1(2) by (simp add: usb_phase_def usb_chunk_def)
    have "wp (andthen select_event (\<lambda>ev. case ev of
          Signal on \<Rightarrow> if on then ret True else andthen (usb_reset None) (\<lambda>_. ret False)
          | ControlEnded \<Rightarrow> andthen (usb_reset None) (\<lambda>_. ret False)
          | _ \<Rightarrow> transfer_step ev))
      (\<lambda>c' r. r = Ok True \<and> (usb_phase i c0 content rest c' \<or> usb_over i c0 content rest c')) c2"
    proof (rule wp_bind [OF wp_select_fetch [OF 1(2,3)]], elim exE conjE, goal_cases)
      case (1 c3 ev p)
      have "wp (andthen (fetched (Packet p)) on_recv) (\<lambda>c' r. r = Ok True \<and> (usb_phase i c0 content rest c' \<or> usb_over i c0 content rest c')) c3"
      proof (rule wp_bind [OF 1(3)], elim exE conjE, goal_cases)
        case (1 c4 res chunk)
        obtain ps :: "bytes list" where "downloaded_size c4 + length (data chunk) + length (concat ps) = download_size c4"
          using 1(2) unfolding usb_chunk_def by blast
        then have "bm_len chunk \<le> remaining_download_bytes c4"
          by (simp add: bm_len_def remaining_download_bytes_def)
        then show ?case
          using 1(1,3) wp_download_chunk [OF 1(2,3)] by (simp add: on_recv_def handle_rx_chunk_def)
      qed auto
      then show ?case
        using 1(1,2) by (simp add: transfer_step_def)
    qed auto
    then show ?case
      using td by simp
  qed auto
qed auto

subsection \<open>Quiescing\<close>

named_theorems stops_intros \<open>where a step may stop the loop\<close>

lemma stops_ret [stops_intros]: "stops_in Q (ret True)"
  by (simp add: stops_in_def)

lemma stops_andthen [stops_intros]:
  assumes "\<And>x. stops_in Q (f x)"
  shows "stops_in Q (andthen m f)"
  unfolding stops_in_def wp_andthen
proof (intro allI wpI)
  fix c c' r
  show "case r of Ok x \<Rightarrow> wp (f x) (\<lambda>c' r. r = Ok False \<longrightarrow> Q c') c' | Err e \<Rightarrow> Err e = Ok False \<longrightarrow> Q c'
    | Panic \<Rightarrow> Panic = Ok False \<longrightarrow> Q c'"
    using assms by (simp add: stops_in_def split: outcome.split)
qed

lemma stops_never:
  assumes "stops_in (\<lambda>_. False) m" "stops_in Q (f True)"
  shows "stops_in Q (andthen m f)"
  unfolding stops_in_def
proof (intro allI, rule wp_bind)
  show "wp m (\<lambda>c' r. r \<noteq> Ok False) c" for c
    using assms(1) by (simp add: stops_in_def)
  show "wp (f x) (\<lambda>c' r. r = Ok False \<longrightarrow> Q c') c'" if "Ok x \<noteq> Ok False" for c' x
    using that assms(2) by (cases x) (simp_all add: stops_in_def)
qed auto

lemma stops_if [stops_intros]: "stops_in Q a \<Longrightarrow> stops_in Q b \<Longrightarrow> stops_in Q (if P then a else b)"
  by simp

lemma stops_case_option [stops_intros]:
  "stops_in Q a \<Longrightarrow> (\<And>x. stops_in Q (g x)) \<Longrightarrow> stops_in Q (case v of None \<Rightarrow> a | Some x \<Rightarrow> g x)"
  by (simp split: option.split)

lemma stops_case_sum [stops_intros]:
  "(\<And>x. stops_in Q (h x)) \<Longrightarrow> (\<And>x. stops_in Q (k x)) \<Longrightarrow> stops_in Q (case w of Inl x \<Rightarrow> h x | Inr x \<Rightarrow> k x)"
  by (simp split: sum.split)

lemma stops_download_chunk [stops_intros]: "stops_in Q (handle_download_chunk chunk)"
  unfolding handle_download_chunk_def Let_def by (intro stops_intros)

lemma stops_case_prod [stops_intros]:
  "(\<And>x y. stops_in Q (h x y)) \<Longrightarrow> stops_in Q (case p of (x, y) \<Rightarrow> h x y)"
  by (simp split: prod.split)

lemma stops_unless [stops_intros]:
  assumes "stops_in (\<lambda>_. False) m" "stops_in Q k"
  shows "stops_in Q (andthen m (\<lambda>on. if \<not> on then ret False else k))"
  by (rule stops_never [OF assms(1)]) (simp add: assms(2))

lemma stops_rx_chunk [stops_intros]: "stops_in Q (handle_rx_chunk chunk)"
  unfolding handle_rx_chunk_def Let_def by (intro stops_intros)

lemma stops_reset [stops_intros]: "stops_in quiesced (andthen (usb_reset reply) (\<lambda>_. ret False))"
  unfolding stops_in_def
proof
  fix c :: FastbootUsbState
  have ss: "wp (send_static bs) (\<lambda>c' r. quiesced c') c" if "quiesced c" for bs c
    using that by (simp add: send_static_def tx_send_def wp_def prog_defs pause_def quiesced_def usb_in_flight_def download_active_def
        split: list.split write_outcome.split)
  have "wp sink_abort (\<lambda>c' r. rx_queue c' = None) (c\<lparr>rx_queue := None\<rparr>)"
    by (simp add: wp_def sink_abort_def split: prod.split)
  then have "wp (usb_reset reply) (\<lambda>c' r. \<forall>x. r = Ok x \<longrightarrow> quiesced c') c"
    unfolding usb_reset_def wp_steps
  proof (rule wp_bind, goal_cases)
    case (1 c' u)
    then have "quiesced (c'\<lparr>sys := session_drop (fsink c') (sys c'),
     fsink := session_new (download_params c') USB_RECV_BUFFER_SIZE, fastboot_usb_session_open := False,
     download_size := 0, downloaded_size := 0, fastboot_pending_flash := False, finish_pending := False,
     pending_fail_reply := None\<rparr>)"
      by (simp add: quiesced_def usb_in_flight_def download_active_def)
    then show ?case
      by (cases reply) (simp_all add: reset_state_def wp_mono [OF ss])
  qed auto
  then show "wp (andthen (usb_reset reply) (\<lambda>_. ret False)) (\<lambda>c' r. r = Ok False \<longrightarrow> quiesced c') c"
    by (rule wp_bind) auto
qed

lemma connected_step_quiesced: "stops_in quiesced connected_step"
  unfolding connected_step_def transfer_step_def on_recv_def
  by (intro stops_intros) (auto split: usb_event.split intro!: stops_intros)

lemma connected_turns_quiesced: "stops_in quiesced (connected_turns n)"
proof (induction n)
  case (Suc n)
  show ?case
    unfolding connected_turns.simps stops_in_def
  proof (intro allI, rule wp_bind)
    show "wp connected_step (\<lambda>c' r. r = Ok False \<longrightarrow> quiesced c') c" for c
      using connected_step_quiesced by (simp add: stops_in_def)
    show "wp (if on then connected_turns n else ret False) (\<lambda>c' r. r = Ok False \<longrightarrow> quiesced c') c'"
      if "Ok on = Ok False \<longrightarrow> quiesced c'" for c' on
      using that Suc by (simp add: stops_in_def)
  qed auto
qed (simp add: stops_intros)

subsection \<open>The invariant\<close>

named_theorems aside_intros \<open>programs that leave the transfer state alone\<close>

lemma ctl_frame:
  assumes "ctl c' = ctl c"
  shows "download_size c' = download_size c" "downloaded_size c' = downloaded_size c"
    "finish_pending c' = finish_pending c" "pending_fail_reply c' = pending_fail_reply c"
    "download_active c' = download_active c" "at_boundary c' = at_boundary c"
    "ctl_ok c' = ctl_ok c" "at_rest c' = at_rest c"
  using assms by (simp_all add: ctl_def download_active_def at_boundary_def ctl_ok_def at_rest_def)

lemma aside_basic [aside_intros]: "aside (ret x)" "aside stuck" "aside (query f)"
  by (simp_all add: aside_def wp_def prog_defs)

lemma aside_andthen [aside_intros]:
  assumes "aside m" "\<And>x. aside (f x)"
  shows "aside (andthen m f)"
  unfolding aside_def
proof (intro allI, rule wp_bind)
  show "wp m (\<lambda>c' r. ctl c' = ctl c) c" for c
    using assms(1) by (simp add: aside_def)
  show "wp (f x) (\<lambda>c' r. ctl c' = ctl c) c'" if "ctl c' = ctl c" for c c' x
    using assms(2) [unfolded aside_def, rule_format, of x c'] that by simp
qed auto

lemma aside_attempt [aside_intros]: "aside m \<Longrightarrow> aside (attempt m)"
  unfolding aside_def wp_attempt by (auto elim!: wp_mono [rotated] intro: wp_mono split: outcome.split)

lemma aside_case [aside_intros]:
  "\<lbrakk>aside a; \<And>x. aside (g x)\<rbrakk> \<Longrightarrow> aside (case v of None \<Rightarrow> a | Some x \<Rightarrow> g x)"
  "\<lbrakk>\<And>x. aside (h x); \<And>x. aside (k x)\<rbrakk> \<Longrightarrow> aside (case w of Inl x \<Rightarrow> h x | Inr x \<Rightarrow> k x)"
  "aside t \<Longrightarrow> aside e \<Longrightarrow> aside (if b then t else e)"
  by (auto split: option.split sum.split)

lemma aside_modify: "(\<And>c. ctl (f c) = ctl c) \<Longrightarrow> aside (modify f)"
  by (simp add: aside_def)

lemma aside_ops [aside_intros]:
  "aside pause" "aside (tx_send bs)" "aside sink_abort" "aside sink_open" "aside sink_eof" "aside sink_finished"
  "aside sink_try_finished" "aside (sink_buffer n)" "aside (sink_send b)" "aside (sink_try_send b)"
  "aside (try_recv b)" "aside (fetched ev)" "aside crash"
  by (auto simp: aside_def wp_def ctl_def prog_defs pause_def tx_send_def sink_abort_def sink_open_def sink_eof_def
      sink_finished_def sink_try_finished_def sink_buffer_def sink_send_def sink_try_send_def try_recv_def
      fetched_def crash_def split: option.splits prod.splits list.splits write_outcome.splits usb_event.splits)

lemma aside_case_feed [aside_intros]:
  "(\<And>n. aside (f n)) \<Longrightarrow> (\<And>b. aside (g b)) \<Longrightarrow> aside h \<Longrightarrow>
    aside (case v of FeedOk n \<Rightarrow> f n | FeedFull b \<Rightarrow> g b | FeedClosed \<Rightarrow> h)"
  by (simp split: Feed.split)

lemma aside_send_static [aside_intros]: "aside (send_static bs)"
  unfolding send_static_def by (intro aside_intros)

lemma aside_begin [aside_intros]: "aside begin_download_command"
  unfolding begin_download_command_def by (intro aside_intros)

lemma aside_wopen [aside_intros]: "aside handle_wopen_command"
  unfolding handle_wopen_command_def by (intro aside_intros aside_modify) (simp add: ctl_def)

lemma aside_fetch [aside_intros]: "aside (handle_fetch_command t)"
  unfolding handle_fetch_command_def send_data_header_def by (intro aside_intros)

lemma aside_getvar [aside_intros]: "aside (usb_getvar a)"
  unfolding usb_getvar_def by (intro aside_intros)

lemma aside_feed [aside_intros]: "aside (feed_chunk b)"
  unfolding feed_chunk_def by (intro aside_intros)

lemma aside_submit [aside_intros]: "aside submit_recv"
  unfolding submit_recv_def recv_buffer_def by (intro aside_intros aside_modify) (simp add: ctl_def)

lemma aside_select [aside_intros]: "aside select_event"
  unfolding select_event_def
  by (intro aside_intros) (auto simp: aside_def wp_def ctl_def split: list.split usb_event.split option.split)

text \<open>After a program of that kind the rest of an operation runs in the same transfer state.\<close>

lemma wp_aside:
  assumes "aside m" "\<And>c' x. ctl c' = ctl c \<Longrightarrow> wp (f x) (\<lambda>c' r. Q c') c'" "\<And>c'. ctl c' = ctl c \<Longrightarrow> Q c'"
  shows "wp (andthen m f) (\<lambda>c' r. Q c') c"
proof (rule wp_bind)
  show "wp m (\<lambda>c' r. ctl c' = ctl c) c"
    using assms(1) by (simp add: aside_def)
qed (auto intro: assms)

lemma wp_aside_last: "aside m \<Longrightarrow> (\<And>c'. ctl c' = ctl c \<Longrightarrow> Q c') \<Longrightarrow> wp m (\<lambda>c' r. Q c') c"
  by (rule wp_mono [of m "\<lambda>c' r. ctl c' = ctl c"]) (simp_all add: aside_def)

lemma at_rest_ok: "at_rest c \<Longrightarrow> ctl_ok c"
  by (simp add: at_rest_def ctl_ok_def)

lemma at_rest_reset:
  "at_rest (c\<lparr>sys := w, fsink := s, fastboot_usb_session_open := False, download_size := 0, downloaded_size := 0,
     fastboot_pending_flash := False, finish_pending := False, pending_fail_reply := None\<rparr>)"
  by (simp add: at_rest_def download_active_def)

lemma reset_rests: "wp (andthen reset_state f) Q c" if "\<And>c. at_rest c \<Longrightarrow> wp (f ()) Q c"
  unfolding reset_state_def wp_steps by (rule that [OF at_rest_reset])

lemma wp_reply: "ctl_ok c \<Longrightarrow> wp (send_static bs) (\<lambda>c' r. ctl_ok c') c"
  by (rule wp_aside_last [OF aside_send_static]) (metis ctl_frame(7))

lemma wp_reply_then: "ctl_ok c \<Longrightarrow> wp (andthen (send_static bs) (\<lambda>_. ret x)) (\<lambda>c' r. ctl_ok c') c"
  by (rule wp_aside_last, intro aside_intros) (metis ctl_frame(7))

lemma wp_usb_reset_ok: "ctl_ok c \<Longrightarrow> wp (usb_reset r) (\<lambda>c' r. ctl_ok c') c"
  unfolding usb_reset_def wp_steps
proof (rule wp_aside [OF aside_ops(3)], goal_cases)
  case (1 c' x)
  show ?case
    by (rule reset_rests) (auto intro: wp_reply at_rest_ok split: option.split)
next
  case (2 c')
  then show ?case
    by (simp add: ctl_def ctl_ok_def download_active_def)
qed

lemma keeps_aside: "aside m \<Longrightarrow> keeps_ctl m"
  unfolding keeps_ctl_def by (intro allI impI wp_aside_last) (auto dest: ctl_frame(7))

lemma keeps_andthen:
  assumes "keeps_ctl m" "\<And>x. keeps_ctl (f x)"
  shows "keeps_ctl (andthen m f)"
  unfolding keeps_ctl_def
  using assms [unfolded keeps_ctl_def, rule_format]
  by (intro allI impI wp_bind) blast+

lemma keeps_reset: "keeps_ctl (usb_reset r)"
  by (simp add: keeps_ctl_def wp_usb_reset_ok)

lemma keeps_stop: "keeps_ctl (andthen (usb_reset r) (\<lambda>_. ret x))"
  by (intro keeps_andthen keeps_reset keeps_aside aside_intros)

lemma receiving_frame: "ctl c' = ctl c \<Longrightarrow> receiving c' = receiving c"
  by (simp add: receiving_def ctl_frame(3,7) [of c' c])

lemma at_rest_receiving: "at_rest c \<Longrightarrow> receiving c"
  by (simp add: at_rest_def receiving_def ctl_ok_def)

lemma wp_receiving: "receiving c \<Longrightarrow> aside m \<Longrightarrow> wp m (\<lambda>c' r. receiving c') c"
  by (erule wp_aside_last) (drule receiving_frame, simp)

lemma wp_receiving_then:
  assumes "receiving c" "aside m" "\<And>c' x. receiving c' \<Longrightarrow> ctl c' = ctl c \<Longrightarrow> wp (f x) (\<lambda>c' r. receiving c') c'"
  shows "wp (andthen m f) (\<lambda>c' r. receiving c') c"
proof (rule wp_aside [OF assms(2)])
  show rec: "receiving c'" if "ctl c' = ctl c" for c'
    using receiving_frame [OF that] assms(1) by simp
  show "wp (f x) (\<lambda>c' r. receiving c') c'" if "ctl c' = ctl c" for c' x
    by (rule assms(3) [OF rec [OF that] that])
qed

text \<open>Sending a reply and aborting the session always come back.\<close>

lemma wp_static_then:
  assumes "\<And>c'. ctl c' = ctl c \<Longrightarrow> wp (f ()) Q c'"
  shows "wp (andthen (send_static bs) f) Q c"
proof (rule wp_bind)
  show "wp (send_static bs) (\<lambda>c' r. r = Ok () \<and> ctl c' = ctl c) c"
    unfolding send_static_def wp_andthen wp_attempt tx_send_def
    by (auto simp: wp_def ctl_def pause_def prog_defs split: list.split write_outcome.split)
qed (use assms in auto)

lemma wp_abort_then:
  assumes "\<And>c'. ctl c' = ctl c \<Longrightarrow> wp (f ()) Q c'"
  shows "wp (andthen sink_abort f) Q c"
proof (rule wp_bind)
  show "wp sink_abort (\<lambda>c' r. r = Ok () \<and> ctl c' = ctl c) c"
    by (auto simp: wp_def ctl_def sink_abort_def split: prod.split)
qed (use assms in auto)

lemma wp_reply_reset:
  "wp (andthen (send_static reply) (\<lambda>_. andthen reset_state (\<lambda>_. ret x))) (\<lambda>c' r. receiving c') c"
  by (intro wp_static_then reset_rests) (simp add: at_rest_receiving)

lemma wp_reply_static: "receiving c \<Longrightarrow> wp (andthen (send_static reply) (\<lambda>_. ret x)) (\<lambda>c' r. receiving c') c"
  by (rule wp_receiving, assumption) (intro aside_intros)

lemma receiving_active: "\<not> finish_pending c \<Longrightarrow> download_active c \<Longrightarrow> receiving c"
  by (simp add: receiving_def ctl_ok_def)

lemma receiving_plain: "\<not> finish_pending c \<Longrightarrow> pending_fail_reply c = None \<Longrightarrow> receiving c"
  by (simp add: receiving_def ctl_ok_def)

lemma active_boundary: "download_active c \<longleftrightarrow> \<not> at_boundary c"
  by (auto simp: download_active_def at_boundary_def)

lemma failing_chunk:
  assumes "\<not> finish_pending c"
  shows "wp (andthen (query at_boundary) (\<lambda>over.
    if over then andthen (send_static reply) (\<lambda>_. andthen reset_state (\<lambda>_. ret True)) else ret True))
    (\<lambda>c' r. receiving c') c"
  using assms wp_reply_reset [of reply True c] receiving_active [of c] by (simp add: active_boundary)

lemma andthen_assoc: "andthen (andthen m f) g = andthen m (\<lambda>x. andthen (f x) g)"
  by (rule ext) (simp add: andthen_def split: option.split outcome.split prod.split)

lemma failed_feed:
  assumes "\<not> finish_pending c"
  shows "wp (andthen (fail_download reply) (\<lambda>_. andthen (query at_boundary) (\<lambda>over.
    if over then andthen (send_static reply) (\<lambda>_. andthen reset_state (\<lambda>_. ret True)) else ret True)))
    (\<lambda>c' r. receiving c') c"
proof -
  have "wp (andthen sink_abort (\<lambda>_. andthen (modify (\<lambda>c. c\<lparr>pending_fail_reply := Some reply\<rparr>)) (\<lambda>_. andthen (query at_boundary) (\<lambda>over.
    if over then andthen (send_static reply) (\<lambda>_. andthen reset_state (\<lambda>_. ret True)) else ret True))))
    (\<lambda>c' r. receiving c') c"
    by (rule wp_abort_then, subst wp_steps, rule failing_chunk) (use assms in \<open>simp add: ctl_def\<close>)
  then show ?thesis
    by (simp only: fail_download_def andthen_assoc)
qed

lemma chunk_receiving:
  assumes "receiving c"
  shows "wp (handle_download_chunk chunk) (\<lambda>c' r. receiving c') c"
proof (cases "data chunk = [] \<or> pending_fail_reply c \<noteq> None")
  case True
  then show ?thesis
    using assms failing_chunk [of "c\<lparr>downloaded_size := saturating_add (downloaded_size c) (bm_len chunk)\<rparr>"]
    by (auto simp: handle_download_chunk_def count_chunk_def receiving_def)
next
  case False
  then have ok: "\<not> finish_pending c" "pending_fail_reply c = None" "data chunk \<noteq> []"
    using assms by (simp_all add: receiving_def)
  show ?thesis
    unfolding handle_download_chunk_def if_not_P [OF ok(3)] wp_steps ok(2) option.case
  proof (rule wp_receiving_then [OF assms aside_feed], goal_cases)
    case (1 c' outcome)
    let ?c = "c'\<lparr>downloaded_size := saturating_add (downloaded_size c') (bm_len chunk)\<rparr>"
    have "\<not> finish_pending ?c" "pending_fail_reply ?c = None"
      using 1(2) ok by (simp_all add: ctl_def)
    then show ?case
      using failed_feed [of ?c] wp_reply_static [of ?c OKAY True] receiving_plain [of ?c]
      by (simp add: count_chunk_def Let_def split: sum.split)
  qed
qed

lemma wp_ok_then:
  assumes "ctl_ok c" "aside m" "\<And>c' x. ctl_ok c' \<Longrightarrow> ctl c' = ctl c \<Longrightarrow> wp (f x) (\<lambda>c' r. ctl_ok c') c'"
  shows "wp (andthen m f) (\<lambda>c' r. ctl_ok c') c"
proof (rule wp_aside [OF assms(2)])
  show rec: "ctl_ok c'" if "ctl c' = ctl c" for c'
    using ctl_frame(7) [OF that] assms(1) by simp
  show "wp (f x) (\<lambda>c' r. ctl_ok c') c'" if "ctl c' = ctl c" for c' x
    by (rule assms(3) [OF rec [OF that] that])
qed

lemma wp_ok: "ctl_ok c \<Longrightarrow> aside m \<Longrightarrow> wp m (\<lambda>c' r. ctl_ok c') c"
  by (erule wp_aside_last) (drule ctl_frame(7), simp)

lemma start_finish_ok:
  assumes "at_rest c"
  shows "wp start_finish_download_command (\<lambda>c' r. ctl_ok c') c"
proof -
  have "wp (andthen sink_eof (\<lambda>_. andthen (modify (\<lambda>c. c\<lparr>finish_pending := True\<rparr>)) (\<lambda>_. ret True))) (\<lambda>c' r. ctl_ok c') c"
    by (rule wp_ok_then [OF at_rest_ok [OF assms] aside_ops(5)])
      (use assms in \<open>simp add: ctl_def at_rest_def ctl_ok_def download_active_def\<close>)
  then show ?thesis
    using wp_reply_then [OF at_rest_ok [OF assms], of FAIL_CLOSE False] by (simp add: start_finish_download_command_def)
qed

lemma keeps_pending_flash: "ctl_ok (c\<lparr>fastboot_pending_flash := b\<rparr>) = ctl_ok c"
  by (simp add: ctl_ok_def download_active_def)

lemma finish_flash_ok:
  assumes "at_rest c"
  shows "wp finish_flash_download (\<lambda>c' r. ctl_ok c') c"
proof -
  have "wp (andthen start_finish_download_command (\<lambda>started.
      if \<not> started then andthen (modify (\<lambda>c. c\<lparr>fastboot_pending_flash := False\<rparr>)) (\<lambda>_. ret False) else ret True))
      (\<lambda>c' r. ctl_ok c') c'" if "ctl c' = ctl c" for c'
    by (rule wp_bind [OF start_finish_ok])
      (use assms ctl_frame(8) [OF that] in \<open>auto simp: keeps_pending_flash\<close>)
  then have "wp (andthen (send_static INFO_WAIT_SWUPDATE) (\<lambda>_. andthen start_finish_download_command (\<lambda>started.
      if \<not> started then andthen (modify (\<lambda>c. c\<lparr>fastboot_pending_flash := False\<rparr>)) (\<lambda>_. ret False) else ret True)))
      (\<lambda>c' r. ctl_ok c') c"
    by (rule wp_static_then)
  then show ?thesis
    by (simp add: finish_flash_download_def wp_reply_then [OF at_rest_ok [OF assms]])
qed

lemma close_ok: "at_rest c \<Longrightarrow> wp handle_close_command (\<lambda>c' r. ctl_ok c') c"
  unfolding handle_close_command_def by (rule wp_bind [OF start_finish_ok]) auto

lemma download_ok:
  assumes "at_rest c"
  shows "wp (start_download_transfer len knd) (\<lambda>c' r. ctl_ok c') c"
  unfolding start_download_transfer_def wp_steps
proof (rule wp_ok_then [OF at_rest_ok [OF assms]], goal_cases)
  case 1
  show ?case
    by (intro aside_intros)
next
  case (2 c1 begun)
  show ?case
  proof (cases begun)
    case True
    have "wp (andthen (attempt (tx_send (data_header len))) (\<lambda>r.
          case r of
            Inl _ \<Rightarrow> andthen (usb_reset None) (\<lambda>_. ret False)
          | Inr _ \<Rightarrow>
              andthen (modify (\<lambda>c. c\<lparr>download_size := len, downloaded_size := 0,
                fastboot_pending_flash :=
                  (case knd of Fastboot \<Rightarrow> True | Plain \<Rightarrow> \<not> fastboot_usb_session_open c)\<rparr>)) (\<lambda>_.
              if len = 0 then
                andthen (modify (\<lambda>c. c\<lparr>download_size := 0, downloaded_size := 0\<rparr>)) (\<lambda>_.
                andthen (send_static OKAY) (\<lambda>_. ret True))
              else ret True))) (\<lambda>c' r. ctl_ok c') c1"
    proof (rule wp_ok_then [OF 2(1)], goal_cases)
      case (2 c2 r)
      have "at_rest c2"
        using assms 2(2) \<open>ctl c1 = ctl c\<close> ctl_frame(8) [of c2 c] by simp
      then have "ctl_ok (c2\<lparr>download_size := len, downloaded_size := 0, fastboot_pending_flash := f\<rparr>)"
        and "ctl_ok (c2\<lparr>fastboot_pending_flash := f, download_size := 0, downloaded_size := 0\<rparr>)" for f
        by (simp_all add: at_rest_def ctl_ok_def)
      then show ?case
        by (simp add: keeps_stop [unfolded keeps_ctl_def, rule_format, OF 2(1)] wp_reply_then split: sum.split)
    qed (intro aside_intros)
    then show ?thesis
      using True by (simp add: send_data_header_def)
  qed (use 2 in simp)
qed

lemma command_ok:
  assumes "at_rest c"
  shows "wp (handle_command_chunk chunk) (\<lambda>c' r. ctl_ok c') c"
proof -
  have run: "wp (case command of
                 WOpen \<Rightarrow> handle_wopen_command
               | GetVar arg \<Rightarrow> usb_getvar arg
               | Fetch target \<Rightarrow> handle_fetch_command target
               | FetchUnknownPart \<Rightarrow> andthen (send_static FAIL_UNKNOWN_PART) (\<lambda>_. ret False)
               | Download len knd \<Rightarrow> start_download_transfer len knd
               | Flash \<Rightarrow> finish_flash_download
               | Close \<Rightarrow> handle_close_command
               | Unsupported \<Rightarrow> andthen (send_static FAIL_CMD) (\<lambda>_. ret False)) (\<lambda>c' r. ctl_ok c') c" for command
    by (cases command)
      (simp_all add: download_ok finish_flash_ok close_ok wp_reply_then assms at_rest_ok
        wp_ok [OF at_rest_ok [OF assms]] aside_intros)
  show ?thesis
    unfolding handle_command_chunk_def Let_def
    by (auto simp: at_rest_ok [OF assms] crash_def wp_def [of "crash"] split: option.split intro!: wp_bind [OF run])
qed

lemma ok_active: "ctl_ok c \<Longrightarrow> download_active c \<Longrightarrow> receiving c"
  by (simp add: receiving_def ctl_ok_def)

lemma ok_torn_down: "ctl_ok (c\<lparr>gadget_torn_down := b\<rparr>) = ctl_ok c"
  by (simp add: ctl_ok_def download_active_def)

lemma wp_stop: "ctl_ok c \<Longrightarrow> wp (andthen (usb_reset r) (\<lambda>_. ret x)) (\<lambda>c' r. ctl_ok c') c"
  by (rule keeps_stop [unfolded keeps_ctl_def, rule_format])

lemma rx_ok:
  assumes "receiving c"
  shows "wp (handle_rx_chunk chunk) (\<lambda>c' r. ctl_ok c') c"
proof -
  have ok: "wp (handle_download_chunk x) (\<lambda>c' r. ctl_ok c') c'" if "receiving c'" for c' x
    by (rule wp_mono [OF chunk_receiving [OF that]]) (simp add: receiving_def)
  have rest: "at_rest c" if "\<not> download_active c"
    using that assms by (simp add: receiving_def at_rest_def ctl_ok_def) 
  have cmd: "wp (andthen (handle_command_chunk chunk) (\<lambda>(handled, rest).
        andthen (query download_active) (\<lambda>active.
          if handled \<and> active \<and> data rest \<noteq> [] then handle_download_chunk rest else ret True))) (\<lambda>c' r. ctl_ok c') c"
    if "\<not> download_active c"
    by (rule wp_bind [OF command_ok [OF rest [OF that]]])
      (auto intro!: ok ok_active split: prod.split)
  have tr: "wp (andthen (handle_download_chunk front) (\<lambda>on.
               if \<not> on then ret False
               else
                 andthen (query download_active) (\<lambda>active.
                   if active then ret True else handle_download_chunk trailing))) (\<lambda>c' r. ctl_ok c') c" for front trailing
    by (rule wp_bind [OF chunk_receiving [OF assms]]) (auto intro: ok simp: receiving_def)
  show ?thesis
    using cmd tr ok [OF assms] by (simp add: handle_rx_chunk_def Let_def split: prod.split)
qed

lemma transfer_ok:
  assumes "ctl_ok c"
  shows "wp (transfer_step ev) (\<lambda>c' r. ctl_ok c') c"
proof -
  have fin: "wp (andthen sink_finished (\<lambda>verdict.
        andthen reset_state (\<lambda>_.
        andthen (send_static (case verdict of Inr _ \<Rightarrow> OKAY | Inl _ \<Rightarrow> FAIL_CLOSE)) (\<lambda>_. ret True)))) (\<lambda>c' r. ctl_ok c') c"
    by (rule wp_ok_then [OF assms], intro aside_intros, rule reset_rests) (simp add: wp_reply_then at_rest_ok)
  have "wp (on_recv r) (\<lambda>c' r. ctl_ok c') c'" if "receiving c'" for c' r
    using rx_ok [OF that] that
    by (simp add: on_recv_def wp_stop receiving_def ok_torn_down split: option.split sum.split)
  then have "wp (andthen (fetched ev) on_recv) (\<lambda>c' r. ctl_ok c') c" if "\<not> finish_pending c"
    by (rule wp_ok_then [OF assms aside_ops(12)]) (use that in \<open>simp add: receiving_def ctl_def\<close>)
  then show ?thesis
    using fin by (simp add: transfer_step_def)
qed

lemma check_failed_ok:
  assumes "ctl_ok c"
  shows "wp check_failed (\<lambda>c' r. ctl_ok c') c"
proof -
  have "wp (andthen (if is_open (fsink c) then sink_try_finished else ret None) (\<lambda>seen.
      case seen of Some (Inl _) \<Rightarrow> fail_download FAIL_EPIPE | _ \<Rightarrow> ret ())) (\<lambda>c' r. ctl_ok c') c"
    if "\<not> finish_pending c" "download_active c"
  proof (rule wp_ok_then [OF assms], intro aside_intros)
    fix c1 seen
    assume c1: "ctl c1 = ctl c" "ctl_ok c1"
    have "wp (fail_download FAIL_EPIPE) (\<lambda>c' r. ctl_ok c') c1"
      unfolding fail_download_def
    proof (rule wp_abort_then)
      fix c2
      assume "ctl c2 = ctl c1"
      then show "wp (modify (\<lambda>c. c\<lparr>pending_fail_reply := Some FAIL_EPIPE\<rparr>)) (\<lambda>c' r. ctl_ok c') c2"
        using that c1(1) by (simp add: ctl_ok_def ctl_def download_active_def)
    qed
    then show "wp (case seen of Some (Inl _) \<Rightarrow> fail_download FAIL_EPIPE | _ \<Rightarrow> ret ()) (\<lambda>c' r. ctl_ok c') c1"
      using c1(2) by (simp split: option.split sum.split)
  qed
  then show ?thesis
    unfolding check_failed_def wp_steps using assms by (cases "finish_pending c \<or> \<not> download_active c") auto
qed

lemma keeps_connected_step: "keeps_ctl connected_step"
proof -
  have k: "keeps_ctl check_failed" "keeps_ctl (transfer_step ev)" for ev
    by (simp_all add: keeps_ctl_def check_failed_ok transfer_ok)
  have ev: "keeps_ctl (case ev of
            Signal on \<Rightarrow> if on then ret True else andthen (usb_reset None) (\<lambda>_. ret False)
          | ControlEnded \<Rightarrow> andthen (usb_reset None) (\<lambda>_. ret False)
          | _ \<Rightarrow> transfer_step ev)" for ev
    by (cases ev) (simp_all add: k keeps_stop keeps_aside aside_intros)
  have "keeps_ctl (if down then andthen (usb_reset None) (\<lambda>_. ret False) else andthen select_event (\<lambda>ev.
          case ev of
            Signal on \<Rightarrow> if on then ret True else andthen (usb_reset None) (\<lambda>_. ret False)
          | ControlEnded \<Rightarrow> andthen (usb_reset None) (\<lambda>_. ret False)
          | _ \<Rightarrow> transfer_step ev))" for down
    using keeps_andthen [OF keeps_aside [OF aside_select] ev] by (simp add: keeps_stop)
  then show ?thesis
    unfolding connected_step_def
    by (intro keeps_andthen k keeps_aside [OF aside_submit] keeps_aside [OF aside_basic(3)])
qed

lemma keeps_connected_turns: "keeps_ctl (connected_turns n)"
proof (induction n)
  case (Suc n)
  then have "keeps_ctl (if on then connected_turns n else ret False)" for on
    by (simp add: keeps_aside aside_intros)
  then show ?case
    by (simp add: keeps_andthen keeps_connected_step)
qed (simp add: keeps_aside aside_intros)

subsection \<open>Properties\<close>

lemma demo_usb_simps [simp]:
  "wr_script demo_usb = []" "sys demo_usb = idle_world" "fsink demo_usb = session_new default_params USB_RECV_BUFFER_SIZE"
  "now demo_usb = 0" "sched demo_usb = (\<lambda>_. drain_round 0)" "download_size demo_usb = 0" "downloaded_size demo_usb = 0"
  "finish_pending demo_usb = False" "pending_fail_reply demo_usb = None" "gadget_torn_down demo_usb = False"
  "submit_script demo_usb = []" "replies demo_usb = []" "bulk demo_usb = []" "rx_queue demo_usb = None"
  "rx_max_packet_size demo_usb = 512" "fastboot_pending_flash demo_usb = False"
  by (simp_all add: demo_usb_def usb_new_def)

lemma demo_usb_inv: "client_inv demo_usb"
  by (simp add: client_inv_def session_new_inv arena_wf_def idle_world_def)

lemma usb_turns_phase:
  assumes "usb_phase i c0 content rest c"
  shows "wp (connected_turns n) (\<lambda>c' r. r = Ok True \<and> usb_phase i c0 content rest c' \<or>
    (\<exists>k<n. \<exists>c1. connected_turns (Suc k) c = Some (c1, Ok True) \<and> usb_over i c0 content rest c1)) c"
  using assms
proof (induction n arbitrary: c)
  case (Suc n)
  show ?case
  proof (rule wpI)
    fix c' r
    assume run: "connected_turns (Suc n) c = Some (c', r)"
    then obtain c1 x where step: "connected_step c = Some (c1, x)"
      by (auto simp: andthen_def split: option.splits)
    have x: "x = Ok True" and c1: "usb_phase i c0 content rest c1 \<or> usb_over i c0 content rest c1"
      using wpD [OF wp_connected_step [OF Suc.prems] step] by auto
    have more: "connected_turns (Suc k) c = connected_turns k c1" for k
      using step x by (simp add: andthen_def)
    show "r = Ok True \<and> usb_phase i c0 content rest c' \<or>
      (\<exists>k<Suc n. \<exists>c1. connected_turns (Suc k) c = Some (c1, Ok True) \<and> usb_over i c0 content rest c1)"
      using c1
    proof
      assume "usb_phase i c0 content rest c1"
      from wpD [OF Suc.IH [OF this] run [unfolded more]]
      consider "r = Ok True \<and> usb_phase i c0 content rest c'"
        | k c2 where "k < n" "connected_turns (Suc k) c1 = Some (c2, Ok True)" "usb_over i c0 content rest c2"
        by blast
      then show ?thesis
        by cases (auto simp: more simp del: connected_turns.simps intro!: exI [of _ "Suc _"])
    next
      assume "usb_over i c0 content rest c1"
      moreover have "connected_turns (Suc 0) c = Some (c1, Ok True)"
        by (simp only: more) (simp add: prog_defs)
      ultimately show ?thesis
        by blast
    qed
  qed
qed simp

text \<open>
  C2. Integrity of a download over USB.  The session feeds transfer \<open>i\<close> and no failure of it has been seen; the host
  sends the announced bytes in bulk transfers of any sizes while the other tasks do anything, failures included.  After
  any number of turns the loop is either still in the data phase, serving and without having replied, or it came to a
  turn at which everything announced and nothing of what follows had been read and exactly one reply was sent.  OKAY
  means that the session still feeds the transfer unless its receiver has gone, and that the transfer has been given
  exactly those bytes, complete and in order, unless it has thrown away what was queued.  FAIL means that SWUpdate ended
  the transfer with a failure, and the session has started over.
\<close>

theorem usb_download_integrity:
  assumes "client_inv c" "\<not> finish_pending c" "\<not> gadget_torn_down c" "wr_script c = []" "submit_script c = []"
    "pending_fail_reply c = None" "download_size c < 2 ^ 64" "download_active c"
    and "bulk c = map Packet ps @ rest" "[] \<notin> set ps" "downloaded_size c + length (concat ps) = download_size c"
    and "tx (fsink c) = Some i" "status (fsink c) = Some i \<or> terminal (fsink c) = Some (Inr ())"
  shows "wp (connected_turns n) (\<lambda>c' r. r = Ok True \<and> download_active c' \<and> replies c' = replies c \<or>
    (\<exists>k<n. \<exists>c1. connected_turns (Suc k) c = Some (c1, Ok True) \<and> bulk c1 = rest \<and> \<not> download_active c1 \<and>
      (replies c1 = replies c @ [OKAY] \<and> (tx (fsink c1) = Some i \<or> \<not> intact (backends (sys c1) ! i)) \<and>
         handed i (sys c) (concat ps) (sys c1) \<or>
       replies c1 = replies c @ [FAIL_EPIPE] \<and> download_size c1 = 0 \<and> failed_at i (sys c1)))) c" (is "wp _ ?Q c")
proof -
  have "usb_phase i c (concat ps) rest c"
    using assms unfolding usb_phase_def usb_chunk_def attached_def by (auto intro!: exI [of _ "[]"] exI [of _ ps])
  from usb_turns_phase [OF this, of n] show ?thesis
  proof (rule wp_mono)
    fix c' r
    have ph: "usb_phase i c (concat ps) rest c' \<Longrightarrow> download_active c' \<and> replies c' = replies c" for c'
      by (simp add: usb_phase_def usb_chunk_def)
    have link: "linked i (sys c) (fsink c)"
      using assms(1,12) by (simp add: linked_def client_inv_def sink_inv_def session_wf_def)
    have ov: "usb_over i c (concat ps) rest c1 \<Longrightarrow> bulk c1 = rest \<and> \<not> download_active c1 \<and>
      (replies c1 = replies c @ [OKAY] \<and> (tx (fsink c1) = Some i \<or> \<not> intact (backends (sys c1) ! i)) \<and>
         handed i (sys c) (concat ps) (sys c1) \<or>
       replies c1 = replies c @ [FAIL_EPIPE] \<and> download_size c1 = 0 \<and> failed_at i (sys c1))" for c1
      using link unfolding usb_over_def grown_def accounts_def linked_def by blast
    assume "r = Ok True \<and> usb_phase i c (concat ps) rest c' \<or>
      (\<exists>k<n. \<exists>c1. connected_turns (Suc k) c = Some (c1, Ok True) \<and> usb_over i c (concat ps) rest c1)"
    then show "?Q c' r"
      using ph ov by metis
  qed
qed

text \<open>
  C10. The transfer state stays consistent.  From any consistent state, after any number of turns of the connected
  loop, whatever the host sends and whatever fails, the session is well formed, a verdict is only awaited when no
  download is active, a failure is only held back during a download, and nothing has panicked.
\<close>

theorem usb_invariant:
  assumes "usb_inv c"
  shows "wp (connected_turns n) (\<lambda>c' r. usb_inv c' \<and> r \<noteq> Panic) c"
proof -
  have "wp (connected_turns n) (\<lambda>c' r. (client_inv c' \<and> r \<noteq> Panic) \<and> ctl_ok c') c"
    by (rule wp_conj) (use assms safe_connected_turns [of n] keeps_connected_turns [of n]
        in \<open>simp_all add: usb_inv_def safe_def keeps_ctl_def\<close>)
  then show ?thesis
    by (rule wp_mono) (simp add: usb_inv_def)
qed

text \<open>
  C16. The connected loop leaves nothing behind.  However it comes to return (the host disables the function, the
  gadget is torn down, the control loop ends, a transfer stalls or fails), no read is queued on the endpoint, the
  update session is a fresh one, and no download, verdict or held-back failure is left over.
\<close>

theorem usb_quiesced:
  assumes "connected_turns n c = Some (c', Ok False)"
  shows "quiesced c'"
  using connected_turns_quiesced [of n] assms by (auto simp: stops_in_def dest: wpD)

text \<open>
  The size of a bulk-OUT read.  Whatever is left of the download, the read is a whole number of packets, as the
  controller requires, never more than 16 KiB, and never less than what is left or 16 KiB, whichever is smaller.
\<close>

theorem usb_recv_capacity_bound:
  assumes "0 < rx_max_packet_size c" "rx_max_packet_size c dvd USB_RECV_BUFFER_SIZE"
  shows "recv_capacity c \<le> USB_RECV_BUFFER_SIZE \<and> rx_max_packet_size c dvd recv_capacity c \<and>
    (download_active c \<longrightarrow> min (remaining_download_bytes c) USB_RECV_BUFFER_SIZE \<le> recv_capacity c)"
proof -
  let ?t = "max 1 (min (remaining_download_bytes c) USB_RECV_BUFFER_SIZE)" and ?m = "rx_max_packet_size c"
  obtain q where q: "USB_RECV_BUFFER_SIZE = ?m * q"
    using assms(2) by (rule dvdE)
  have b: "?t \<le> div_ceil ?t ?m * ?m" "div_ceil ?t ?m * ?m < ?t + ?m"
    using div_ceil_bounds [OF assms(1), of ?t] by simp_all
  moreover have "?t \<le> USB_RECV_BUFFER_SIZE"
    by (simp add: USB_RECV_BUFFER_SIZE_def)
  ultimately have "div_ceil ?t ?m * ?m < (q + 1) * ?m"
    using q by (simp add: mult.commute)
  then have "div_ceil ?t ?m \<le> q"
    using mult_less_cancel2 [of "div_ceil ?t ?m" ?m "q + 1"] by simp
  then have "div_ceil ?t ?m * ?m \<le> USB_RECV_BUFFER_SIZE"
    unfolding q by (simp only: mult.commute [of ?m] mult_le_mono1)
  then show ?thesis
    using b(1) assms by (simp add: recv_capacity_def Let_def max_absorb2)
qed

text \<open>A chunk that reaches the announced size.\<close>

lemma chunk_at_boundary:
  assumes "client_inv c" "wr_script c = []" "pending_fail_reply c = None" "attached i (fsink c)" "data chunk \<noteq> []"
    "download_size c \<le> saturating_add (downloaded_size c) (bm_len chunk)"
  shows "wp (handle_download_chunk chunk) (\<lambda>c' r. r = Ok True \<and> client_inv c' \<and> wr_script c' = [] \<and>
    pending_fail_reply c' = None \<and> attached i (fsink c') \<and> download_size c' = download_size c \<and>
    downloaded_size c' = saturating_add (downloaded_size c) (bm_len chunk) \<and>
    replies c' = replies c @ [OKAY] \<and> grown i c (data chunk) c') c" (is "wp _ ?Q c")
  unfolding handle_download_chunk_def if_not_P [OF assms(5)] wp_steps assms(3) option.case
proof (rule wp_bind [OF wp_feed_chunk [OF assms(1), of chunk i]], elim conjE, goal_cases)
  case (1 c1 outcome)
  note so = sink_only_usb [OF 1(2)]
  let ?c = "c1\<lparr>downloaded_size := saturating_add (downloaded_size c) (bm_len chunk)\<rparr>"
  have over: "at_boundary ?c" and cc: "client_inv ?c" "wr_script ?c = []"
    using assms(2,6) so 1(1) by (simp_all add: at_boundary_def)
  have o: "outcome = Inr ()" and gr: "grown i c (data chunk) c1"
    using 1(3) assms(4) by auto
  have "wp (andthen (send_static OKAY) (\<lambda>_. ret True)) ?Q ?c"
  proof (rule wp_bind [OF wp_send_static [OF cc, of _ i]], elim conjE exE, goal_cases)
    case (1 c2 u c3)
    have "grown i c (data chunk @ []) c2"
      by (rule grown_trans [of _ _ _ ?c]) (use gr 1(3) in \<open>simp_all add: grown_def\<close>)
    moreover from this have "attached i (fsink c2)"
      using assms(4) by (simp add: grown_def)
    ultimately show ?case
      using 1 cc assms(3) so sink_only_usb [OF 1(5)] by simp
  qed auto
  then show ?case
    using o over so by (simp add: count_chunk_def)
qed auto

text \<open>
  C33. A transfer that runs past the announced size.  When a bulk transfer is longer than what is left of the
  download, the bytes past the end are not taken as the next command: once it is handled, all of it has been given to
  SWUpdate, the bytes past the end too, and the host has got two replies for one download.
\<close>

theorem usb_trailing_bytes:
  assumes "client_inv c" "wr_script c = []" "pending_fail_reply c = None" "download_active c"
    "remaining_download_bytes c < bm_len chunk" "downloaded_size c + bm_len chunk < 2 ^ 64"
    and "tx (fsink c) = Some i" "status (fsink c) = Some i \<or> terminal (fsink c) = Some (Inr ())"
  shows "wp (handle_rx_chunk chunk) (\<lambda>c' r. r = Ok True \<and> replies c' = replies c @ [OKAY, OKAY] \<and>
    (tx (fsink c') = Some i \<or> \<not> intact (backends (sys c') ! i)) \<and> handed i (sys c) (data chunk) (sys c')) c"
proof -
  let ?n = "remaining_download_bytes c"
  obtain tr fr where sp: "split_off ?n chunk = (tr, fr)"
    by (cases "split_off ?n chunk")
  have d: "data tr = drop ?n (data chunk)" "data fr = take ?n (data chunk)"
    using data_split(3,4) [of ?n chunk] sp by simp_all
  have len: "bm_len fr = ?n" "bm_len tr = bm_len chunk - ?n" "data fr \<noteq> []" "data tr \<noteq> []" "0 < ?n"
    using assms(4,5) d by (auto simp: bm_len_def remaining_download_bytes_def download_active_def)
  have s1: "saturating_add (downloaded_size c) ?n = download_size c"
    using assms(4-6) by (subst saturating_small) (auto simp: remaining_download_bytes_def download_active_def)
  have att: "attached i (fsink c)" and link: "linked i (sys c) (fsink c)"
    using assms(1,7,8) by (auto simp: attached_def linked_def client_inv_def sink_inv_def session_wf_def)
  have "wp (andthen (handle_download_chunk fr) (\<lambda>on.
               if \<not> on then ret False
               else
                 andthen (query download_active) (\<lambda>active.
                   if active then ret True else handle_download_chunk tr)))
    (\<lambda>c' r. r = Ok True \<and> replies c' = replies c @ [OKAY, OKAY] \<and> grown i c (data fr @ data tr) c') c" (is "wp _ ?Q c")
  proof (rule wp_bind [OF chunk_at_boundary [OF assms(1-3) att len(3)]], goal_cases)
    case 1
    then show ?case
      using s1 len(1) by simp
  next
    case (2 c1 on)
    then have c1: "client_inv c1" "wr_script c1 = []" "pending_fail_reply c1 = None" "attached i (fsink c1)" "on"
      "download_size c1 = download_size c" "downloaded_size c1 = download_size c"
      "replies c1 = replies c @ [OKAY]" "grown i c (data fr) c1"
      using s1 len(1) by auto
    have "wp (handle_download_chunk tr) ?Q c1"
    proof (rule wp_mono [OF chunk_at_boundary [OF c1(1-4) len(4)]])
      show "download_size c1 \<le> saturating_add (downloaded_size c1) (bm_len tr)"
        using c1(6,7) assms(4-6) len(2) by (auto simp: saturating_add_def remaining_download_bytes_def)
    qed (use c1(8) grown_trans [OF c1(9)] in auto)
    then show ?case
      using c1(5-7) by (simp add: download_active_def)
  qed auto
  then have "wp (handle_rx_chunk chunk) ?Q c"
    using assms(4,5) sp by (simp add: handle_rx_chunk_def)
  then show ?thesis
    by (rule wp_mono) (use link d in \<open>auto simp: grown_def accounts_def linked_def\<close>)
qed

lemma demo_download_ready:
  "healthy_client demo_download" "client_inv demo_download" "fed demo_download = Some []" "wr_script demo_download = []"
  "submit_script demo_download = []" "pending_fail_reply demo_download = None" "download_size demo_download = 3"
  "downloaded_size demo_download = 0" "finish_pending demo_download = False" "gadget_torn_down demo_download = False"
  "replies demo_download = []" "bulk demo_download = [Packet [1, 2], Packet [3], Signal True]"
  "rx_max_packet_size demo_download = 512" "sched demo_download = (\<lambda>_. drain_round 0)"
  "tx (fsink demo_download) = Some 0" "status (fsink demo_download) = Some 0"
proof -
  let ?s = "session_new default_params USB_RECV_BUFFER_SIZE"
  obtain w s r where o: "session_open idle_world ?s = (w, s, r)"
    by (metis prod.exhaust)
  have inv: "sink_inv idle_world ?s"
    by (simp add: session_new_inv arena_wf_def idle_world_def)
  have u: "unused idle_world ?s"
    by (simp add: unused_def idle_world_def)
  have f: "sink_inv w s" "feeding w s" "sink_stream w s = Some []"
    using unused_open [OF inv u, of w s r] o by (simp_all add: ensure_open_def)
  then show "healthy_client demo_download" "fed demo_download = Some []"
    by (simp_all add: demo_download_def o healthy_client_def healthy_sink_def fed_def drain_round_def)
  then show "client_inv demo_download"
    by (simp add: healthy_client_inv)
  have "tx s = Some 0" "status s = Some 0"
    using o by (auto simp: session_open_def is_open_def reject_if_restart_pending_def idle_world_def Let_def)
  then show "tx (fsink demo_download) = Some 0" "status (fsink demo_download) = Some 0"
    by (simp_all add: demo_download_def o)
qed (simp_all add: demo_download_def split: prod.split)

theorem usb_download_integrity_witness:
  "wp (connected_turns 2) (\<lambda>c' r. r = Ok True \<and> download_active c' \<and> replies c' = [] \<or>
    (\<exists>k<2. \<exists>c1. connected_turns (Suc k) demo_download = Some (c1, Ok True) \<and> bulk c1 = [Signal True] \<and>
      \<not> download_active c1 \<and>
      (replies c1 = [OKAY] \<and> (tx (fsink c1) = Some 0 \<or> \<not> intact (backends (sys c1) ! 0)) \<and>
         handed 0 (sys demo_download) [1, 2, 3] (sys c1) \<or>
       replies c1 = [FAIL_EPIPE] \<and> download_size c1 = 0 \<and> failed_at 0 (sys c1)))) demo_download"
  using usb_download_integrity [of demo_download "[[1, 2], [3]]" "[Signal True]" 0 2] demo_download_ready
  by (simp add: download_active_def)

theorem usb_invariant_witness:
  "wp (connected_turns 5) (\<lambda>c' r. usb_inv c' \<and> r \<noteq> Panic) demo_download"
  using usb_invariant [of demo_download 5] demo_download_ready by (simp add: usb_inv_def ctl_ok_def)

theorem usb_quiesced_witness:
  "\<exists>c'. connected_turns 1 (demo_usb\<lparr>rx_queue := Some (with_capacity 8), gadget_torn_down := True\<rparr>) =
    Some (c', Ok False) \<and> quiesced c'"
proof -
  let ?c = "demo_usb\<lparr>rx_queue := Some (with_capacity 8), gadget_torn_down := True\<rparr>"
  obtain w s where "abort idle_world (session_new default_params USB_RECV_BUFFER_SIZE) = (w, s)"
    by fastforce
  then obtain c' where "connected_turns 1 ?c = Some (c', Ok False)"
    by (simp add: connected_step_def check_failed_def submit_recv_def usb_reset_def reset_state_def sink_abort_def
        prog_defs download_active_def)
  from usb_quiesced [OF this] this show ?thesis
    by blast
qed

theorem usb_recv_capacity_bound_witness:
  "recv_capacity demo_download \<le> USB_RECV_BUFFER_SIZE \<and> 512 dvd recv_capacity demo_download \<and>
    3 \<le> recv_capacity demo_download"
  using usb_recv_capacity_bound [of demo_download] demo_download_ready
  by (simp add: USB_RECV_BUFFER_SIZE_def download_active_def remaining_download_bytes_def)

theorem usb_trailing_bytes_witness:
  "wp (handle_rx_chunk \<lparr>data = [1, 2, 3, 4], cap = 16\<rparr>) (\<lambda>c' r. r = Ok True \<and> replies c' = [OKAY, OKAY] \<and>
    (tx (fsink c') = Some 0 \<or> \<not> intact (backends (sys c') ! 0)) \<and> handed 0 (sys demo_download) [1, 2, 3, 4] (sys c')) demo_download"
  using usb_trailing_bytes [of demo_download "\<lparr>data = [1, 2, 3, 4], cap = 16\<rparr>" 0] demo_download_ready
  by (simp add: download_active_def remaining_download_bytes_def bm_len_def)

end
