(* ===== verification/Ipc_Wire.thy ===== *)
theory Ipc_Wire
  imports Rust_Str
begin

text \<open>
  The wire format of the SWUpdate IPC interface (\<^verbatim>\<open>swupdate-ipc/src/swupdate_sys.rs\<close>, \<^verbatim>\<open>proto.rs\<close>,
  \<^verbatim>\<open>codec.rs\<close>, \<^verbatim>\<open>error.rs\<close>).

  A C structure is the list of the sizes and alignments of its fields, in the order of the declaration; \<open>offsets\<close>
  and \<open>struct_size\<close> compute the layout on a 64-bit little-endian target.  A control message is its memory image, so
  that the members of the union share their bytes; \<open>field_at\<close> and \<open>put_at\<close> read and write fields.  Padding bytes keep
  what they hold.  The lemmas compute the layouts and give the
  algebra of reading after writing; the properties say what the daemon reads of a request.
\<close>

subsection \<open>C layout\<close>

text \<open>A C structure as the sizes and alignments of its fields; \<open>offsets\<close> places them one after the other.\<close>

type_synonym c_struct = "(nat \<times> nat) list"

definition align_up :: "nat \<Rightarrow> nat \<Rightarrow> nat" where
  "align_up a n = (n + a - 1) div a * a"

fun offsets :: "nat \<Rightarrow> c_struct \<Rightarrow> nat list \<times> nat" where
  "offsets c [] = ([], c)"
| "offsets c ((sz, al) # fs) =
    (let pos = align_up al c; (os, e) = offsets (pos + sz) fs in (pos # os, e))"

definition struct_align :: "c_struct \<Rightarrow> nat" where
  "struct_align fs = foldr max (map snd fs) 1"

definition struct_size :: "c_struct \<Rightarrow> nat" where
  "struct_size fs = align_up (struct_align fs) (snd (offsets 0 fs))"

definition field_off :: "c_struct \<Rightarrow> nat \<Rightarrow> nat" where
  "field_off fs i = fst (offsets 0 fs) ! i"

definition field_size :: "c_struct \<Rightarrow> nat \<Rightarrow> nat" where
  "field_size fs i = fst (fs ! i)"

definition packed :: "c_struct \<Rightarrow> c_struct" where
  "packed fs = map (\<lambda>(sz, _). (sz, 1)) fs"

text \<open>The field types of the frames on a 64-bit target.\<close>

abbreviation (input) "c_int \<equiv> (4 :: nat, 4 :: nat)"
abbreviation (input) "c_ulonglong \<equiv> (8 :: nat, 8 :: nat)"
abbreviation (input) "c_usize \<equiv> (8 :: nat, 8 :: nat)"
abbreviation (input) "c_bool \<equiv> (1 :: nat, 1 :: nat)"
abbreviation (input) "c_chars n \<equiv> (n :: nat, 1 :: nat)"

subsection \<open>Constants and enumerations\<close>

definition PROGRESS_API_MAJOR :: "32 word" where "PROGRESS_API_MAJOR = 2"
definition IPC_MAGIC :: "32 word" where "IPC_MAGIC = 335880193"
definition SWUPDATE_API_VERSION :: "32 word" where "SWUPDATE_API_VERSION = 1"

datatype RecoveryStatus = IDLE | START | RUN | SUCCESS | FAILURE | DOWNLOAD | DONE | SUBPROCESS | PROGRESS

fun recovery_code :: "RecoveryStatus \<Rightarrow> 32 word" where
  "recovery_code IDLE = 0"
| "recovery_code START = 1"
| "recovery_code RUN = 2"
| "recovery_code SUCCESS = 3"
| "recovery_code FAILURE = 4"
| "recovery_code DOWNLOAD = 5"
| "recovery_code DONE = 6"
| "recovery_code SUBPROCESS = 7"
| "recovery_code PROGRESS = 8"

datatype SourceType = SOURCE_UNKNOWN | SOURCE_WEBSERVER | SOURCE_SURICATTA | SOURCE_DOWNLOADER | SOURCE_LOCAL
  | SOURCE_CHUNKS_DOWNLOADER

fun source_code :: "SourceType \<Rightarrow> 32 word" where
  "source_code SOURCE_UNKNOWN = 0"
| "source_code SOURCE_WEBSERVER = 1"
| "source_code SOURCE_SURICATTA = 2"
| "source_code SOURCE_DOWNLOADER = 3"
| "source_code SOURCE_LOCAL = 4"
| "source_code SOURCE_CHUNKS_DOWNLOADER = 5"

datatype MsgType = REQ_INSTALL | ACK | NACK | GET_STATUS | POST_UPDATE | SWUPDATE_SUBPROCESS | SET_AES_KEY
  | SET_UPDATE_STATE | GET_UPDATE_STATE | REQ_INSTALL_EXT | SET_VERSIONS_RANGE | NOTIFY_STREAM | GET_HW_REVISION
  | SET_SWUPDATE_VARS | GET_SWUPDATE_VARS | SET_DELTA_URL

fun msg_code :: "MsgType \<Rightarrow> 32 word" where
  "msg_code REQ_INSTALL = 0"
| "msg_code ACK = 1"
| "msg_code NACK = 2"
| "msg_code GET_STATUS = 3"
| "msg_code POST_UPDATE = 4"
| "msg_code SWUPDATE_SUBPROCESS = 5"
| "msg_code SET_AES_KEY = 6"
| "msg_code SET_UPDATE_STATE = 7"
| "msg_code GET_UPDATE_STATE = 8"
| "msg_code REQ_INSTALL_EXT = 9"
| "msg_code SET_VERSIONS_RANGE = 10"
| "msg_code NOTIFY_STREAM = 11"
| "msg_code GET_HW_REVISION = 12"
| "msg_code SET_SWUPDATE_VARS = 13"
| "msg_code GET_SWUPDATE_VARS = 14"
| "msg_code SET_DELTA_URL = 15"

datatype RunType = RUN_DEFAULT | RUN_DRYRUN | RUN_INSTALL

fun run_code :: "RunType \<Rightarrow> 32 word" where
  "run_code RUN_DEFAULT = 0"
| "run_code RUN_DRYRUN = 1"
| "run_code RUN_INSTALL = 2"

subsection \<open>Structures\<close>

text \<open>The fields in the order of the declarations.\<close>

definition ProgressMsg_fields :: c_struct where
  "ProgressMsg_fields = [c_int, c_int, c_int, c_ulonglong, c_int, c_int, c_int, c_chars 256, c_chars 64, c_int, c_int,
    c_chars 2048]"

definition ProgressConnectAck_fields :: c_struct where
  "ProgressConnectAck_fields = [c_int, c_chars 4]"

definition SwupdateRequest_fields :: c_struct where
  "SwupdateRequest_fields = [c_int, c_int, c_int, c_usize, c_chars 512, c_chars 256, c_chars 256, c_bool]"

definition StatusMsg_fields :: c_struct where
  "StatusMsg_fields = [c_int, c_int, c_int, c_chars 2048]"

definition NotifyMsg_fields :: c_struct where
  "NotifyMsg_fields = [c_int, c_int, c_int, c_chars 2048]"

definition InstallMsg_fields :: c_struct where
  "InstallMsg_fields = [(struct_size SwupdateRequest_fields, struct_align SwupdateRequest_fields), c_int, c_chars 2048]"

definition ProcessMsg_fields :: c_struct where
  "ProcessMsg_fields = [c_int, c_int, c_int, c_int, c_chars 2048]"

definition AesKeyMsg_fields :: c_struct where
  "AesKeyMsg_fields = [c_chars 65, c_chars 33]"

definition VersionsMsg_fields :: c_struct where
  "VersionsMsg_fields = [c_chars 256, c_chars 256, c_chars 256, c_chars 256]"

definition RevisionsMsg_fields :: c_struct where
  "RevisionsMsg_fields = [c_chars 256, c_chars 256]"

definition VariablesMsg_fields :: c_struct where
  "VariablesMsg_fields = [c_chars 256, c_chars 256, c_chars 256]"

definition DownloadUrlMsg_fields :: c_struct where
  "DownloadUrlMsg_fields = [c_chars 256, c_chars 1024]"

text \<open>The union: as long as its longest member, as aligned as its most aligned one.\<close>

definition MsgData_members :: "c_struct list" where
  "MsgData_members = [[c_chars 128], StatusMsg_fields, NotifyMsg_fields, InstallMsg_fields, ProcessMsg_fields,
    AesKeyMsg_fields, VersionsMsg_fields, RevisionsMsg_fields, VariablesMsg_fields, DownloadUrlMsg_fields]"

definition MsgData :: "nat \<times> nat" where
  "MsgData = (let al = foldr max (map struct_align MsgData_members) 1
    in (align_up al (foldr max (map struct_size MsgData_members) 0), al))"

definition IpcMessage_fields :: c_struct where
  "IpcMessage_fields = [c_int, c_int, MsgData]"

definition IPC_MESSAGE_SIZE :: nat where
  "IPC_MESSAGE_SIZE = struct_size IpcMessage_fields"

text \<open>The build chooses between the packed progress frame of newer releases and the older one.\<close>

definition progress_layout :: "bool \<Rightarrow> c_struct" where
  "progress_layout is_packed = (if is_packed then packed ProgressMsg_fields else ProgressMsg_fields)"

definition progress_size :: "bool \<Rightarrow> nat" where
  "progress_size is_packed = struct_size (progress_layout is_packed)"

subsection \<open>Memory\<close>

text \<open>A frame is its memory image; \<open>take n (drop pos m)\<close> is what a field of \<open>n\<close> bytes at \<open>pos\<close> holds.\<close>

definition field_at :: "nat \<Rightarrow> nat \<Rightarrow> bytes \<Rightarrow> bytes" where
  "field_at pos n m = take n (drop pos m)"

definition put_at :: "nat \<Rightarrow> bytes \<Rightarrow> bytes \<Rightarrow> bytes" where
  "put_at pos bs m = take pos m @ bs @ drop (pos + length bs) m"

definition get_u32 :: "nat \<Rightarrow> bytes \<Rightarrow> 32 word" where
  "get_u32 pos m = of_nat (of_le (field_at pos 4 m))"

definition put_u32 :: "nat \<Rightarrow> 32 word \<Rightarrow> bytes \<Rightarrow> bytes" where
  "put_u32 pos x m = put_at pos (le_bytes 4 (unat x)) m"

subsection \<open>Errors\<close>

datatype IpcError =
    Io io_error
  | Nack
  | UnexpectedType "32 word"
  | InvalidMagic "32 word"
  | IncompatibleProgressVersion "32 word"
  | InvalidProgressAck
  | Closed
  | InvalidArgument string
  | Timeout
  | ProgressConnectTimeout
  | InstallFailed

subsection \<open>Frames\<close>

fun is_terminal :: "RecoveryStatus \<Rightarrow> bool" where
  "is_terminal SUCCESS = True"
| "is_terminal FAILURE = True"
| "is_terminal _ = False"

definition decode_recovery_status :: "32 word \<Rightarrow> 32 word + RecoveryStatus" where
  "decode_recovery_status raw =
    (if raw = 0 then Inr IDLE
     else if raw = 1 then Inr START
     else if raw = 2 then Inr RUN
     else if raw = 3 then Inr SUCCESS
     else if raw = 4 then Inr FAILURE
     else if raw = 5 then Inr DOWNLOAD
     else if raw = 6 then Inr DONE
     else if raw = 7 then Inr SUBPROCESS
     else if raw = 8 then Inr PROGRESS
     else Inl raw)"

definition write_c_string :: "bytes \<Rightarrow> bytes \<Rightarrow> IpcError + bytes" where
  "write_c_string dst value =
    (if length value \<ge> length dst then Inl (InvalidArgument ''string does not fit in the fixed C buffer'')
     else Inr (value @ [0] @ drop (Suc (length value)) dst))"

definition read_c_string :: "bytes \<Rightarrow> bytes" where
  "read_c_string src = from_utf8_lossy (takeWhile (\<lambda>b. b \<noteq> 0) src)"

record SwupdateRequest =
  req_apiversion :: "32 word"
  req_source :: SourceType
  req_dry_run :: RunType
  req_len :: "64 word"
  req_info :: bytes
  req_software_set :: bytes
  req_running_mode :: bytes
  req_disable_store_swu :: bool

definition prepare :: SwupdateRequest where
  "prepare = \<lparr>req_apiversion = SWUPDATE_API_VERSION, req_source = SOURCE_UNKNOWN, req_dry_run = RUN_DEFAULT,
     req_len = 0, req_info = replicate 512 0, req_software_set = replicate 256 0, req_running_mode = replicate 256 0,
     req_disable_store_swu = False\<rparr>"

definition set_software_set :: "bytes \<Rightarrow> SwupdateRequest \<Rightarrow> IpcError + SwupdateRequest" where
  "set_software_set value req = map_sum id (\<lambda>d. req\<lparr>req_software_set := d\<rparr>) (write_c_string (req_software_set req) value)"

definition set_running_mode :: "bytes \<Rightarrow> SwupdateRequest \<Rightarrow> IpcError + SwupdateRequest" where
  "set_running_mode value req = map_sum id (\<lambda>d. req\<lparr>req_running_mode := d\<rparr>) (write_c_string (req_running_mode req) value)"

type_synonym IpcMessage = bytes

definition DATA :: nat where
  "DATA = field_off IpcMessage_fields 2"

definition ipc_zeroed :: IpcMessage where
  "ipc_zeroed = replicate IPC_MESSAGE_SIZE 0"

definition ipc_magic :: "IpcMessage \<Rightarrow> 32 word" where
  "ipc_magic m = get_u32 (field_off IpcMessage_fields 0) m"

definition ipc_type :: "IpcMessage \<Rightarrow> 32 word" where
  "ipc_type m = get_u32 (field_off IpcMessage_fields 1) m"

definition ipc_new :: "MsgType \<Rightarrow> IpcMessage" where
  "ipc_new t = put_u32 (field_off IpcMessage_fields 1) (msg_code t) (put_u32 (field_off IpcMessage_fields 0) IPC_MAGIC ipc_zeroed)"

definition has_type :: "MsgType \<Rightarrow> IpcMessage \<Rightarrow> bool" where
  "has_type t m \<longleftrightarrow> ipc_type m = msg_code t"

text \<open>The request is at the start of its union member, which is at the start of the union.\<close>

definition set_install_request :: "SwupdateRequest \<Rightarrow> IpcMessage \<Rightarrow> IpcMessage" where
  "set_install_request req m =
    (let off = (\<lambda>i. DATA + field_off SwupdateRequest_fields i)
     in put_at (off 7) [if req_disable_store_swu req then 1 else 0]
       (put_at (off 6) (req_running_mode req)
       (put_at (off 5) (req_software_set req)
       (put_at (off 4) (req_info req)
       (put_at (off 3) (le_bytes 8 (unat (req_len req)))
       (put_u32 (off 2) (run_code (req_dry_run req))
       (put_u32 (off 1) (source_code (req_source req))
       (put_u32 (off 0) (req_apiversion req) m))))))))"

definition ok_status :: "32 word + RecoveryStatus \<Rightarrow> RecoveryStatus option" where
  "ok_status r = (case r of Inl _ \<Rightarrow> None | Inr s \<Rightarrow> Some s)"

definition install_statuses :: "IpcMessage \<Rightarrow> RecoveryStatus option \<times> RecoveryStatus option" where
  "install_statuses m =
    (ok_status (decode_recovery_status (get_u32 (DATA + field_off StatusMsg_fields 0) m)),
     ok_status (decode_recovery_status (get_u32 (DATA + field_off StatusMsg_fields 1) m)))"

definition install_status_description :: "IpcMessage \<Rightarrow> 32 word \<times> bytes" where
  "install_status_description m =
    (get_u32 (DATA + field_off StatusMsg_fields 0) m,
     read_c_string (field_at (DATA + field_off StatusMsg_fields 3) (field_size StatusMsg_fields 3) m))"

definition set_postupdate_info :: "bytes \<Rightarrow> IpcMessage \<Rightarrow> IpcMessage" where
  "set_postupdate_info info m =
    (let len = min (length info) (field_size ProcessMsg_fields 4)
     in put_u32 (DATA + field_off ProcessMsg_fields 3) (of_nat len)
          (put_at (DATA + field_off ProcessMsg_fields 4) (take len info) m))"

text \<open>A C string written into a field of a union member.\<close>

definition write_field :: "c_struct \<Rightarrow> nat \<Rightarrow> bytes \<Rightarrow> IpcMessage \<Rightarrow> IpcError + IpcMessage" where
  "write_field fs i value m =
    (let pos = DATA + field_off fs i
     in map_sum id (\<lambda>d. put_at pos d m) (write_c_string (field_at pos (field_size fs i) m) value))"

definition set_aes_key :: "bytes \<Rightarrow> bytes \<Rightarrow> IpcMessage \<Rightarrow> IpcError + IpcMessage" where
  "set_aes_key key ivt m =
    (case write_field AesKeyMsg_fields 0 key m of Inl e \<Rightarrow> Inl e | Inr m \<Rightarrow> write_field AesKeyMsg_fields 1 ivt m)"

definition write_optional :: "c_struct \<Rightarrow> nat \<Rightarrow> bytes option \<Rightarrow> IpcMessage \<Rightarrow> IpcError + IpcMessage" where
  "write_optional fs i value m = (case value of None \<Rightarrow> Inr m | Some v \<Rightarrow> write_field fs i v m)"

definition message_set_version_range :: "bytes option \<Rightarrow> bytes option \<Rightarrow> bytes option \<Rightarrow> IpcMessage \<Rightarrow> IpcError + IpcMessage" where
  "message_set_version_range lo hi cur m =
    (case write_optional VersionsMsg_fields 0 lo m of Inl e \<Rightarrow> Inl e | Inr m \<Rightarrow>
      (case write_optional VersionsMsg_fields 1 hi m of Inl e \<Rightarrow> Inl e | Inr m \<Rightarrow>
        write_optional VersionsMsg_fields 2 cur m))"

subsection \<open>Progress frames\<close>

text \<open>The fields of a received frame, read from its bytes.\<close>

record ProgressMsg =
  apiversion :: "32 word"
  pm_status :: "32 word"
  dwl_percent :: "32 word"
  dwl_bytes :: "64 word"
  nsteps :: "32 word"
  cur_step :: "32 word"
  cur_percent :: "32 word"
  cur_image :: bytes
  hnd_name :: bytes
  pm_source :: "32 word"
  infolen :: "32 word"
  pm_info :: bytes

definition progress_of_bytes :: "bool \<Rightarrow> bytes \<Rightarrow> ProgressMsg" where
  "progress_of_bytes pk m =
    (let fs = progress_layout pk; u32 = (\<lambda>i. get_u32 (field_off fs i) m);
         raw = (\<lambda>i. field_at (field_off fs i) (field_size fs i) m)
     in \<lparr>apiversion = u32 0, pm_status = u32 1, dwl_percent = u32 2, dwl_bytes = of_nat (of_le (raw 3)), nsteps = u32 4,
         cur_step = u32 5, cur_percent = u32 6, cur_image = raw 7, hnd_name = raw 8, pm_source = u32 9,
         infolen = u32 10, pm_info = raw 11\<rparr>)"

definition progress_status :: "ProgressMsg \<Rightarrow> 32 word + RecoveryStatus" where
  "progress_status p = decode_recovery_status (pm_status p)"

definition progress_info :: "ProgressMsg \<Rightarrow> bytes" where
  "progress_info p = from_utf8_lossy (take (min (unat (infolen p)) (length (pm_info p))) (pm_info p))"

text \<open>The saturating operations of \<^verbatim>\<open>u32\<close>.\<close>

definition sat_sub :: "32 word \<Rightarrow> 32 word \<Rightarrow> 32 word" where
  "sat_sub a b = (if b \<le> a then a - b else 0)"

definition sat_add :: "32 word \<Rightarrow> 32 word \<Rightarrow> 32 word" where
  "sat_add a b = (if unat a + unat b < 2 ^ 32 then a + b else - 1)"

definition sat_mul :: "32 word \<Rightarrow> 32 word \<Rightarrow> 32 word" where
  "sat_mul a b = (if unat a * unat b < 2 ^ 32 then a * b else - 1)"

definition overall_percent :: "ProgressMsg \<Rightarrow> 32 word" where
  "overall_percent p =
    (if pm_status p = recovery_code SUCCESS then 100
     else if 0 < nsteps p \<and> 0 < cur_step p then
       (let completed = min (sat_sub (cur_step p) 1) (nsteps p);
            total = sat_add (sat_mul completed 100) (min (cur_percent p) 100)
        in min (total div nsteps p) 99)
     else min (max (cur_percent p) (dwl_percent p)) 99)"

record ProgressConnectAck =
  ack_apiversion :: "32 word"
  ack_magic :: bytes

definition PROGRESS_CONNECT_ACK_MAGIC :: bytes where
  "PROGRESS_CONNECT_ACK_MAGIC = ascii ''ACK''"

definition ack_of_bytes :: "bytes \<Rightarrow> ProgressConnectAck" where
  "ack_of_bytes m = \<lparr>ack_apiversion = get_u32 (field_off ProgressConnectAck_fields 0) m,
     ack_magic = field_at (field_off ProgressConnectAck_fields 1) (field_size ProgressConnectAck_fields 1) m\<rparr>"

definition is_major_compatible :: "ProgressConnectAck \<Rightarrow> bool" where
  "is_major_compatible a \<longleftrightarrow> drop_bit 16 (ack_apiversion a) AND 0xFFFF = PROGRESS_API_MAJOR"

definition has_valid_magic :: "ProgressConnectAck \<Rightarrow> bool" where
  "has_valid_magic a \<longleftrightarrow> takeWhile (\<lambda>b. b \<noteq> 0) (ack_magic a) = PROGRESS_CONNECT_ACK_MAGIC"

subsection \<open>The native request\<close>

datatype InstallSource = Unknown | Webserver | Suricatta | Downloader | Local | ChunksDownloader

fun source_type :: "InstallSource \<Rightarrow> SourceType" where
  "source_type Unknown = SOURCE_UNKNOWN"
| "source_type Webserver = SOURCE_WEBSERVER"
| "source_type Suricatta = SOURCE_SURICATTA"
| "source_type Downloader = SOURCE_DOWNLOADER"
| "source_type Local = SOURCE_LOCAL"
| "source_type ChunksDownloader = SOURCE_CHUNKS_DOWNLOADER"

datatype InstallMode = Default | DryRun | Install

fun run_type :: "InstallMode \<Rightarrow> RunType" where
  "run_type Default = RUN_DEFAULT"
| "run_type DryRun = RUN_DRYRUN"
| "run_type Install = RUN_INSTALL"

record InstallRequest =
  ir_software_set :: bytes
  ir_running_mode :: bytes
  ir_source :: InstallSource
  ir_mode :: InstallMode
  ir_disable_store_swu :: bool

definition request_try_from :: "InstallRequest \<Rightarrow> IpcError + SwupdateRequest" where
  "request_try_from r =
    (let raw = prepare\<lparr>req_source := source_type (ir_source r), req_dry_run := run_type (ir_mode r),
                 req_disable_store_swu := ir_disable_store_swu r\<rparr>
     in case set_software_set (ir_software_set r) raw of
          Inl e \<Rightarrow> Inl e
        | Inr raw \<Rightarrow> set_running_mode (ir_running_mode r) raw)"

definition encode :: "InstallRequest \<Rightarrow> IpcError + IpcMessage" where
  "encode r = map_sum id (\<lambda>raw. set_install_request raw (ipc_new REQ_INSTALL)) (request_try_from r)"

record InstallStatus =
  st_current :: "RecoveryStatus option"
  st_last_result :: "RecoveryStatus option"
  st_description :: bytes

definition decode_status :: "IpcMessage \<Rightarrow> InstallStatus" where
  "decode_status m =
    \<lparr>st_current = fst (install_statuses m), st_last_result = snd (install_statuses m),
     st_description = snd (install_status_description m)\<rparr>"

subsection \<open>Notions for the properties\<close>

text \<open>The request as the daemon reads it: the fields at their offsets, the strings up to their NUL.\<close>

definition daemon_request :: "IpcMessage \<Rightarrow> 32 word \<times> 32 word \<times> 32 word \<times> bytes \<times> bytes \<times> bool" where
  "daemon_request m =
    (let off = (\<lambda>i. DATA + field_off SwupdateRequest_fields i);
         str = (\<lambda>i. takeWhile (\<lambda>b. b \<noteq> 0) (field_at (off i) (field_size SwupdateRequest_fields i) m))
     in (get_u32 (off 0) m, get_u32 (off 1) m, get_u32 (off 2) m, str 5, str 6, field_at (off 7) 1 m \<noteq> [0]))"

subsection \<open>Layout\<close>

lemma offsets_of:
  "offsets 0 SwupdateRequest_fields = ([0, 4, 8, 16, 24, 536, 792, 1048], 1049)"
  "offsets 0 StatusMsg_fields = ([0, 4, 8, 12], 2060)"
  "offsets 0 NotifyMsg_fields = ([0, 4, 8, 12], 2060)"
  "offsets 0 ProcessMsg_fields = ([0, 4, 8, 12, 16], 2064)"
  "offsets 0 AesKeyMsg_fields = ([0, 65], 98)"
  "offsets 0 VersionsMsg_fields = ([0, 256, 512, 768], 1024)"
  "offsets 0 RevisionsMsg_fields = ([0, 256], 512)"
  "offsets 0 VariablesMsg_fields = ([0, 256, 512], 768)"
  "offsets 0 DownloadUrlMsg_fields = ([0, 256], 1280)"
  "offsets 0 ProgressConnectAck_fields = ([0, 4], 8)"
  "offsets 0 ProgressMsg_fields = ([0, 4, 8, 16, 24, 28, 32, 36, 292, 356, 360, 364], 2412)"
  "offsets 0 (packed ProgressMsg_fields) = ([0, 4, 8, 12, 20, 24, 28, 32, 288, 352, 356, 360], 2408)"
  by (simp_all add: align_up_def packed_def SwupdateRequest_fields_def StatusMsg_fields_def NotifyMsg_fields_def
      ProcessMsg_fields_def AesKeyMsg_fields_def VersionsMsg_fields_def RevisionsMsg_fields_def
      VariablesMsg_fields_def DownloadUrlMsg_fields_def ProgressConnectAck_fields_def ProgressMsg_fields_def)

lemma aligns_of:
  "struct_align SwupdateRequest_fields = 8" "struct_align StatusMsg_fields = 4" "struct_align NotifyMsg_fields = 4"
  "struct_align ProcessMsg_fields = 4" "struct_align AesKeyMsg_fields = 1" "struct_align VersionsMsg_fields = 1"
  "struct_align RevisionsMsg_fields = 1" "struct_align VariablesMsg_fields = 1" "struct_align DownloadUrlMsg_fields = 1"
  "struct_align ProgressConnectAck_fields = 4" "struct_align ProgressMsg_fields = 8" "struct_align (packed ProgressMsg_fields) = 1"
  by (simp_all add: struct_align_def packed_def SwupdateRequest_fields_def StatusMsg_fields_def NotifyMsg_fields_def
      ProcessMsg_fields_def AesKeyMsg_fields_def VersionsMsg_fields_def RevisionsMsg_fields_def
      VariablesMsg_fields_def DownloadUrlMsg_fields_def ProgressConnectAck_fields_def ProgressMsg_fields_def)

lemma request_size: "struct_size SwupdateRequest_fields = 1056"
  by (simp add: struct_size_def offsets_of aligns_of align_up_def)

lemma install_fields: "InstallMsg_fields = [(1056, 8), c_int, c_chars 2048]"
  by (simp add: InstallMsg_fields_def request_size aligns_of)

lemma install_layout: "offsets 0 InstallMsg_fields = ([0, 1056, 1060], 3108)" "struct_align InstallMsg_fields = 8"
  by (simp_all add: install_fields struct_align_def align_up_def)

lemma data_layout: "MsgData = (3112, 8)"
  by (simp add: MsgData_def MsgData_members_def Let_def struct_size_def offsets_of aligns_of install_layout align_up_def)
    (simp add: struct_align_def)

lemma message_offsets: "offsets 0 IpcMessage_fields = ([0, 4, 8], 3120)" "struct_align IpcMessage_fields = 8"
  by (simp_all add: IpcMessage_fields_def data_layout align_up_def struct_align_def)

lemma message_layout [simp]:
  "IPC_MESSAGE_SIZE = 3120" "DATA = 8" "field_off IpcMessage_fields 0 = 0" "field_off IpcMessage_fields (Suc 0) = 4"
  by (simp_all add: IPC_MESSAGE_SIZE_def DATA_def struct_size_def field_off_def message_offsets align_up_def)

lemma request_layout [simp]:
  "field_off SwupdateRequest_fields 0 = 0" "field_off SwupdateRequest_fields (Suc 0) = 4"
  "field_off SwupdateRequest_fields 2 = 8" "field_off SwupdateRequest_fields 3 = 16"
  "field_off SwupdateRequest_fields 4 = 24" "field_off SwupdateRequest_fields 5 = 536"
  "field_off SwupdateRequest_fields 6 = 792" "field_off SwupdateRequest_fields 7 = 1048"
  "field_size SwupdateRequest_fields 5 = 256" "field_size SwupdateRequest_fields 6 = 256"
  by (simp_all add: field_off_def offsets_of) (simp_all add: field_size_def SwupdateRequest_fields_def)

lemma other_layouts [simp]:
  "field_off StatusMsg_fields 0 = 0" "field_off StatusMsg_fields (Suc 0) = 4" "field_off StatusMsg_fields 3 = 12"
  "field_size StatusMsg_fields 3 = 2048"
  "field_off ProcessMsg_fields 3 = 12" "field_off ProcessMsg_fields 4 = 16" "field_size ProcessMsg_fields 4 = 2048"
  "field_off AesKeyMsg_fields 0 = 0" "field_off AesKeyMsg_fields (Suc 0) = 65"
  "field_size AesKeyMsg_fields 0 = 65" "field_size AesKeyMsg_fields (Suc 0) = 33"
  "field_off ProgressConnectAck_fields 0 = 0" "field_off ProgressConnectAck_fields (Suc 0) = 4"
  "field_size ProgressConnectAck_fields (Suc 0) = 4"
  by (simp_all add: field_off_def offsets_of)
    (simp_all add: field_size_def StatusMsg_fields_def ProcessMsg_fields_def AesKeyMsg_fields_def ProgressConnectAck_fields_def)

lemma progress_sizes: "progress_size True = 2408" "progress_size False = 2416" "struct_size ProgressConnectAck_fields = 8"
  by (simp_all add: progress_size_def progress_layout_def struct_size_def offsets_of aligns_of align_up_def)

lemma progress_status_at [simp]: "field_off (progress_layout pk) (Suc 0) = 4"
  by (simp add: progress_layout_def field_off_def offsets_of)

subsection \<open>Memory\<close>

lemma length_put_at [simp]: "pos + length bs \<le> length m \<Longrightarrow> length (put_at pos bs m) = length m"
  by (simp add: put_at_def)

lemma length_put_u32 [simp]: "pos + 4 \<le> length m \<Longrightarrow> length (put_u32 pos x m) = length m"
  by (simp add: put_u32_def)

lemma field_put_same [simp]: "pos + n \<le> length m \<Longrightarrow> n = length bs \<Longrightarrow> field_at pos n (put_at pos bs m) = bs"
  by (simp add: field_at_def put_at_def)

lemma field_put_before [simp]:
  "pos + n \<le> q \<Longrightarrow> q + length bs \<le> length m \<Longrightarrow> field_at pos n (put_at q bs m) = field_at pos n m"
  unfolding field_at_def put_at_def take_drop by simp

lemma field_put_after [simp]:
  "q + length bs \<le> pos \<Longrightarrow> q + length bs \<le> length m \<Longrightarrow> field_at pos n (put_at q bs m) = field_at pos n m"
  by (simp add: field_at_def put_at_def)

lemma field_put_u32 [simp]:
  "pos + n \<le> q \<Longrightarrow> q + 4 \<le> length m \<Longrightarrow> field_at pos n (put_u32 q x m) = field_at pos n m"
  "q + 4 \<le> pos \<Longrightarrow> q + 4 \<le> length m \<Longrightarrow> field_at pos n (put_u32 q x m) = field_at pos n m"
  by (simp_all add: put_u32_def)

lemma get_put_u32 [simp]: "pos + 4 \<le> length m \<Longrightarrow> get_u32 pos (put_u32 pos x m) = x"
  using unsigned_less [of x, where 'a = nat]
  by (simp add: get_u32_def put_u32_def of_le_le_bytes del: le_bytes_numeral)

lemma get_u32_put [simp]:
  "pos + 4 \<le> q \<Longrightarrow> q + length bs \<le> length m \<Longrightarrow> get_u32 pos (put_at q bs m) = get_u32 pos m"
  "q + length bs \<le> pos \<Longrightarrow> q + length bs \<le> length m \<Longrightarrow> get_u32 pos (put_at q bs m) = get_u32 pos m"
  "pos + 4 \<le> q \<Longrightarrow> q + 4 \<le> length m \<Longrightarrow> get_u32 pos (put_u32 q x m) = get_u32 pos m"
  "q + 4 \<le> pos \<Longrightarrow> q + 4 \<le> length m \<Longrightarrow> get_u32 pos (put_u32 q x m) = get_u32 pos m"
  by (simp_all add: get_u32_def)

lemma message_new [simp]:
  "length (ipc_new t) = 3120" "ipc_magic (ipc_new t) = IPC_MAGIC" "ipc_type (ipc_new t) = msg_code t"
  by (simp_all add: ipc_new_def ipc_zeroed_def ipc_magic_def ipc_type_def)

subsection \<open>Strings\<close>

lemma write_c_string_Inr:
  assumes "write_c_string dst v = Inr d"
  shows "length d = length dst" "0 \<notin> set v \<Longrightarrow> takeWhile (\<lambda>b. b \<noteq> 0) d = v"
proof -
  have l: "length v < length dst" and d: "d = v @ [0] @ drop (Suc (length v)) dst"
    using assms by (auto simp: write_c_string_def split: if_splits)
  show "length d = length dst"
    using l d by simp
  show "takeWhile (\<lambda>b. b \<noteq> 0) d = v" if "0 \<notin> set v"
    unfolding d using that by (subst takeWhile_append2) auto
qed

lemma write_c_string_fails: "(\<exists>e. write_c_string dst v = Inl e) \<longleftrightarrow> length dst \<le> length v"
  by (simp add: write_c_string_def)

lemma request_try_from_Inr:
  assumes "request_try_from r = Inr raw"
  shows "req_apiversion raw = SWUPDATE_API_VERSION" "req_source raw = source_type (ir_source r)"
    "req_dry_run raw = run_type (ir_mode r)" "req_disable_store_swu raw = ir_disable_store_swu r"
    "length (req_info raw) = 512" "length (req_software_set raw) = 256" "length (req_running_mode raw) = 256"
    "0 \<notin> set (ir_software_set r) \<Longrightarrow> takeWhile (\<lambda>b. b \<noteq> 0) (req_software_set raw) = ir_software_set r"
    "0 \<notin> set (ir_running_mode r) \<Longrightarrow> takeWhile (\<lambda>b. b \<noteq> 0) (req_running_mode raw) = ir_running_mode r"
proof -
  obtain d1 d2 where d: "write_c_string (replicate 256 0) (ir_software_set r) = Inr d1"
    "write_c_string (replicate 256 0) (ir_running_mode r) = Inr d2"
    and raw: "raw = prepare\<lparr>req_source := source_type (ir_source r), req_dry_run := run_type (ir_mode r),
      req_disable_store_swu := ir_disable_store_swu r, req_software_set := d1, req_running_mode := d2\<rparr>"
    using assms
    by (cases "write_c_string (replicate 256 0) (ir_software_set r)";
        cases "write_c_string (replicate 256 0) (ir_running_mode r)")
      (auto simp: request_try_from_def Let_def set_software_set_def set_running_mode_def prepare_def)
  note w = write_c_string_Inr [OF d(1)] write_c_string_Inr [OF d(2)]
  show "req_apiversion raw = SWUPDATE_API_VERSION" "req_source raw = source_type (ir_source r)"
    "req_dry_run raw = run_type (ir_mode r)" "req_disable_store_swu raw = ir_disable_store_swu r"
    "length (req_info raw) = 512" "length (req_software_set raw) = 256" "length (req_running_mode raw) = 256"
    using w by (simp_all add: raw prepare_def)
  show "0 \<notin> set (ir_software_set r) \<Longrightarrow> takeWhile (\<lambda>b. b \<noteq> 0) (req_software_set raw) = ir_software_set r"
    "0 \<notin> set (ir_running_mode r) \<Longrightarrow> takeWhile (\<lambda>b. b \<noteq> 0) (req_running_mode raw) = ir_running_mode r"
    using w by (simp_all add: raw)
qed

subsection \<open>Requests\<close>

lemma set_install_request_length: 
  assumes "length m = 3120" "length (req_info raw) = 512" "length (req_software_set raw) = 256" "length (req_running_mode raw) = 256"
  shows "length (set_install_request raw m) = 3120"
  using assms by (simp add: set_install_request_def Let_def)

lemma set_install_request_reads:
  assumes "length m = 3120" "length (req_info raw) = 512" "length (req_software_set raw) = 256" "length (req_running_mode raw) = 256"
  shows "ipc_magic (set_install_request raw m) = ipc_magic m" "ipc_type (set_install_request raw m) = ipc_type m"
    "daemon_request (set_install_request raw m) =
      (req_apiversion raw, source_code (req_source raw), run_code (req_dry_run raw),
       takeWhile (\<lambda>b. b \<noteq> 0) (req_software_set raw), takeWhile (\<lambda>b. b \<noteq> 0) (req_running_mode raw),
       req_disable_store_swu raw)"
  using assms by (simp_all add: set_install_request_def daemon_request_def ipc_magic_def ipc_type_def Let_def del: le_bytes_numeral)

lemma encode_Inr:
  assumes "encode r = Inr m"
  shows "length m = 3120" "ipc_magic m = IPC_MAGIC" "has_type REQ_INSTALL m"
    "0 \<notin> set (ir_software_set r) \<Longrightarrow> 0 \<notin> set (ir_running_mode r) \<Longrightarrow> daemon_request m =
      (SWUPDATE_API_VERSION, source_code (source_type (ir_source r)), run_code (run_type (ir_mode r)),
       ir_software_set r, ir_running_mode r, ir_disable_store_swu r)"
proof -
  obtain raw where raw: "request_try_from r = Inr raw" "m = set_install_request raw (ipc_new REQ_INSTALL)"
    using assms by (cases "request_try_from r") (auto simp: encode_def)
  note f = request_try_from_Inr [OF raw(1)]
  note g = set_install_request_reads [OF message_new(1) f(5-7), folded raw(2)]
  show "length m = 3120"
    unfolding raw(2) by (rule set_install_request_length [OF message_new(1) f(5-7)])
  show "ipc_magic m = IPC_MAGIC" "has_type REQ_INSTALL m"
    using g(1,2) raw(2) by (simp_all add: has_type_def)
  show "daemon_request m = (SWUPDATE_API_VERSION, source_code (source_type (ir_source r)), run_code (run_type (ir_mode r)),
       ir_software_set r, ir_running_mode r, ir_disable_store_swu r)"
    if "0 \<notin> set (ir_software_set r)" "0 \<notin> set (ir_running_mode r)"
    using g(3) f that raw(2) by simp
qed

lemma encode_Inl: "(\<exists>e. encode r = Inl e) \<longleftrightarrow> 256 \<le> length (ir_software_set r) \<or> 256 \<le> length (ir_running_mode r)"
  by (auto simp: encode_def request_try_from_def Let_def set_software_set_def set_running_mode_def prepare_def write_c_string_def)


text \<open>
  C27. An install request reaches the daemon as it was made.  A request is refused exactly when one of its two
  strings does not fit its buffer with the terminator.  Otherwise the message is an install request with the magic
  number, and the daemon reads from it the interface version, the source, the mode, both strings and the flag that
  the request had, provided that the strings hold no NUL byte.
\<close>

theorem ipc_install_roundtrip:
  "case encode r of
     Inl _ \<Rightarrow> 256 \<le> length (ir_software_set r) \<or> 256 \<le> length (ir_running_mode r)
   | Inr m \<Rightarrow> length (ir_software_set r) < 256 \<and> length (ir_running_mode r) < 256 \<and>
       ipc_magic m = IPC_MAGIC \<and> has_type REQ_INSTALL m \<and>
       (0 \<in> set (ir_software_set r @ ir_running_mode r) \<or>
        daemon_request m = (SWUPDATE_API_VERSION, source_code (source_type (ir_source r)), run_code (run_type (ir_mode r)),
          ir_software_set r, ir_running_mode r, ir_disable_store_swu r))"
proof (cases "encode r")
  case (Inl e)
  then show ?thesis
    using encode_Inl [of r] by auto
next
  case (Inr m)
  then have "length (ir_software_set r) < 256" "length (ir_running_mode r) < 256"
    using encode_Inl [of r] by auto
  then show ?thesis
    using Inr encode_Inr [OF Inr] by auto
qed

text \<open>
  The overall percentage is a percentage: it is never more than 100, and it is 100 exactly when the daemon
  reports success, whatever the counters of the frame hold.
\<close>

theorem progress_percent_bounded:
  "overall_percent p \<le> 100 \<and> (overall_percent p = 100 \<longleftrightarrow> pm_status p = recovery_code SUCCESS)"
proof -
  have "min x 99 \<le> 100 \<and> min x 99 \<noteq> 100" for x :: "32 word"
    by (simp add: min_def word_le_nat_alt) (auto simp: word_le_nat_alt)
  then show ?thesis
    by (simp add: overall_percent_def Let_def)
qed

end
