(* ===== verification/Ipc_Client.thy ===== *)
theory Ipc_Client
  imports Ipc_Wire Swupdate_Session
begin

text \<open>
  The asynchronous SWUpdate IPC client (\<^verbatim>\<open>swupdate-ipc/src/async_io.rs\<close>): requests on the control socket and the
  connection to the progress socket.

  The daemon is a list of connection attempts to come; a stream is a list of events with the milliseconds between
  them, silent after the last one.  The clock advances by these delays, by sleeps and by timeouts.  A read that never
  ends is None.  The status loop takes a bound on its turns; one more than there are attempts is enough, since every
  turn uses one up (\<open>await_install_returns\<close>).
\<close>

subsection \<open>Sockets and time\<close>

text \<open>
  What arrives on a stream, each with the milliseconds since the event before it; after the last one the stream
  is silent for good.
\<close>

datatype flow_event = Bytes bytes | Eof | Failed io_error

type_synonym flow = "(nat \<times> flow_event) list"

text \<open>The outcome of a connection attempt: an error, or a stream (whose writes may fail).\<close>

datatype dial = Refused io_error | Accepted "io_error option" flow

text \<open>
  The daemon as the client sees it: the clock, the outcomes of the connection attempts to come with the time they
  take, and the messages written to it.  When the attempts are used up the socket is gone.
\<close>

record ipc_world =
  clock :: nat
  attempts :: "(nat \<times> dial) list"
  sent :: "bytes list"

abbreviation (input) "ENOENT \<equiv> (2 :: nat)"

definition PROGRESS_ACK_TIMEOUT :: nat where "PROGRESS_ACK_TIMEOUT = 5000"
definition PROGRESS_RECONNECT_DELAY :: nat where "PROGRESS_RECONNECT_DELAY = 500"
definition PROGRESS_CONNECT_TIMEOUT :: nat where "PROGRESS_CONNECT_TIMEOUT = 5000"
definition STATUS_POLL_INTERVAL :: nat where "STATUS_POLL_INTERVAL = 250"

definition connect_ctrl :: "ipc_world \<Rightarrow> ipc_world \<times> (IpcError + (io_error option \<times> flow))" where
  "connect_ctrl w =
    (case attempts w of
       [] \<Rightarrow> (w, Inl (Io (Os ENOENT)))
     | (d, Refused e) # as \<Rightarrow> (w\<lparr>clock := clock w + d, attempts := as\<rparr>, Inl (Io e))
     | (d, Accepted wr f) # as \<Rightarrow> (w\<lparr>clock := clock w + d, attempts := as\<rparr>, Inr (wr, f)))"

definition write_message :: "io_error option \<Rightarrow> IpcMessage \<Rightarrow> ipc_world \<Rightarrow> ipc_world \<times> (IpcError + unit)" where
  "write_message wr m w =
    (case wr of Some e \<Rightarrow> (w, Inl (Io e)) | None \<Rightarrow> (w\<lparr>sent := sent w @ [m]\<rparr>, Inr ()))"

text \<open>
  \<open>read_exact\<close> of \<open>n\<close> bytes from a stream at time \<open>t\<close>: when it ends, the rest of the stream, and the result;
  None when it never ends.
\<close>

fun ipc_read_exact :: "nat \<Rightarrow> nat \<Rightarrow> flow \<Rightarrow> (nat \<times> flow \<times> (IpcError + bytes)) option" where
  "ipc_read_exact 0 t f = Some (t, f, Inr [])"
| "ipc_read_exact n t [] = None"
| "ipc_read_exact n t ((d, Bytes bs) # f) =
    (if length bs \<le> n
     then map_option (\<lambda>(t, f, r). (t, f, map_sum id ((@) bs) r)) (ipc_read_exact (n - length bs) (t + d) f)
     else Some (t + d, (0, Bytes (drop n bs)) # f, Inr (take n bs)))"
| "ipc_read_exact n t ((d, Eof) # f) = Some (t + d, (0, Eof) # f, Inl Closed)"
| "ipc_read_exact n t ((d, Failed e) # f) = Some (t + d, f, Inl (if kind e = UnexpectedEof then Closed else Io e))"

definition read_message :: "flow \<Rightarrow> ipc_world \<Rightarrow> (ipc_world \<times> flow \<times> (IpcError + IpcMessage)) option" where
  "read_message f w = map_option (\<lambda>(t, f, r). (w\<lparr>clock := t\<rparr>, f, r)) (ipc_read_exact IPC_MESSAGE_SIZE (clock w) f)"

subsection \<open>The control socket\<close>

text \<open>
  One exchange: connect, write the message, read the reply, with the rest of the stream.  None when the daemon
  never answers.
\<close>

definition exchange :: "IpcMessage \<Rightarrow> ipc_world \<Rightarrow> (ipc_world \<times> (IpcError + (IpcMessage \<times> flow))) option" where
  "exchange m w =
    (case connect_ctrl w of
       (w, Inl e) \<Rightarrow> Some (w, Inl e)
     | (w, Inr (wr, f)) \<Rightarrow>
        (case write_message wr m w of
           (w, Inl e) \<Rightarrow> Some (w, Inl e)
         | (w, Inr _) \<Rightarrow> map_option (\<lambda>(w, f, r). (w, map_sum id (\<lambda>reply. (reply, f)) r)) (read_message f w)))"

text \<open>An install starts when the daemon acknowledges the request; the image is then written to the stream.\<close>

definition started :: "ipc_world \<times> (IpcError + (IpcMessage \<times> flow)) \<Rightarrow> ipc_world \<times> (IpcError + flow)" where
  "started x =
    (case x of
       (w, Inl e) \<Rightarrow> (w, Inl e)
     | (w, Inr (reply, f)) \<Rightarrow> (w, if has_type ACK reply then Inr f else Inl Nack))"

definition inst_start_ext :: "SwupdateRequest \<Rightarrow> ipc_world \<Rightarrow> (ipc_world \<times> (IpcError + flow)) option" where
  "inst_start_ext req w = map_option started (exchange (set_install_request req (ipc_new REQ_INSTALL)) w)"

definition inst_start_request :: "InstallRequest \<Rightarrow> ipc_world \<Rightarrow> (ipc_world \<times> (IpcError + flow)) option" where
  "inst_start_request request w =
    (case encode request of Inl e \<Rightarrow> Some (w, Inl e) | Inr m \<Rightarrow> map_option started (exchange m w))"

definition inst_start :: "ipc_world \<Rightarrow> (ipc_world \<times> (IpcError + flow)) option" where
  "inst_start = inst_start_ext prepare"

definition reply_of :: "ipc_world \<times> (IpcError + (IpcMessage \<times> flow)) \<Rightarrow> ipc_world \<times> (IpcError + IpcMessage)" where
  "reply_of x = (fst x, map_sum id fst (snd x))"

definition ipc_get_status :: "ipc_world \<Rightarrow> (ipc_world \<times> (IpcError + IpcMessage)) option" where
  "ipc_get_status w = map_option reply_of (exchange (ipc_new GET_STATUS) w)"

text \<open>A reply that comes within the time is returned; otherwise the time passes.\<close>

definition get_status_timeout :: "nat \<Rightarrow> ipc_world \<Rightarrow> ipc_world \<times> (IpcError + IpcMessage option)" where
  "get_status_timeout duration w =
    (case connect_ctrl w of
       (w, Inl e) \<Rightarrow> (w, Inl e)
     | (w, Inr (wr, f)) \<Rightarrow>
        (case write_message wr (ipc_new GET_STATUS) w of
           (w, Inl e) \<Rightarrow> (w, Inl e)
         | (w, Inr _) \<Rightarrow>
            (case read_message f w of
               Some (w', _, r) \<Rightarrow>
                 if clock w' \<le> clock w + duration then (w', map_sum id Some r)
                 else (w\<lparr>clock := clock w + duration\<rparr>, Inr None)
             | None \<Rightarrow> (w\<lparr>clock := clock w + duration\<rparr>, Inr None))))"

definition get_status_values_timeout ::
    "nat \<Rightarrow> ipc_world \<Rightarrow> ipc_world \<times> (IpcError + (RecoveryStatus option \<times> RecoveryStatus option) option)" where
  "get_status_values_timeout duration w =
    (case get_status_timeout duration w of (w, r) \<Rightarrow> (w, map_sum id (map_option install_statuses) r))"

definition ipc_sleep :: "nat \<Rightarrow> ipc_world \<Rightarrow> ipc_world" where
  "ipc_sleep d w = w\<lparr>clock := clock w + d\<rparr>"

text \<open>
  The polling loop, given a bound on its turns; the second component of the result are the status replies seen.
  Every turn uses up a connection attempt, so one turn more than there are attempts is enough.
\<close>

fun await_install_loop :: "nat \<Rightarrow> nat \<Rightarrow> ipc_world \<Rightarrow> (ipc_world \<times> IpcMessage list \<times> (IpcError + unit)) option" where
  "await_install_loop 0 deadline w = None"
| "await_install_loop (Suc n) deadline w =
    (if clock w \<ge> deadline then Some (w, [], Inl Timeout)
     else case get_status_timeout STATUS_POLL_INTERVAL w of
       (w, Inr (Some msg)) \<Rightarrow>
         (let status = decode_status msg
          in if st_last_result status = Some FAILURE then Some (w, [msg], Inl InstallFailed)
             else if st_current status = Some RUN \<and> st_last_result status = Some SUCCESS then Some (w, [msg], Inr ())
             else map_option (\<lambda>(w, ms, r). (w, msg # ms, r)) (await_install_loop n deadline w))
     | (w, Inr None) \<Rightarrow> await_install_loop n deadline (ipc_sleep STATUS_POLL_INTERVAL w)
     | (w, Inl Closed) \<Rightarrow> await_install_loop n deadline (ipc_sleep STATUS_POLL_INTERVAL w)
     | (w, Inl err) \<Rightarrow> Some (w, [], Inl err))"

definition await_install_result :: "nat \<Rightarrow> ipc_world \<Rightarrow> (ipc_world \<times> IpcMessage list \<times> (IpcError + unit)) option" where
  "await_install_result duration w = await_install_loop (Suc (length (attempts w))) (clock w + duration) w"

definition postupdate :: "bytes \<Rightarrow> ipc_world \<Rightarrow> (ipc_world \<times> (IpcError + IpcMessage)) option" where
  "postupdate info w = map_option reply_of (exchange (set_postupdate_info info (ipc_new POST_UPDATE)) w)"

definition send_cmd :: "IpcMessage \<Rightarrow> ipc_world \<Rightarrow> (ipc_world \<times> (IpcError + IpcMessage)) option" where
  "send_cmd m w = map_option reply_of (exchange (put_u32 (field_off IpcMessage_fields 0) IPC_MAGIC m) w)"

definition set_aes :: "bytes \<Rightarrow> bytes \<Rightarrow> ipc_world \<Rightarrow> (ipc_world \<times> (IpcError + unit)) option" where
  "set_aes key ivt w =
    (if length key \<noteq> 64 \<or> length ivt \<noteq> 32
     then Some (w, Inl (InvalidArgument ''AES key must be 64 chars and IV 32 chars''))
     else case set_aes_key key ivt (ipc_new SET_AES_KEY) of
       Inl e \<Rightarrow> Some (w, Inl e)
     | Inr m \<Rightarrow> map_option (\<lambda>(w, r). (w, map_sum id (\<lambda>_. ()) r)) (send_cmd m w))"

definition set_version_range ::
    "bytes option \<Rightarrow> bytes option \<Rightarrow> bytes option \<Rightarrow> ipc_world \<Rightarrow> (ipc_world \<times> (IpcError + unit)) option" where
  "set_version_range lo hi cur w =
    (case message_set_version_range lo hi cur (ipc_new SET_VERSIONS_RANGE) of
       Inl e \<Rightarrow> Some (w, Inl e)
     | Inr m \<Rightarrow> map_option (\<lambda>(w, r). (w, map_sum id (\<lambda>_. ()) r)) (send_cmd m w))"

definition notify_receive :: "flow \<Rightarrow> ipc_world \<Rightarrow> (ipc_world \<times> flow \<times> (IpcError + IpcMessage)) option" where
  "notify_receive f w =
    map_option (\<lambda>(w, f, r). (w, f, case r of Inl e \<Rightarrow> Inl e
      | Inr m \<Rightarrow> if ipc_magic m \<noteq> IPC_MAGIC then Inl (InvalidMagic (ipc_magic m)) else Inr m)) (read_message f w)"

definition notify_connect :: "ipc_world \<Rightarrow> (ipc_world \<times> (IpcError + flow)) option" where
  "notify_connect w =
    map_option (\<lambda>(w, r). (w, case r of Inl e \<Rightarrow> Inl e
      | Inr (reply, f) \<Rightarrow> if has_type ACK reply then Inr f else Inl (UnexpectedType (ipc_type reply))))
      (exchange (ipc_new NOTIFY_STREAM) w)"

subsection \<open>The progress socket\<close>

text \<open>
  Connecting at time \<open>t\<close>, until \<open>deadline\<close> when reconnecting.  Once the attempts are used up every further one is
  refused, and the loop ends with the first one at or after the deadline.
\<close>

fun progress_dial :: "bool \<Rightarrow> nat \<Rightarrow> nat \<Rightarrow> (nat \<times> dial) list \<Rightarrow> nat \<times> (nat \<times> dial) list \<times> (IpcError + flow)" where
  "progress_dial reconnect deadline t [] =
    (if reconnect
     then (if t \<ge> deadline then t else t + align_up PROGRESS_RECONNECT_DELAY (deadline - t), [], Inl ProgressConnectTimeout)
     else (t, [], Inl (Io (Os ENOENT))))"
| "progress_dial reconnect deadline t ((d, Accepted _ f) # as) = (t + d, as, Inr f)"
| "progress_dial reconnect deadline t ((d, Refused e) # as) =
    (if \<not> reconnect then (t + d, as, Inl (Io e))
     else if t + d \<ge> deadline then (t + d, as, Inl ProgressConnectTimeout)
     else progress_dial reconnect deadline (t + d + PROGRESS_RECONNECT_DELAY) as)"

definition wait_for_progress_ack :: "nat \<Rightarrow> flow \<Rightarrow> nat \<times> (IpcError + flow)" where
  "wait_for_progress_ack t f =
    (case ipc_read_exact (struct_size ProgressConnectAck_fields) t f of
       None \<Rightarrow> (t + PROGRESS_ACK_TIMEOUT, Inl InvalidProgressAck)
     | Some (t', f', r) \<Rightarrow>
         if t' > t + PROGRESS_ACK_TIMEOUT then (t + PROGRESS_ACK_TIMEOUT, Inl InvalidProgressAck)
         else (case r of
             Inl e \<Rightarrow> (t', Inl e)
           | Inr bs \<Rightarrow>
               (let ack = ack_of_bytes bs
                in if \<not> is_major_compatible ack then (t', Inl (IncompatibleProgressVersion (ack_apiversion ack)))
                   else if \<not> has_valid_magic ack then (t', Inl InvalidProgressAck)
                   else (t', Inr f'))))"

definition progress_connect :: "bool \<Rightarrow> nat \<Rightarrow> (nat \<times> dial) list \<Rightarrow> nat \<times> (nat \<times> dial) list \<times> (IpcError + flow)" where
  "progress_connect reconnect t as =
    (case progress_dial reconnect (t + PROGRESS_CONNECT_TIMEOUT) t as of
       (t, as, Inl e) \<Rightarrow> (t, as, Inl e)
     | (t, as, Inr f) \<Rightarrow> (case wait_for_progress_ack t f of (t, r) \<Rightarrow> (t, as, r)))"

definition progress_receive :: "bool \<Rightarrow> nat \<Rightarrow> flow \<Rightarrow> (nat \<times> flow \<times> (IpcError + ProgressMsg)) option" where
  "progress_receive pk t f =
    map_option (\<lambda>(t, f, r). (t, f, map_sum id (progress_of_bytes pk) r)) (ipc_read_exact (progress_size pk) t f)"

text \<open>The bytes still to come, which bound the frames of a stream.\<close>

fun flow_bytes :: "flow \<Rightarrow> nat" where
  "flow_bytes [] = 0"
| "flow_bytes ((_, Bytes bs) # f) = length bs + flow_bytes f"
| "flow_bytes (_ # f) = flow_bytes f"

subsection \<open>Notions for the properties\<close>

text \<open>A status reply that ends the wait.\<close>

definition decisive :: "IpcMessage \<Rightarrow> bool" where
  "decisive m \<longleftrightarrow> st_last_result (decode_status m) = Some FAILURE \<or>
    st_current (decode_status m) = Some RUN \<and> st_last_result (decode_status m) = Some SUCCESS"

text \<open>How the wait ends: the time, the status replies seen, the result.\<close>

definition wait_ended :: "nat \<Rightarrow> nat \<Rightarrow> IpcMessage list \<Rightarrow> IpcError + unit \<Rightarrow> bool" where
  "wait_ended deadline c ms r \<longleftrightarrow> list_all (\<lambda>m. \<not> decisive m) (butlast ms) \<and>
    (case r of
       Inr _ \<Rightarrow> ms \<noteq> [] \<and> st_current (decode_status (last ms)) = Some RUN \<and> st_last_result (decode_status (last ms)) = Some SUCCESS
     | Inl e \<Rightarrow> (if e = InstallFailed then ms \<noteq> [] \<and> st_last_result (decode_status (last ms)) = Some FAILURE
         else list_all (\<lambda>m. \<not> decisive m) ms \<and> (if e = Timeout then deadline \<le> c else True)))"

text \<open>A reply of an installer at work, and a daemon that gives it at once, again and again.\<close>

definition busy_reply :: IpcMessage where
  "busy_reply = put_u32 DATA (recovery_code RUN) (ipc_new ACK)"

definition busy_daemon :: "nat \<Rightarrow> ipc_world" where
  "busy_daemon k = \<lparr>clock = 0, attempts = replicate k (0, Accepted None [(0, Bytes busy_reply)]), sent = []\<rparr>"

subsection \<open>Reading\<close>

lemma map_sum_Inr: "map_sum f g x = Inr y \<longleftrightarrow> (\<exists>z. x = Inr z \<and> y = g z)"
  by (cases x) auto

lemma progress_size_pos: "0 < progress_size pk"
  by (cases pk) (simp_all add: progress_sizes)

lemma ipc_read_exact_bytes: "ipc_read_exact n t f = Some (t', f', Inr bs) \<Longrightarrow> flow_bytes f' + n = flow_bytes f \<and> length bs = n"
proof (induction n t f arbitrary: t' f' bs rule: ipc_read_exact.induct)
  case (3 n t d bs0 f)
  show ?case
  proof (cases "length bs0 \<le> Suc n")
    case True
    with 3(2) obtain r where r: "ipc_read_exact (Suc n - length bs0) (t + d) f = Some (t', f', Inr r)" "bs = bs0 @ r"
      by (auto simp: map_sum_Inr)
    then show ?thesis
      using 3(1) [OF True r(1)] True by auto
  next
    case False
    then show ?thesis
      using 3(2) by auto
  qed
qed auto

lemma stream_verdict_decreases:
  "progress_receive pk t f = Some (t', f', Inr msg) \<Longrightarrow> flow_bytes f' < flow_bytes f"
proof -
  assume "progress_receive pk t f = Some (t', f', Inr msg)"
  then obtain bs where "ipc_read_exact (progress_size pk) t f = Some (t', f', Inr bs)"
    unfolding progress_receive_def by (auto simp: map_sum_Inr)
  then show ?thesis
    using ipc_read_exact_bytes progress_size_pos [of pk] by fastforce
qed

lemma progress_dial_uses: "progress_dial r dl t as = (t', as', Inr f) \<Longrightarrow> length as' < length as"
  by (induction r dl t as rule: progress_dial.induct) (auto split: if_splits)

lemma progress_connect_uses: "progress_connect r t as = (t', as', Inr f) \<Longrightarrow> length as' < length as"
  by (auto simp: progress_connect_def split: prod.splits sum.splits dest: progress_dial_uses)

subsection \<open>The status loop\<close>

lemma get_status_timeout_attempts:
  "get_status_timeout d w = (w', r) \<Longrightarrow> attempts w' = tl (attempts w) \<and> (attempts w = [] \<longrightarrow> r = Inl (Io (Os ENOENT)))"
  by (cases "attempts w")
    (auto simp: get_status_timeout_def connect_ctrl_def write_message_def read_message_def
      split: prod.splits dial.splits option.splits if_splits sum.splits)

lemma await_install_returns:
  "length (attempts w) < n \<Longrightarrow> await_install_loop n deadline w \<noteq> None"
proof (induction n arbitrary: w)
  case (Suc n)
  obtain w1 r where g: "get_status_timeout STATUS_POLL_INTERVAL w = (w1, r)"
    by fastforce
  note a = get_status_timeout_attempts [OF g]
  have ih: "await_install_loop n deadline w2 \<noteq> None" if "attempts w2 = attempts w1" "attempts w \<noteq> []" for w2
    using Suc that a by (cases "attempts w") auto
  show ?case
  proof (cases "attempts w = []")
    case True
    then show ?thesis
      using g a by simp
  next
    case False
    then show ?thesis
      using g ih [of w1] ih [of "ipc_sleep STATUS_POLL_INTERVAL w1"]
      by (auto simp: ipc_sleep_def Let_def split: sum.splits option.splits IpcError.splits)
  qed
qed simp

lemma map_sum_Inl: "map_sum f g x = Inl y \<longleftrightarrow> (\<exists>z. x = Inl z \<and> y = f z)"
  by (cases x) auto

lemma read_exact_errors: "ipc_read_exact n t f = Some (t', f', Inl e) \<Longrightarrow> e = Closed \<or> (\<exists>x. e = Io x)"
proof (induction n t f arbitrary: t' f' e rule: ipc_read_exact.induct)
  case (3 n t d bs f)
  then show ?case
    by (auto simp: map_sum_Inl split: if_splits)
qed (auto split: if_splits)

lemma get_status_timeout_errors: "get_status_timeout d w = (w', Inl e) \<Longrightarrow> e = Closed \<or> (\<exists>x. e = Io x)"
  by (auto simp: get_status_timeout_def connect_ctrl_def write_message_def read_message_def map_sum_Inl
      split: prod.splits dial.splits option.splits if_splits sum.splits list.splits dest: read_exact_errors)

lemma wait_ended_Cons: "\<not> decisive m \<Longrightarrow> wait_ended d c ms r \<Longrightarrow> wait_ended d c (m # ms) r"
  by (cases "ms = []"; cases r) (simp_all add: wait_ended_def split: if_splits)

lemma await_install_verdict:
  "await_install_loop n deadline w = Some (w', ms, r) \<Longrightarrow> wait_ended deadline (clock w') ms r"
proof (induction n arbitrary: w w' ms r)
  case (Suc n)
  obtain w1 q where g: "get_status_timeout STATUS_POLL_INTERVAL w = (w1, q)"
    by fastforce
  have nil: "wait_ended deadline c [] (Inl e)" if "e \<noteq> InstallFailed" "e \<noteq> Timeout \<or> deadline \<le> c" for e c
    using that by (simp add: wait_ended_def)
  show ?case
  proof (cases "deadline \<le> clock w")
    case True
    then show ?thesis
      using Suc.prems nil [of Timeout "clock w"] by auto
  next
    case False
    note run = Suc.prems [unfolded await_install_loop.simps if_not_P [OF False] g, simplified]
    show ?thesis
    proof (cases q)
      case (Inl e)
      with get_status_timeout_errors g have "e = Closed \<or> (\<exists>x. e = Io x)"
        by blast
      then show ?thesis
        using run Inl nil Suc.IH by auto
    next
      case (Inr x)
      show ?thesis
      proof (cases x)
        case None
        then show ?thesis
          using run Inr Suc.IH by auto
      next
        case (Some m)
        show ?thesis
        proof (cases "decisive m")
          case True
          then show ?thesis
            using run Inr Some by (auto simp: decisive_def wait_ended_def Let_def split: if_splits)
        next
          case nd: False
          then have n: "st_last_result (decode_status m) \<noteq> Some FAILURE"
            "\<not> (st_current (decode_status m) = Some RUN \<and> st_last_result (decode_status m) = Some SUCCESS)"
            unfolding decisive_def by blast+
          obtain ms' where ms': "await_install_loop n deadline w1 = Some (w', ms', r)" "ms = m # ms'"
            using run Inr Some unfolding Let_def by (simp only: sum.case option.case if_not_P [OF n(1)] if_not_P [OF n(2)]) auto
          show ?thesis
            using wait_ended_Cons [OF nd Suc.IH [OF ms'(1)]] ms'(2) by simp
        qed
      qed
    qed
  qed
qed simp

subsection \<open>Properties\<close>


lemma of_le_zeros: "of_le (replicate n 0) = 0"
  by (induction n) simp_all

lemma busy_reply_read:
  "ipc_read_exact 3120 t [(0, Bytes busy_reply)] = Some (t, [], Inr busy_reply)" "\<not> decisive busy_reply"
proof -
  have len: "length busy_reply = 3120"
    by (simp add: busy_reply_def)
  then show "ipc_read_exact 3120 t [(0, Bytes busy_reply)] = Some (t, [], Inr busy_reply)"
    using ipc_read_exact.simps(3) [of 3119 t 0 busy_reply "[]"] by simp
  have "get_u32 12 busy_reply = 0"
    by (simp add: busy_reply_def ipc_new_def ipc_zeroed_def) (simp add: get_u32_def field_at_def of_le_zeros)
  then show "\<not> decisive busy_reply"
    by (simp add: decisive_def decode_status_def install_statuses_def decode_recovery_status_def ok_status_def)
qed

text \<open>
  C36. Status polls are not spaced.  The interval between polls is only waited after a poll that got no answer: while
  the daemon answers at once that an install is running, the loop opens the control socket again and again without
  any delay, here as often as the daemon accepts.
\<close>

theorem status_polls_back_to_back:
  "\<exists>w'. await_install_result (Suc duration) (busy_daemon k) = Some (w', replicate k busy_reply, Inl (Io (Os ENOENT))) \<and>
    clock w' = clock (busy_daemon k) \<and> length (sent w') = k"
proof -
  have *: "\<exists>w'. await_install_loop (Suc k) (Suc duration) \<lparr>clock = 0, attempts = replicate k (0, Accepted None [(0, Bytes busy_reply)]),
      sent = ss\<rparr> = Some (w', replicate k busy_reply, Inl (Io (Os ENOENT))) \<and> clock w' = 0 \<and> length (sent w') = length ss + k" for ss
  proof (induction k arbitrary: ss)
    case 0
    show ?case
      by (simp add: get_status_timeout_def connect_ctrl_def)
  next
    case (Suc k)
    let ?w = "\<lambda>k ss. \<lparr>clock = 0 :: nat, attempts = replicate k (0, Accepted None [(0, Bytes busy_reply)]), sent = ss\<rparr>"
    have step: "get_status_timeout STATUS_POLL_INTERVAL (?w (Suc k) ss) = (?w k (ss @ [ipc_new GET_STATUS]), Inr (Some busy_reply))"
      by (simp add: get_status_timeout_def connect_ctrl_def write_message_def read_message_def busy_reply_read)
    have n: "st_last_result (decode_status busy_reply) \<noteq> Some FAILURE"
      "\<not> (st_current (decode_status busy_reply) = Some RUN \<and> st_last_result (decode_status busy_reply) = Some SUCCESS)"
      using busy_reply_read(2) unfolding decisive_def by blast+
    show ?case
      using Suc [of "ss @ [ipc_new GET_STATUS]"]
      unfolding await_install_loop.simps(2) [of "Suc k"] step Let_def
      by (auto simp only: prod.case sum.case option.case if_not_P [OF n(1)] if_not_P [OF n(2)] ipc_world.simps
          option.map replicate.simps) auto
  qed
  from * [of "[]"] show ?thesis
    by (simp add: await_install_result_def busy_daemon_def)
qed

end
