(* ===== verification/Ipc_Progress.thy ===== *)
theory Ipc_Progress
  imports Ipc_Client
begin

text \<open>
  Waiting for the verdict on the progress socket (\<^verbatim>\<open>swupdate-ipc/src/async_io.rs\<close>) and the install transport
  built on it (\<^verbatim>\<open>summit-usbgadget-swupdate/src/ipc.rs\<close>).

  \<open>stream_verdict\<close> reads the frames of one connection, \<open>progress_work\<close> reconnects; both end because a stream and
  the attempts to come are finite.  The lemmas take them through frames cut into any pieces.
\<close>

subsection \<open>Waiting for the verdict\<close>

text \<open>How a connection ends for the waiting loop: with a verdict, or dropped.\<close>

datatype stream_end = Decided "IpcError + unit" | Dropped

text \<open>The frames of one connection up to its end; the progress messages passed to the callback, with their times.\<close>

function stream_verdict :: "bool \<Rightarrow> nat \<Rightarrow> flow \<Rightarrow> (nat \<times> ProgressMsg) list \<times> (nat \<times> stream_end) option" where
  "stream_verdict pk t f =
    (case progress_receive pk t f of
       None \<Rightarrow> ([], None)
     | Some (t', _, Inl _) \<Rightarrow> ([], Some (t', Dropped))
     | Some (t', f', Inr msg) \<Rightarrow>
        (case ok_status (progress_status msg) of
           Some SUCCESS \<Rightarrow> ([], Some (t', Decided (Inr ())))
         | Some FAILURE \<Rightarrow> ([], Some (t', Decided (Inl InstallFailed)))
         | _ \<Rightarrow> (let (ms, e) = stream_verdict pk t' f' in ((t', msg) # ms, e))))"
  by pat_completeness auto

termination stream_verdict
  by (relation "measure (\<lambda>(pk, t, f). flow_bytes f)") (auto dest: stream_verdict_decreases)

declare stream_verdict.simps [simp del]

text \<open>The work under the timeout: connect, wait, and connect again when the connection drops.\<close>

function progress_work :: "bool \<Rightarrow> nat \<Rightarrow> (nat \<times> dial) list
    \<Rightarrow> (nat \<times> ProgressMsg) list \<times> (nat \<times> (IpcError + unit)) option" where
  "progress_work pk t as =
    (case progress_connect True t as of
       (t', _, Inl e) \<Rightarrow> ([], Some (t', Inl e))
     | (t', as', Inr f) \<Rightarrow>
        (case stream_verdict pk t' f of
           (ms, None) \<Rightarrow> (ms, None)
         | (ms, Some (t2, Decided v)) \<Rightarrow> (ms, Some (t2, v))
         | (ms, Some (t2, Dropped)) \<Rightarrow> (let (ms', r) = progress_work pk t2 as' in (ms @ ms', r))))"
  by pat_completeness auto
termination progress_work
  by (relation "measure (\<lambda>(pk, t, as). length as)") (auto dest: progress_connect_uses [OF sym])

declare progress_work.simps [simp del]

definition await_progress_result_with :: "bool \<Rightarrow> nat \<Rightarrow> nat \<Rightarrow> (nat \<times> dial) list
    \<Rightarrow> nat \<times> ProgressMsg list \<times> (IpcError + unit)" where
  "await_progress_result_with pk duration t as =
    (let (ms, r) = progress_work pk t as; shown = map snd (filter (\<lambda>(u, _). u \<le> t + duration) ms)
     in case r of
          Some (t', v) \<Rightarrow> if t' \<le> t + duration then (t', shown, v) else (t + duration, shown, Inl Timeout)
        | None \<Rightarrow> (t + duration, shown, Inl Timeout))"

definition await_progress_result :: "bool \<Rightarrow> nat \<Rightarrow> nat \<Rightarrow> (nat \<times> dial) list \<Rightarrow> nat \<times> (IpcError + unit)" where
  "await_progress_result pk duration t as =
    (case await_progress_result_with pk duration t as of (t', _, r) \<Rightarrow> (t', r))"

subsection \<open>The install transport\<close>

text \<open>The \<^verbatim>\<open>Display\<close> texts of the errors.\<close>

definition char_of_byte :: "byte \<Rightarrow> char" where
  "char_of_byte b = char_of (unat b)"

definition dec_string :: "int \<Rightarrow> string" where
  "dec_string i = (if i < 0 then ''-'' else []) @ map char_of_byte (fmt_dec (nat \<bar>i\<bar>))"

definition hex_string :: "32 word \<Rightarrow> string" where
  "hex_string x = ''0x'' @ map char_of_byte (fmt_hex_lower 8 (unat x))"

fun ipc_error_text :: "IpcError \<Rightarrow> err_text" where
  "ipc_error_text (Io e) = Prefixed ''SWUpdate IPC I/O error: '' (err_to_string e)"
| "ipc_error_text Nack = Text ''SWUpdate rejected the request (NACK)''"
| "ipc_error_text (UnexpectedType n) = Text (''unexpected SWUpdate message type: '' @ dec_string (sint n))"
| "ipc_error_text (InvalidMagic n) = Text (''invalid SWUpdate IPC magic number: '' @ hex_string n)"
| "ipc_error_text (IncompatibleProgressVersion n) =
    Text (''incompatible SWUpdate progress API version: '' @ hex_string n)"
| "ipc_error_text InvalidProgressAck = Text ''invalid SWUpdate progress connect acknowledgement''"
| "ipc_error_text Closed = Text ''SWUpdate closed the connection''"
| "ipc_error_text (InvalidArgument s) = Text (''invalid argument: '' @ s)"
| "ipc_error_text Timeout = Text ''timed out waiting for SWUpdate install result''"
| "ipc_error_text ProgressConnectTimeout = Text ''timed out connecting to SWUpdate progress socket''"
| "ipc_error_text InstallFailed = Text ''SWUpdate reported installation failure''"

definition normalize_ipc_error :: "IpcError \<Rightarrow> string \<Rightarrow> io_error" where
  "normalize_ipc_error err context =
    (let other = Custom Other (Prefixed (''SWUpdate '' @ context @ '' failed: '') (ipc_error_text err))
     in case err of
          Io io_err \<Rightarrow>
            if raw_os_error io_err = Some ESHUTDOWN \<or> raw_os_error io_err = Some ECONNABORTED
            then Custom NotConnected (err_to_string io_err) else other
        | Closed \<Rightarrow> Custom NotConnected (ipc_error_text Closed)
        | _ \<Rightarrow> other)"

definition ipc_install_request :: "SwupdateParams \<Rightarrow> bytes \<Rightarrow> InstallRequest" where
  "ipc_install_request p mode =
    \<lparr>ir_software_set = unwrap_or (ascii ''stable'') (software_set p), ir_running_mode = mode, ir_source = Local,
     ir_mode = (if dry_run p then DryRun else Install), ir_disable_store_swu = disable_store_swu p\<rparr>"

definition ipc_begin :: "SwupdateParams \<Rightarrow> bytes \<Rightarrow> ipc_world \<Rightarrow> (ipc_world \<times> (io_error + flow)) option" where
  "ipc_begin p mode w =
    map_option (\<lambda>(w, r). (w, map_sum (\<lambda>e. Custom Other (Prefixed ''SWUpdate inst_start failed: '' (ipc_error_text e))) id r))
      (inst_start_request (ipc_install_request p mode) w)"

text \<open>The completion future of the transport: the verdict of the progress socket.\<close>

definition ipc_completion :: "bool \<Rightarrow> SwupdateParams \<Rightarrow> nat \<Rightarrow> (nat \<times> dial) list \<Rightarrow> io_error + unit" where
  "ipc_completion pk p t as =
    (case await_progress_result_with pk (1000 * unat (timeout_secs p)) t as of
       (_, _, r) \<Rightarrow> map_sum (\<lambda>e. normalize_ipc_error e ''wait'') id r)"

subsection \<open>Notions for the properties\<close>

text \<open>Streams that only carry bytes: what they carry and how long it takes.\<close>

fun only_bytes :: "flow \<Rightarrow> bool" where
  "only_bytes [] = True"
| "only_bytes ((_, Bytes _) # f) = only_bytes f"
| "only_bytes (_ # f) = False"

fun flow_data :: "flow \<Rightarrow> bytes" where
  "flow_data [] = []"
| "flow_data ((_, Bytes bs) # f) = bs @ flow_data f"
| "flow_data (_ # f) = flow_data f"

definition flow_time :: "flow \<Rightarrow> nat" where
  "flow_time f = sum_list (map fst f)"

definition frame_status :: "bool \<Rightarrow> bytes \<Rightarrow> RecoveryStatus option" where
  "frame_status pk x = ok_status (progress_status (progress_of_bytes pk x))"

definition quiet_frame :: "bool \<Rightarrow> bytes \<Rightarrow> bool" where
  "quiet_frame pk x \<longleftrightarrow> length x = progress_size pk \<and> frame_status pk x \<noteq> Some SUCCESS \<and> frame_status pk x \<noteq> Some FAILURE"

definition good_ack :: "bytes \<Rightarrow> bool" where
  "good_ack x \<longleftrightarrow> length x = struct_size ProgressConnectAck_fields \<and> is_major_compatible (ack_of_bytes x) \<and> has_valid_magic (ack_of_bytes x)"

text \<open>
  A connection that drops: the time to connect, the stream up to the acknowledgement, the stream after it (frames
  without a verdict and perhaps part of another), and when it ends.
\<close>

type_synonym dropped_conn = "nat \<times> flow \<times> flow \<times> nat"

definition drops :: "bool \<Rightarrow> dropped_conn \<Rightarrow> bool" where
  "drops pk x \<longleftrightarrow> (case x of (c, a, g, d) \<Rightarrow> only_bytes a \<and> good_ack (flow_data a) \<and> flow_time a \<le> PROGRESS_ACK_TIMEOUT \<and>
    only_bytes g \<and> (\<exists>fs part. flow_data g = concat fs @ part \<and> list_all (quiet_frame pk) fs \<and> length part < progress_size pk))"

definition drop_attempt :: "dropped_conn \<Rightarrow> nat \<times> dial" where
  "drop_attempt x = (case x of (c, a, g, d) \<Rightarrow> (c, Accepted None (a @ g @ [(d, Eof)])))"

definition drop_time :: "dropped_conn \<Rightarrow> nat" where
  "drop_time x = (case x of (c, a, g, d) \<Rightarrow> c + flow_time a + flow_time g + d)"

definition demo_ack :: bytes where
  "demo_ack = le_bytes 4 131072 @ ascii ''ACK'' @ [0]"

definition demo_frame :: "nat \<Rightarrow> bytes" where
  "demo_frame st = le_bytes 4 131072 @ le_bytes 4 st @ replicate 2400 0"

definition demo_daemon :: ipc_world where
  "demo_daemon = \<lparr>clock = 0, attempts = [(2, Accepted None [(1, Bytes (ipc_new ACK))])], sent = []\<rparr>"

subsection \<open>Streams\<close>

lemma flow_time_simps [simp]: "flow_time [] = 0" "flow_time (x # f) = fst x + flow_time f" "flow_time (f @ g) = flow_time f + flow_time g"
  by (simp_all add: flow_time_def)

lemma read_exact_pure:
  assumes "only_bytes g" "n \<le> length (flow_data g)"
  shows "\<exists>t' g'. ipc_read_exact n t (g @ k) = Some (t', g' @ k, Inr (take n (flow_data g))) \<and> only_bytes g' \<and>
    flow_data g' = drop n (flow_data g) \<and> t' + flow_time g' = t + flow_time g"
  using assms
proof (induction g arbitrary: n t)
  case Nil
  then show ?case
    by (auto intro!: exI [of _ "[]"])
next
  case (Cons x g)
  then obtain d bs where x: "x = (d, Bytes bs)" "only_bytes g"
    by (cases x; cases "snd x") auto
  show ?case
  proof (cases n)
    case 0
    then show ?thesis
      using Cons.prems by (auto intro!: exI [of _ "x # g"])
  next
    case (Suc m)
    show ?thesis
    proof (cases "length bs \<le> n")
      case True
      have "n - length bs \<le> length (flow_data g)"
        using Cons.prems(2) x by simp
      from Cons.IH [OF x(2) this, of "t + d"] obtain t' g' where "ipc_read_exact (n - length bs) (t + d) (g @ k) = Some (t', g' @ k, Inr (take (n - length bs) (flow_data g)))"
        "only_bytes g'" "flow_data g' = drop (n - length bs) (flow_data g)" "t' + flow_time g' = t + d + flow_time g"
        by blast
      then show ?thesis
        using x Suc True by (auto intro!: exI [of _ g'])
    next
      case False
      then show ?thesis
        using x Suc by (auto intro!: exI [of _ "(0, Bytes (drop n bs)) # g"])
    qed
  qed
qed

lemma read_exact_eof:
  assumes "only_bytes g" "length (flow_data g) < n"
  shows "ipc_read_exact n t (g @ (d, Eof) # k) = Some (t + flow_time g + d, (0, Eof) # k, Inl Closed)"
  using assms
proof (induction g arbitrary: n t)
  case Nil
  then show ?case
    by (cases n) auto
next
  case (Cons x g)
  then obtain d' bs where x: "x = (d', Bytes bs)" "only_bytes g"
    by (cases x; cases "snd x") auto
  then show ?case
    using Cons.prems Cons.IH [of "n - length bs" "t + d'"] by (cases n) (auto simp: add.assoc)
qed

lemma stream_frames:
  assumes "list_all (quiet_frame pk) fs" "only_bytes g" "flow_data g = concat fs @ r"
  shows "\<exists>t' g' ms. only_bytes g' \<and> flow_data g' = r \<and> t' + flow_time g' = t + flow_time g \<and>
    stream_verdict pk t (g @ k) = (let (ms', e) = stream_verdict pk t' (g' @ k) in (ms @ ms', e))"
  using assms
proof (induction fs arbitrary: t g)
  case Nil
  then show ?case
    by (intro exI [of _ t] exI [of _ g] exI [of _ "[]"]) (simp add: Let_def)
next
  case (Cons x fs)
  then have x: "quiet_frame pk x" "length x = progress_size pk" and fs: "list_all (quiet_frame pk) fs"
    by (auto simp: quiet_frame_def [of _ x])
  obtain t1 g1 where r: "ipc_read_exact (progress_size pk) t (g @ k) = Some (t1, g1 @ k, Inr x)" "only_bytes g1"
    "flow_data g1 = concat fs @ r" "t1 + flow_time g1 = t + flow_time g"
    using read_exact_pure [of g "progress_size pk" t k] Cons.prems x(2) by auto
  obtain t' g' ms where ih: "only_bytes g'" "flow_data g' = r" "t' + flow_time g' = t1 + flow_time g1"
    "stream_verdict pk t1 (g1 @ k) = (let (ms', e) = stream_verdict pk t' (g' @ k) in (ms @ ms', e))"
    using Cons.IH [OF fs r(2,3), of t1] by blast
  have "stream_verdict pk t (g @ k) = (let (ms, e) = stream_verdict pk t1 (g1 @ k) in ((t1, progress_of_bytes pk x) # ms, e))"
    using x(1) r(1) by (subst stream_verdict.simps)
      (auto simp: progress_receive_def quiet_frame_def frame_status_def split: option.split RecoveryStatus.split)
  then show ?case
    using ih r(4) by (intro exI [of _ t'] exI [of _ g'] exI [of _ "(t1, progress_of_bytes pk x) # ms"])
      (simp add: Let_def split: prod.splits)
qed

lemma stream_drops:
  assumes "list_all (quiet_frame pk) fs" "only_bytes g" "flow_data g = concat fs @ part" "length part < progress_size pk"
  shows "\<exists>ms. stream_verdict pk t (g @ (d, Eof) # k) = (ms, Some (t + flow_time g + d, Dropped))"
proof -
  obtain t' g' ms where g': "only_bytes g'" "flow_data g' = part" "t' + flow_time g' = t + flow_time g"
    "stream_verdict pk t (g @ (d, Eof) # k) = (let (ms', e) = stream_verdict pk t' (g' @ (d, Eof) # k) in (ms @ ms', e))"
    using stream_frames [OF assms(1-3)] by blast
  have "stream_verdict pk t' (g' @ (d, Eof) # k) = ([], Some (t' + flow_time g' + d, Dropped))"
    using read_exact_eof [of g' "progress_size pk" t' d k] g'(1,2) assms(4)
    by (subst stream_verdict.simps) (simp add: progress_receive_def)
  then show ?thesis
    using g'(3,4) by simp
qed

lemma stream_decides:
  assumes "list_all (quiet_frame pk) fs" "only_bytes g" "flow_data g = concat fs @ x @ rest" "length x = progress_size pk"
    "frame_status pk x = Some s" "is_terminal s"
  shows "\<exists>ms t'. stream_verdict pk t (g @ k) = (ms, Some (t', Decided (if s = SUCCESS then Inr () else Inl InstallFailed))) \<and>
    t' \<le> t + flow_time g"
proof -
  obtain t1 g1 ms where g1: "only_bytes g1" "flow_data g1 = x @ rest" "t1 + flow_time g1 = t + flow_time g"
    "stream_verdict pk t (g @ k) = (let (ms', e) = stream_verdict pk t1 (g1 @ k) in (ms @ ms', e))"
    using stream_frames [OF assms(1-3)] by blast
  obtain t2 g2 where r: "ipc_read_exact (progress_size pk) t1 (g1 @ k) = Some (t2, g2 @ k, Inr x)" "t2 + flow_time g2 = t1 + flow_time g1"
    using read_exact_pure [OF g1(1), of "progress_size pk" t1 k] g1(2) assms(4) by auto
  have "s = SUCCESS \<or> s = FAILURE"
    using assms(6) by (cases s) auto
  then have "stream_verdict pk t1 (g1 @ k) = ([], Some (t2, Decided (if s = SUCCESS then Inr () else Inl InstallFailed)))"
    using r(1) assms(5) by (subst stream_verdict.simps) (auto simp: progress_receive_def frame_status_def)
  then show ?thesis
    using g1(3,4) r(2) by auto
qed

lemma ack_read:
  assumes "only_bytes a" "good_ack (flow_data a)" "flow_time a \<le> PROGRESS_ACK_TIMEOUT"
  shows "\<exists>t' a'. wait_for_progress_ack t (a @ k) = (t', Inr (a' @ k)) \<and> only_bytes a' \<and> flow_data a' = [] \<and> t' + flow_time a' = t + flow_time a"
proof -
  have l: "length (flow_data a) = struct_size ProgressConnectAck_fields"
    using assms(2) by (simp add: good_ack_def)
  then obtain t' a' where r: "ipc_read_exact (struct_size ProgressConnectAck_fields) t (a @ k) = Some (t', a' @ k, Inr (flow_data a))"
    "only_bytes a'" "flow_data a' = []" "t' + flow_time a' = t + flow_time a"
    using read_exact_pure [OF assms(1), of "struct_size ProgressConnectAck_fields" t k] by auto
  then have "\<not> t + PROGRESS_ACK_TIMEOUT < t'"
    using assms(3) by linarith
  then show ?thesis
    using r assms(2) by (simp add: wait_for_progress_ack_def good_ack_def Let_def)
qed

lemma only_bytes_join [simp]: "only_bytes (a @ b) = (only_bytes a \<and> only_bytes b)"
  by (induction a rule: only_bytes.induct) auto

lemma flow_data_join [simp]: "flow_data (a @ b) = flow_data a @ flow_data b"
  by (induction a rule: flow_data.induct) auto

lemma work_drops:
  assumes "drops pk x"
  shows "\<exists>ms. progress_work pk t (drop_attempt x # as) = (let (ms', r) = progress_work pk (t + drop_time x) as in (ms @ ms', r))"
proof -
  obtain c a g d where x: "x = (c, a, g, d)"
    by (metis prod_cases4)
  from assms x obtain fs part where a: "only_bytes a" "good_ack (flow_data a)" "flow_time a \<le> PROGRESS_ACK_TIMEOUT" and g: "only_bytes g"
    "flow_data g = concat fs @ part" "list_all (quiet_frame pk) fs" "length part < progress_size pk"
    by (auto simp: drops_def)
  obtain t' a' where ack: "wait_for_progress_ack (t + c) (a @ g @ [(d, Eof)]) = (t', Inr (a' @ g @ [(d, Eof)]))" "only_bytes a'" "flow_data a' = []"
    "t' + flow_time a' = t + c + flow_time a"
    using ack_read [OF a, of "t + c" "g @ [(d, Eof)]"] by blast
  obtain ms where "stream_verdict pk t' ((a' @ g) @ (d, Eof) # []) = (ms, Some (t' + flow_time (a' @ g) + d, Dropped))"
    using stream_drops [OF g(3), of "a' @ g" part t' d "[]"] ack g by auto
  moreover have "t' + flow_time (a' @ g) + d = t + drop_time x"
    using ack(4) by (simp add: drop_time_def x)
  ultimately show ?thesis
    using ack(1) by (subst progress_work.simps) (auto simp: progress_connect_def drop_attempt_def x)
qed

lemma work_all_drops:
  "list_all (drops pk) xs \<Longrightarrow>
    snd (progress_work pk t (map drop_attempt xs @ as)) = snd (progress_work pk (t + sum_list (map drop_time xs)) as)"
proof (induction xs arbitrary: t)
  case (Cons x xs)
  then obtain ms where "progress_work pk t (drop_attempt x # map drop_attempt xs @ as) =
      (let (ms', r) = progress_work pk (t + drop_time x) (map drop_attempt xs @ as) in (ms @ ms', r))"
    using work_drops [of pk x t] by auto
  then show ?case
    using Cons by (simp add: case_prod_beta add.assoc)
qed simp

lemma work_decides:
  assumes "only_bytes a" "good_ack (flow_data a)" "flow_time a \<le> PROGRESS_ACK_TIMEOUT" "only_bytes g"
    "flow_data g = concat fs @ x @ rest" "list_all (quiet_frame pk) fs" "length x = progress_size pk"
    "frame_status pk x = Some s" "is_terminal s"
  shows "\<exists>t'. snd (progress_work pk t ((c, Accepted None (a @ g @ k)) # as)) =
      Some (t', if s = SUCCESS then Inr () else Inl InstallFailed) \<and> t' \<le> t + c + flow_time a + flow_time g"
proof -
  obtain t' a' where ack: "wait_for_progress_ack (t + c) (a @ g @ k) = (t', Inr (a' @ g @ k))" "only_bytes a'" "flow_data a' = []"
    "t' + flow_time a' = t + c + flow_time a"
    using ack_read [OF assms(1-3), of "t + c" "g @ k"] by blast
  obtain ms t2 where "stream_verdict pk t' ((a' @ g) @ k) = (ms, Some (t2, Decided (if s = SUCCESS then Inr () else Inl InstallFailed)))"
    "t2 \<le> t' + flow_time (a' @ g)"
    using stream_decides [OF assms(6), of "a' @ g" x rest s t' k] ack assms by auto
  then show ?thesis
    using ack by (subst progress_work.simps) (auto simp: progress_connect_def)
qed

subsection \<open>Properties\<close>

text \<open>
  C7. The verdict of the daemon is the verdict of the wait.  The progress socket may be dropped and reopened any
  number of times, each connection delivering its acknowledgement, progress frames without a verdict and perhaps a
  cut-off frame; the bytes of every connection may arrive in any pieces.  When a connection then delivers a frame
  with a verdict, and all of it happens within the time, the wait returns that verdict: Ok for SUCCESS, the install
  failure for FAILURE.
\<close>

theorem progress_verdict:
  assumes "list_all (drops pk) xs" "only_bytes a" "good_ack (flow_data a)" "flow_time a \<le> PROGRESS_ACK_TIMEOUT"
    and "only_bytes g" "flow_data g = concat fs @ x @ rest" "list_all (quiet_frame pk) fs" "length x = progress_size pk"
    and "frame_status pk x = Some s" "is_terminal s"
    and "sum_list (map drop_time xs) + c + flow_time a + flow_time g \<le> duration"
  shows "snd (snd (await_progress_result_with pk duration t (map drop_attempt xs @ (c, Accepted None (a @ g @ k)) # as))) =
    (if s = SUCCESS then Inr () else Inl InstallFailed)"
proof -
  obtain t' where "snd (progress_work pk (t + sum_list (map drop_time xs)) ((c, Accepted None (a @ g @ k)) # as)) =
      Some (t', if s = SUCCESS then Inr () else Inl InstallFailed)" "t' \<le> t + sum_list (map drop_time xs) + c + flow_time a + flow_time g"
    using work_decides [OF assms(2-10)] by blast
  then have "snd (progress_work pk t (map drop_attempt xs @ (c, Accepted None (a @ g @ k)) # as)) =
      Some (t', if s = SUCCESS then Inr () else Inl InstallFailed)" "t' \<le> t + duration"
    using work_all_drops [OF assms(1)] assms(11) by simp_all
  then show ?thesis
    by (simp add: await_progress_result_with_def case_prod_beta Let_def)
qed

lemma frame_status_at: "frame_status pk x = ok_status (decode_recovery_status (get_u32 4 x))"
  by (simp add: frame_status_def progress_status_def progress_of_bytes_def Let_def)

lemma demo_frame:
  "length (demo_frame n) = progress_size True"
  "frame_status True (demo_frame n) = ok_status (decode_recovery_status (of_nat (n mod 2 ^ 32)))"
proof -
  show "length (demo_frame n) = progress_size True"
    by (simp add: demo_frame_def progress_sizes)
  have "get_u32 4 (demo_frame n) = of_nat (n mod 2 ^ 32)"
    by (simp add: demo_frame_def get_u32_def field_at_def of_le_le_bytes del: le_bytes_numeral)
  then show "frame_status True (demo_frame n) = ok_status (decode_recovery_status (of_nat (n mod 2 ^ 32)))"
    by (simp add: frame_status_at)
qed

lemma demo_ack: "good_ack demo_ack"
  by (simp add: good_ack_def progress_sizes demo_ack_def ack_of_bytes_def is_major_compatible_def has_valid_magic_def
      get_u32_def field_at_def PROGRESS_API_MAJOR_def PROGRESS_CONNECT_ACK_MAGIC_def)

theorem progress_verdict_witness:
  "snd (snd (await_progress_result_with True 60000 5
     [(1, Accepted None [(0, Bytes demo_ack), (20, Bytes (demo_frame 2)), (7, Eof)]),
      (1, Accepted None [(3, Bytes (take 3 demo_ack)), (4, Bytes (drop 3 demo_ack)), (900, Bytes (demo_frame 8)), (9, Bytes (demo_frame 3))])]))
   = Inr ()"
proof -
  have s: "frame_status True (demo_frame 2) = Some RUN" "frame_status True (demo_frame 3) = Some SUCCESS"
    "frame_status True (demo_frame 8) = Some PROGRESS"
    by (simp_all add: demo_frame decode_recovery_status_def ok_status_def)
  have q: "quiet_frame True (demo_frame 2)" "quiet_frame True (demo_frame 8)"
    using s by (simp_all add: quiet_frame_def demo_frame)
  have d: "list_all (drops True) [(1, [(0, Bytes demo_ack)], [(20, Bytes (demo_frame 2))], 7)]"
    using q demo_ack progress_size_pos [of True]
    by (simp add: drops_def PROGRESS_ACK_TIMEOUT_def) (intro exI [of _ "[demo_frame 2]"] exI [of _ "[]"], simp)
  show ?thesis
    using progress_verdict [OF d, of "[(3, Bytes (take 3 demo_ack)), (4, Bytes (drop 3 demo_ack))]"
        "[(900, Bytes (demo_frame 8)), (9, Bytes (demo_frame 3))]" "[demo_frame 8]" "demo_frame 3" "[]" SUCCESS 1 60000 5 "[]" "[]"]
      demo_ack s q by (simp add: PROGRESS_ACK_TIMEOUT_def demo_frame drop_attempt_def drop_time_def)
qed

text \<open>
  C18. What starting an install sends.  When the control socket accepts the connection, exactly one message is
  written: an install request from a local source with the running mode of the session, the configured software set
  (\<open>stable\<close> when none is configured), the dry-run mode exactly when configured, and the configured storing flag.
  The install stream is handed out only after the daemon acknowledged that request.
\<close>

theorem ipc_begin_request:
  assumes "attempts w = (d, Accepted None f) # as" "ipc_begin p mode w = Some (w', r)"
    and "length mode < 256" "length (unwrap_or (ascii ''stable'') (software_set p)) < 256"
    and "0 \<notin> set mode" "0 \<notin> set (unwrap_or (ascii ''stable'') (software_set p))"
  shows "\<exists>m. sent w' = sent w @ [m] \<and> ipc_magic m = IPC_MAGIC \<and> has_type REQ_INSTALL m \<and>
    daemon_request m = (1, 4, if dry_run p then 1 else 2, unwrap_or (ascii ''stable'') (software_set p), mode, disable_store_swu p) \<and>
    (case r of Inl _ \<Rightarrow> True
      | Inr g \<Rightarrow> \<exists>t reply. ipc_read_exact IPC_MESSAGE_SIZE (clock w + d) f = Some (t, g, Inr reply) \<and> has_type ACK reply)"
proof -
  let ?r = "ipc_install_request p mode"
  obtain m where m: "encode ?r = Inr m"
    using encode_Inl [of ?r] assms(3,4) by (cases "encode ?r") (auto simp: ipc_install_request_def)
  from assms(2) m obtain q where q: "exchange m w = Some q" "w' = fst (started q)"
    "r = map_sum (\<lambda>e. Custom Other (Prefixed ''SWUpdate inst_start failed: '' (ipc_error_text e))) id (snd (started q))"
    by (auto simp: ipc_begin_def inst_start_request_def)
  then obtain t g reply where rd: "ipc_read_exact IPC_MESSAGE_SIZE (clock w + d) f = Some (t, g, reply)"
    "fst q = w\<lparr>clock := t, attempts := as, sent := sent w @ [m]\<rparr>" "snd q = map_sum id (\<lambda>x. (x, g)) reply"
    using assms(1) by (auto simp: exchange_def connect_ctrl_def write_message_def read_message_def simp del: message_layout)
  have "daemon_request m = (1, 4, if dry_run p then 1 else 2, unwrap_or (ascii ''stable'') (software_set p), mode, disable_store_swu p)"
    using encode_Inr(4) [OF m] assms(5,6) by (simp add: ipc_install_request_def SWUPDATE_API_VERSION_def)
  moreover have "sent w' = sent w @ [m]"
    using q(2) rd(2) by (cases q) (auto simp: started_def split: sum.splits)
  moreover have "case r of Inl _ \<Rightarrow> True
      | Inr g \<Rightarrow> \<exists>t reply. ipc_read_exact IPC_MESSAGE_SIZE (clock w + d) f = Some (t, g, Inr reply) \<and> has_type ACK reply"
    using q(3) rd by (cases q; cases reply) (auto simp: started_def)
  ultimately show ?thesis
    using encode_Inr(2,3) [OF m] by blast
qed

theorem ipc_begin_request_witness:
  "\<exists>w' m. ipc_begin default_params (ascii ''full-b'') demo_daemon = Some (w', Inr []) \<and> sent w' = [m] \<and>
    daemon_request m = (1, 4, 2, ascii ''stable'', ascii ''full-b'', True)"
proof -
  let ?r = "ipc_install_request default_params (ascii ''full-b'')"
  obtain m where m: "encode ?r = Inr m"
    using encode_Inl [of ?r] by (cases "encode ?r") (auto simp: ipc_install_request_def default_params_def unwrap_or_def)
  have read: "ipc_read_exact 3120 2 [(1, Bytes (ipc_new ACK))] = Some (3, [], Inr (ipc_new ACK))"
    using ipc_read_exact.simps(3) [of 3119 2 1 "ipc_new ACK" "[]"] by simp
  have at: "attempts demo_daemon = (2, Accepted None [(1, Bytes (ipc_new ACK))]) # []"
    by (simp add: demo_daemon_def)
  obtain w' where w': "ipc_begin default_params (ascii ''full-b'') demo_daemon = Some (w', Inr [])"
    using m read by (simp add: ipc_begin_def inst_start_request_def exchange_def connect_ctrl_def write_message_def
        read_message_def started_def demo_daemon_def has_type_def del: ascii_Cons)
  show ?thesis
    using ipc_begin_request [OF at w'] w' by (auto simp: default_params_def unwrap_or_def demo_daemon_def)
qed

end
