(* ===== verification/System_Info.thy ===== *)
theory System_Info
  imports Boot_Info
begin

text \<open>
  System identity: the serial number and the system information document
  (\<^verbatim>\<open>crates/summit-usbgadget-config/src/sysinfo/serial.rs\<close> and \<^verbatim>\<open>runtime.rs\<close>).  The board is a parameter: the
  contents of its files, the U-Boot environment and the random bytes.  The lemmas show what a serial number looks like
  and where it comes from.
\<close>

subsection \<open>The board\<close>

text \<open>
  What the code reads of the board: \<open>read_file\<close> is \<^verbatim>\<open>fs::read\<close> (None when it fails), \<open>fw_printenv\<close> the
  exit status and the output of that command (None when it cannot be started), \<open>getrandom\<close> the six
  bytes of the system call (None when it fails).
\<close>

record board =
  read_file :: "string \<Rightarrow> bytes option"
  fw_printenv :: "string \<Rightarrow> (bool \<times> bytes) option"
  getrandom :: "bytes option"

definition read_to_string :: "board \<Rightarrow> string \<Rightarrow> bytes option" where
  "read_to_string b p = (case read_file b p of None \<Rightarrow> None | Some bs \<Rightarrow> from_utf8 bs)"

subsection \<open>Serial numbers\<close>

definition AM62X_MAC_CELLS :: "string \<times> string" where
  "AM62X_MAC_CELLS = (''/sys/bus/nvmem/devices/rv3028_eeprom0/cells/mac-address@0,0'',
    ''/sys/bus/nvmem/devices/rv3028_eeprom0/cells/mac-address@0,6'')"

definition IMX95_MAC_CELLS :: "string \<times> string" where
  "IMX95_MAC_CELLS = (''/sys/bus/nvmem/devices/ELE-OCOTP0/cells/mac-address@514,0'',
    ''/sys/bus/nvmem/devices/ELE-OCOTP0/cells/mac-address@1514,0'')"

definition IMX93_MAC_CELLS :: "string \<times> string" where
  "IMX93_MAC_CELLS = (''/sys/bus/nvmem/devices/ELE-OCOTP0/cells/mac-address@4ec,0'',
    ''/sys/bus/nvmem/devices/ELE-OCOTP0/cells/mac-address@4f2,0'')"

definition IMX8MP_MAC_CELLS :: "string \<times> string" where
  "IMX8MP_MAC_CELLS = (''/sys/bus/nvmem/devices/imx-ocotp0/cells/mac-address@90,0'',
    ''/sys/bus/nvmem/devices/imx-ocotp0/cells/mac-address@96,0'')"

definition IMX8MM_ETH0_MAC_CELL :: string where
  "IMX8MM_ETH0_MAC_CELL = ''/sys/bus/nvmem/devices/imx-ocotp0/cells/mac-address@90,0''"

definition SOM60_MAC_CELLS :: "string \<times> string" where
  "SOM60_MAC_CELLS = (''/sys/bus/nvmem/devices/0-00500/of_node/mac-address@2'',
    ''/sys/bus/nvmem/devices/0-00500/of_node/mac-address@8'')"

record MacAddresses =
  eth0 :: bytes
  eth1 :: bytes

definition format_serial_mac :: "bytes \<Rightarrow> bytes option" where
  "format_serial_mac bs =
    (if length bs = 6 then Some (concat (map (\<lambda>b. fmt_hex_lower 2 (unat b)) bs)) else None)"

definition read_mac_cell :: "board \<Rightarrow> string \<Rightarrow> bytes option" where
  "read_mac_cell b p = (case read_file b p of None \<Rightarrow> None | Some bs \<Rightarrow> format_serial_mac bs)"

definition read_trimmed :: "board \<Rightarrow> string \<Rightarrow> bytes option" where
  "read_trimmed b p = (case read_to_string b p of None \<Rightarrow> None
    | Some s \<Rightarrow> if trim s \<noteq> [] then Some (trim s) else None)"

definition soc_id :: "board \<Rightarrow> bytes option" where
  "soc_id b = (case read_trimmed b ''/sys/devices/soc0/soc_id'' of
      Some s \<Rightarrow> Some s
    | None \<Rightarrow> read_trimmed b ''/sys/devices/soc0/family'')"

definition read_cell_macs :: "board \<Rightarrow> string \<times> string \<Rightarrow> MacAddresses option" where
  "read_cell_macs b cells = Some \<lparr>eth0 = unwrap_or [] (read_mac_cell b (fst cells)),
     eth1 = unwrap_or [] (read_mac_cell b (snd cells))\<rparr>"

definition read_single_cell_mac :: "board \<Rightarrow> string \<Rightarrow> MacAddresses option" where
  "read_single_cell_mac b p = Some \<lparr>eth0 = unwrap_or [] (read_mac_cell b p), eth1 = []\<rparr>"

definition read_uboot_value :: "board \<Rightarrow> string \<Rightarrow> bytes option" where
  "read_uboot_value b var =
    (case fw_printenv b var of
       None \<Rightarrow> None
     | Some (success, out) \<Rightarrow>
        if \<not> success then None
        else let value = filter (\<lambda>c. c \<noteq> 58) (trim (from_utf8_lossy out)) in
          if length value = 12 \<and> list_all is_ascii_hexdigit value then Some (map to_lower value) else None)"

definition read_uboot_mac :: "board \<Rightarrow> string \<Rightarrow> MacAddresses option" where
  "read_uboot_mac b var = map_option (\<lambda>v. \<lparr>eth0 = v, eth1 = []\<rparr>) (read_uboot_value b var)"

definition macs :: "board \<Rightarrow> MacAddresses option" where
  "macs b = (case soc_id b of
      None \<Rightarrow> None
    | Some soc \<Rightarrow>
        if soc = ascii ''i.MX95'' then read_cell_macs b IMX95_MAC_CELLS
        else if soc = ascii ''i.MX8MP'' then read_cell_macs b IMX8MP_MAC_CELLS
        else if soc = ascii ''i.MX8MM'' then read_single_cell_mac b IMX8MM_ETH0_MAC_CELL
        else if soc = ascii ''i.MX91'' \<or> soc = ascii ''i.MX93'' then read_cell_macs b IMX93_MAC_CELLS
        else if soc = ascii ''AM62X'' \<or> soc = ascii ''J722S'' \<or> soc = ascii ''AM62LX''
          then read_cell_macs b AM62X_MAC_CELLS
        else if soc = ascii ''sama5d36'' then read_cell_macs b SOM60_MAC_CELLS
        else if soc = ascii ''sama5d31'' then read_uboot_mac b ''ethaddr''
        else None)"

definition serial :: "MacAddresses \<Rightarrow> bytes" where
  "serial m = eth0 m"

definition normalize :: "bytes \<Rightarrow> bytes" where
  "normalize v = filter (\<lambda>c. c \<noteq> 58) (map to_lower v)"

text \<open>None when \<^verbatim>\<open>getrandom\<close> fails, which panics.\<close>

definition random_serial :: "board \<Rightarrow> bytes option" where
  "random_serial b = map_option (\<lambda>bs. concat (map (\<lambda>x. fmt_hex_lower 2 (unat x)) bs)) (getrandom b)"

definition wifi_serial :: "board \<Rightarrow> bytes option" where
  "wifi_serial b = (case read_to_string b ''/etc/wifi_mac'' of
      None \<Rightarrow> None
    | Some v \<Rightarrow> if trim v \<noteq> [] then Some (normalize (trim v)) else None)"

text \<open>\<open>resolve_serial\<close> never returns \<^verbatim>\<open>Err\<close>; None is the panic of \<open>random_serial\<close>.\<close>

definition auto_serial :: "board \<Rightarrow> bytes option" where
  "auto_serial b = (case macs b of
      None \<Rightarrow> random_serial b
    | Some m \<Rightarrow> if eth0 m \<noteq> [] then Some (eth0 m) else random_serial b)"

definition resolve_serial :: "board \<Rightarrow> bytes option \<Rightarrow> bytes option" where
  "resolve_serial b source =
    (if unwrap_or (ascii ''auto'') source = ascii ''wifi_mac''
     then (case wifi_serial b of Some s \<Rightarrow> Some s | None \<Rightarrow> auto_serial b)
     else auto_serial b)"

subsection \<open>System information\<close>

definition until_nul :: "bytes \<Rightarrow> bytes" where
  "until_nul bs = take (case position (\<lambda>x. x = 0) bs of Some i \<Rightarrow> i | None \<Rightarrow> length bs) bs"

definition read_dt_string :: "board \<Rightarrow> string \<Rightarrow> bytes option" where
  "read_dt_string b p = (case read_file b p of
      None \<Rightarrow> None
    | Some bs \<Rightarrow> let value = trim (from_utf8_lossy (until_nul bs)) in
        if value \<noteq> [] then Some value else None)"

definition mem_total_mb :: "board \<Rightarrow> 64 word option" where
  "mem_total_mb b = (case read_to_string b ''/proc/meminfo'' of
      None \<Rightarrow> None
    | Some text \<Rightarrow> (case find (\<lambda>l. strip_prefix (ascii ''MemTotal:'') l \<noteq> None) (lines text) of
        None \<Rightarrow> None
      | Some line \<Rightarrow> (case strip_prefix (ascii ''MemTotal:'') line of
          None \<Rightarrow> None
        | Some r \<Rightarrow> (case strip_suffix (ascii ''kB'') (trim r) of
            None \<Rightarrow> None
          | Some r \<Rightarrow> map_option (\<lambda>kb. of_nat kb div 1024) (from_str_radix 10 (2 ^ 64) (trim r))))))"

record SystemInfo =
  si_model :: bytes
  si_serial :: bytes
  si_eth0 :: bytes
  si_eth1 :: bytes
  si_soc :: bytes
  si_memory_mb :: "64 word"
  si_hw_part_number :: bytes

text \<open>\<open>collect\<close>, with the boot information and the board as they are when first read (both are cached).\<close>

definition collect :: "board \<Rightarrow> BootRootfsInfo \<Rightarrow> bytes option \<Rightarrow> SystemInfo" where
  "collect b boot ser =
    (let m = unwrap_or \<lparr>eth0 = [], eth1 = []\<rparr> (macs b) in
     \<lparr>si_model = unwrap_or [] (read_dt_string b ''/sys/firmware/devicetree/base/model''),
      si_serial = unwrap_or (serial m) ser, si_eth0 = eth0 m, si_eth1 = eth1 m,
      si_soc = unwrap_or [] (soc_id b), si_memory_mb = unwrap_or 0 (mem_total_mb b),
      si_hw_part_number = unwrap_or [] (hw_part_number boot)\<rparr>)"

subsection \<open>Notions for the properties\<close>

definition is_lower_hex :: "byte \<Rightarrow> bool" where
  "is_lower_hex c \<longleftrightarrow> is_ascii_digit c \<or> 97 \<le> c \<and> c \<le> 102"

text \<open>What every serial number but the one of \<^verbatim>\<open>/etc/wifi_mac\<close> looks like.\<close>

definition mac_text :: "bytes \<Rightarrow> bool" where
  "mac_text s \<longleftrightarrow> length s = 12 \<and> list_all is_lower_hex s"

definition hex_pairs :: "bytes \<Rightarrow> bytes" where
  "hex_pairs bs = concat (map (\<lambda>b. fmt_hex_lower 2 (unat b)) bs)"

text \<open>The cell the first MAC address of a system-on-chip is fused in, where it is not a U-Boot variable.\<close>

definition eth0_cell :: "bytes \<Rightarrow> string option" where
  "eth0_cell soc =
    (if soc = ascii ''i.MX95'' then Some (fst IMX95_MAC_CELLS)
     else if soc = ascii ''i.MX8MP'' then Some (fst IMX8MP_MAC_CELLS)
     else if soc = ascii ''i.MX8MM'' then Some IMX8MM_ETH0_MAC_CELL
     else if soc \<in> {ascii ''i.MX91'', ascii ''i.MX93''} then Some (fst IMX93_MAC_CELLS)
     else if soc \<in> {ascii ''AM62X'', ascii ''J722S'', ascii ''AM62LX''} then Some (fst AM62X_MAC_CELLS)
     else if soc = ascii ''sama5d36'' then Some (fst SOM60_MAC_CELLS)
     else None)"

definition sample_board :: board where
  "sample_board = \<lparr>read_file = (\<lambda>p. if p = ''/sys/devices/soc0/soc_id'' then Some (ascii ''i.MX93'')
      else if p = ''/sys/bus/nvmem/devices/ELE-OCOTP0/cells/mac-address@4ec,0'' then Some [0xC0, 0xEE, 0x40, 1, 2, 0xAF]
      else None), fw_printenv = (\<lambda>_. None), getrandom = Some [1, 2, 3, 4, 5, 6]\<rparr>"

lemma hex_digit_lower_hex: "d < 16 \<Longrightarrow> is_lower_hex (hex_digit_lower d)"
  by (erule hex_digit_cases) (simp add: upt_rec hex_digit_lower_def is_lower_hex_def is_ascii_digit_def)

lemma hex_digit_lower_inj: "d < 16 \<Longrightarrow> e < 16 \<Longrightarrow> hex_digit_lower d = hex_digit_lower e \<Longrightarrow> d = e"
proof -
  have dig: "d < 16 \<Longrightarrow> to_digit 16 (hex_digit_lower d) = Some d" for d
    by (erule hex_digit_cases)
      (simp add: upt_rec hex_digit_lower_def to_digit_def digit_value_def is_ascii_digit_def)
  assume "d < 16" "e < 16" "hex_digit_lower d = hex_digit_lower e"
  then show "d = e"
    by (metis dig option.inject)
qed

lemma hex_pair: "fmt_hex_lower 2 (unat (b :: byte)) = [hex_digit_lower (unat b div 16), hex_digit_lower (unat b mod 16)]"
  using byte_less [of b] by (simp add: fmt_hex_lower_def)

lemma hex_pairs_simps [simp]:
  "hex_pairs [] = []"
  "hex_pairs (b # bs) = hex_digit_lower (unat b div 16) # hex_digit_lower (unat b mod 16) # hex_pairs bs"
  by (simp_all add: hex_pairs_def hex_pair)

lemma length_hex_pairs: "length (hex_pairs bs) = 2 * length bs"
  by (induction bs) simp_all

lemma hex_pairs_lower: "list_all is_lower_hex (hex_pairs bs)"
proof (induction bs)
  case (Cons b bs)
  have "unat b div 16 < 16"
    using byte_less [of b] by simp
  with Cons show ?case
    by (simp add: hex_digit_lower_hex)
qed simp

lemma mac_text_hex_pairs: "length bs = 6 \<Longrightarrow> mac_text (hex_pairs bs)"
  by (simp add: mac_text_def length_hex_pairs hex_pairs_lower)

lemma hex_pairs_inj: "hex_pairs xs = hex_pairs ys \<Longrightarrow> xs = ys"
proof (induction xs arbitrary: ys)
  case Nil
  then show ?case
    by (cases ys) simp_all
next
  case (Cons x xs)
  then obtain y zs where ys: "ys = y # zs"
    by (cases ys) simp_all
  have "unat x div 16 < 16" "unat y div 16 < 16"
    using byte_less [of x] byte_less [of y] by simp_all
  then have "unat x div 16 = unat y div 16" "unat x mod 16 = unat y mod 16" "xs = zs"
    using Cons ys by (simp_all add: hex_digit_lower_inj)
  then have "unat x = unat y"
    by (metis div_mult_mod_eq)
  then show ?case
    using ys \<open>xs = zs\<close> by (simp add: word_unat_eq_iff)
qed

lemma format_serial_mac_eq: "format_serial_mac bs = (if length bs = 6 then Some (hex_pairs bs) else None)"
  by (simp add: format_serial_mac_def hex_pairs_def)

lemma to_lower_hexdigit: "is_ascii_hexdigit b \<Longrightarrow> is_lower_hex (to_lower b)"
proof -
  assume "is_ascii_hexdigit b"
  moreover have "65 \<le> unat b \<Longrightarrow> unat b \<le> 90 \<Longrightarrow> unat (b + 32) = unat b + 32"
    by (subst unat_add_lem [THEN iffD1]) (simp_all)
  ultimately show ?thesis
    by (auto simp: is_ascii_hexdigit_def is_lower_hex_def to_lower_def is_ascii_digit_def word_le_nat_alt)
qed

lemma uboot_mac_text: "read_uboot_value b v = Some s \<Longrightarrow> mac_text s"
  by (auto simp: read_uboot_value_def mac_text_def list_all_iff to_lower_hexdigit Let_def
      split: option.splits prod.splits if_splits)

lemma read_mac_cell_text: "read_mac_cell b p = Some s \<Longrightarrow> mac_text s"
  by (auto simp: read_mac_cell_def format_serial_mac_eq mac_text_hex_pairs split: option.splits if_splits)

lemma cell_mac_text: "unwrap_or [] (read_mac_cell b p) \<noteq> [] \<Longrightarrow> mac_text (unwrap_or [] (read_mac_cell b p))"
  by (cases "read_mac_cell b p") (auto simp: unwrap_or_def read_mac_cell_text)

lemma macs_eth0_text:
  assumes "macs b = Some m" "eth0 m \<noteq> []"
  shows "mac_text (eth0 m)"
proof -
  obtain soc where "soc_id b = Some soc"
    using assms(1) by (auto simp: macs_def split: option.splits)
  then consider c where "read_cell_macs b c = Some m" | p where "read_single_cell_mac b p = Some m"
    | v where "read_uboot_mac b v = Some m"
    using assms(1) by (auto simp: macs_def split: if_splits)
  then show ?thesis
  proof cases
    case 1
    with assms(2) show ?thesis
      using cell_mac_text by (auto simp: read_cell_macs_def)
  next
    case 2
    with assms(2) show ?thesis
      using cell_mac_text by (auto simp: read_single_cell_mac_def)
  next
    case 3
    then show ?thesis
      using uboot_mac_text by (auto simp: read_uboot_mac_def)
  qed
qed

lemma random_serial_text: "getrandom b = Some bs \<Longrightarrow> length bs = 6 \<Longrightarrow> \<exists>s. random_serial b = Some s \<and> mac_text s"
  using mac_text_hex_pairs by (simp add: random_serial_def hex_pairs_def)

lemma auto_serial_text:
  assumes "getrandom b = Some bs" "length bs = 6"
  shows "\<exists>s. auto_serial b = Some s \<and> mac_text s"
  using random_serial_text [OF assms] macs_eth0_text [of b]
  by (auto simp: auto_serial_def split: option.splits)

lemma resolve_serial_not_wifi:
  "source \<noteq> Some (ascii ''wifi_mac'') \<Longrightarrow> resolve_serial b source = auto_serial b"
  by (cases source) (simp_all add: resolve_serial_def unwrap_or_def)

lemma macs_eth0_cell:
  assumes "soc_id b = Some soc" "eth0_cell soc = Some p"
  shows "\<exists>m. macs b = Some m \<and> eth0 m = unwrap_or [] (read_mac_cell b p)"
  using assms by (auto simp: macs_def eth0_cell_def read_cell_macs_def read_single_cell_mac_def split: if_splits)

lemma auto_serial_cell:
  assumes "soc_id b = Some soc" "eth0_cell soc = Some p" "read_file b p = Some mac" "length mac = 6"
  shows "auto_serial b = Some (hex_pairs mac)"
proof -
  obtain m where m: "macs b = Some m" "eth0 m = hex_pairs mac"
    using macs_eth0_cell [OF assms(1,2)] assms(3,4)
    by (auto simp: read_mac_cell_def format_serial_mac_eq unwrap_or_def)
  moreover have "hex_pairs mac \<noteq> []"
    using assms(4) length_hex_pairs [of mac] by auto
  ultimately show ?thesis
    by (simp add: auto_serial_def)
qed


lemma sample_board_simps:
  "getrandom sample_board = Some [1, 2, 3, 4, 5, 6]"
  "soc_id sample_board = Some (ascii ''i.MX93'')"
  "read_file sample_board (fst IMX93_MAC_CELLS) = Some [0xC0, 0xEE, 0x40, 1, 2, 0xAF]"
  subgoal by (simp add: sample_board_def)
  subgoal by code_simp
  subgoal by code_simp
  done


end
