(* ===== verification/Ffs_Desc.thy ===== *)
theory Ffs_Desc
  imports Functionfs "HOL-Library.AList"
begin

text \<open>
  The descriptors of a user-space USB function: the builder of a custom function, its interfaces and endpoints
  (\<^verbatim>\<open>patches/usb-gadget/src/function/custom/mod.rs\<close>), the descriptors and strings it is translated to and their
  bytes (\<^verbatim>\<open>ffs.rs\<close>), and the two functions the daemon builds, DFU and fastboot.  A \<^verbatim>\<open>HashMap\<close> is the list of
  its entries in the order it is iterated.  The lemmas read the written block back, number the endpoints and resolve
  the name indices.
\<close>

unbundle bit_operations_syntax

subsection \<open>Building blocks of a custom function\<close>

record Class =
  cl_class :: byte
  cl_sub_class :: byte
  cl_protocol :: byte

definition class_new :: "byte \<Rightarrow> byte \<Rightarrow> byte \<Rightarrow> Class" where
  "class_new c s p = \<lparr>cl_class = c, cl_sub_class = s, cl_protocol = p\<rparr>"

definition DFU_MODE :: Class where
  "DFU_MODE = class_new 0xFE 0x01 0x02"

text \<open>A language is its code; English (United States) is the default.\<close>

type_synonym Language = "16 word"
type_synonym lang_strings = "(Language \<times> bytes) list"

definition default_language :: Language where
  "default_language = 0x0409"

datatype SyncType = NoSync | Async | Adaptive | Sync

datatype UsageType = UsageData | Feedback | ImplicitFeedback

datatype TransferType = Control | Isochronous SyncType UsageType | Bulk | Interrupt

fun sync_attributes :: "SyncType \<Rightarrow> byte" where
  "sync_attributes NoSync = push_bit 2 0b00"
| "sync_attributes Async = push_bit 2 0b01"
| "sync_attributes Adaptive = push_bit 2 0b10"
| "sync_attributes Sync = push_bit 2 0b11"

fun usage_attributes :: "UsageType \<Rightarrow> byte" where
  "usage_attributes UsageData = push_bit 4 0b00"
| "usage_attributes Feedback = push_bit 4 0b01"
| "usage_attributes ImplicitFeedback = push_bit 4 0b10"

fun to_attributes :: "TransferType \<Rightarrow> byte" where
  "to_attributes Control = 0b00"
| "to_attributes (Isochronous s u) = 0b01 OR sync_attributes s OR usage_attributes u"
| "to_attributes Bulk = 0b10"
| "to_attributes Interrupt = 0b11"

record EndpointDirection =
  ed_direction :: Direction
  queue_len :: "32 word"

definition DEFAULT_QUEUE_LEN :: "32 word" where
  "DEFAULT_QUEUE_LEN = 16"

definition device_to_host :: EndpointDirection where
  "device_to_host = \<lparr>ed_direction = DeviceToHost, queue_len = DEFAULT_QUEUE_LEN\<rparr>"

definition host_to_device :: EndpointDirection where
  "host_to_device = \<lparr>ed_direction = HostToDevice, queue_len = DEFAULT_QUEUE_LEN\<rparr>"

definition with_queue_len :: "32 word \<Rightarrow> EndpointDirection \<Rightarrow> EndpointDirection" where
  "with_queue_len n d = d\<lparr>queue_len := n\<rparr>"

record Endpoint =
  ep_direction :: EndpointDirection
  ep_transfer :: TransferType
  max_packet_size_hs :: "16 word"
  max_packet_size_ss :: "16 word"
  max_burst_ss :: byte
  bytes_per_interval_ss :: "16 word"
  ep_interval :: byte
  ep_audio :: "(byte \<times> byte) option"

definition endpoint_custom :: "EndpointDirection \<Rightarrow> TransferType \<Rightarrow> Endpoint" where
  "endpoint_custom d t = \<lparr>ep_direction = d, ep_transfer = t, max_packet_size_hs = 512,
     max_packet_size_ss = 1024, max_burst_ss = 0, bytes_per_interval_ss = 0,
     ep_interval = (case ed_direction d of DeviceToHost \<Rightarrow> 0 | HostToDevice \<Rightarrow> 1), ep_audio = None\<rparr>"

definition endpoint_bulk :: "EndpointDirection \<Rightarrow> Endpoint" where
  "endpoint_bulk d = endpoint_custom d Bulk"

record OsExtCompat =
  compatible_id :: bytes
  sub_compatible_id :: bytes

definition winusb :: OsExtCompat where
  "winusb = \<lparr>compatible_id = ascii ''WINUSB'' @ [0, 0], sub_compatible_id = replicate 8 0\<rparr>"

datatype OsRegValue =
    Sz bytes
  | ExpandSz bytes
  | Binary bytes
  | DwordLe "32 word"
  | DwordBe "32 word"
  | Link bytes
  | MultiSz "bytes list"

fun as_type :: "OsRegValue \<Rightarrow> 32 word" where
  "as_type (Sz _) = 1"
| "as_type (ExpandSz _) = 2"
| "as_type (Binary _) = 3"
| "as_type (DwordLe _) = 4"
| "as_type (DwordBe _) = 5"
| "as_type (Link _) = 6"
| "as_type (MultiSz _) = 7"

fun as_bytes :: "OsRegValue \<Rightarrow> bytes" where
  "as_bytes (Sz s) = s @ [0]"
| "as_bytes (ExpandSz s) = s @ [0]"
| "as_bytes (Binary s) = s"
| "as_bytes (DwordLe v) = le_bytes 4 (unat v)"
| "as_bytes (DwordBe v) = be_bytes 4 (unat v)"
| "as_bytes (Link s) = s @ [0]"
| "as_bytes (MultiSz ss) = concat (map (\<lambda>s. s @ [0]) ss)"

record OsExtProp =
  prop_name :: bytes
  prop_value :: OsRegValue

record CustomDesc =
  descriptor_type :: byte
  cd_data :: bytes

text \<open>\<^verbatim>\<open>impl From<DfuDesc> for CustomDesc\<close>.\<close>

definition dfu_custom_desc :: "DfuDesc \<Rightarrow> CustomDesc" where
  "dfu_custom_desc d =
    (let attrs = of_bool (can_download d) OR push_bit 1 (of_bool (can_upload d))
           OR push_bit 2 (of_bool (manifest_tolerant d)) OR push_bit 3 (of_bool (will_detach d)) :: byte;
         bcd = push_bit 8 (ucast (fst (dfu_version d))) OR push_bit 4 (ucast (snd (dfu_version d))) :: 16 word
     in \<lparr>descriptor_type = 0x21, cd_data = [attrs] @ le_bytes 2 (unat (detach_timeout_ms d)) @
           le_bytes 2 (unat (desc_transfer_size d)) @ le_bytes 2 (unat bcd)\<rparr>)"

text \<open>Two associations are equal only when they share the allocation \<open>assoc_addr\<close>.\<close>

record Association =
  assoc_addr :: nat
  function_class :: Class
  assoc_name :: lang_strings

record Interface =
  interface_class :: Class
  if_name :: lang_strings
  endpoints :: "Endpoint list"
  association :: "Association option"
  os_ext_compat :: "OsExtCompat list"
  os_ext_props :: "OsExtProp list"
  custom_descs :: "CustomDesc list"

definition interface_new :: "Class \<Rightarrow> bytes \<Rightarrow> Interface" where
  "interface_new c n = \<lparr>interface_class = c, if_name = [(default_language, n)], endpoints = [],
     association = None, os_ext_compat = [], os_ext_props = [], custom_descs = []\<rparr>"

type_synonym path = "bytes list"

record CustomBuilder =
  interfaces :: "Interface list"
  all_ctrl_recipient :: bool
  config0_setup :: bool
  cb_ffs_dir :: "path option"
  ffs_root_mode :: "32 word option"
  ffs_file_mode :: "32 word option"
  ffs_uid :: "32 word option"
  ffs_gid :: "32 word option"
  ffs_no_disconnect :: bool
  ffs_no_init :: bool
  ffs_no_mount :: bool

definition custom_builder :: CustomBuilder where
  "custom_builder = \<lparr>interfaces = [], all_ctrl_recipient = False, config0_setup = False,
     cb_ffs_dir = None, ffs_root_mode = None, ffs_file_mode = None, ffs_uid = None, ffs_gid = None,
     ffs_no_disconnect = False, ffs_no_init = False, ffs_no_mount = False\<rparr>"

definition with_interface :: "Interface \<Rightarrow> CustomBuilder \<Rightarrow> CustomBuilder" where
  "with_interface i b = b\<lparr>interfaces := interfaces b @ [i]\<rparr>"

subsection \<open>Descriptors and their bytes\<close>

datatype ffs_error = StringsDifferAcrossLanguages | Overflow

fun ffs_io_error :: "ffs_error \<Rightarrow> io_error" where
  "ffs_io_error StringsDifferAcrossLanguages = Custom InvalidInput (Text ''string count differs across languages'')"
| "ffs_io_error Overflow = Custom InvalidInput (Text ''too many descriptor entries'')"

record InterfaceDesc =
  interface_number :: byte
  alternate_setting :: byte
  num_endpoints :: byte
  id_class :: byte
  id_sub_class :: byte
  id_protocol :: byte
  id_name_idx :: byte

record EndpointDesc =
  endpoint_address :: byte
  ed_attributes :: byte
  max_packet_size :: "16 word"
  ed_interval :: byte
  ed_audio :: "(byte \<times> byte) option"

record SsEndpointComp =
  max_burst :: byte
  ss_attributes :: byte
  bytes_per_interval :: "16 word"

record InterfaceAssocDesc =
  first_interface :: byte
  interface_count :: byte
  ia_class :: byte
  ia_sub_class :: byte
  ia_protocol :: byte
  ia_name_idx :: byte

datatype Desc =
    DInterface InterfaceDesc
  | DEndpoint EndpointDesc
  | DSsEndpointComp SsEndpointComp
  | DInterfaceAssoc InterfaceAssocDesc
  | DCustom CustomDesc

definition write_interface :: "InterfaceDesc \<Rightarrow> bytes" where
  "write_interface d = [0x04, interface_number d, alternate_setting d, num_endpoints d, id_class d,
     id_sub_class d, id_protocol d, id_name_idx d]"

definition write_endpoint :: "EndpointDesc \<Rightarrow> bytes" where
  "write_endpoint d = [0x05, endpoint_address d, ed_attributes d] @ le_bytes 2 (unat (max_packet_size d)) @
     [ed_interval d] @ (case ed_audio d of None \<Rightarrow> [] | Some (refresh, synch) \<Rightarrow> [refresh, synch])"

definition write_ss_comp :: "SsEndpointComp \<Rightarrow> bytes" where
  "write_ss_comp d = [0x30, max_burst d, ss_attributes d] @ le_bytes 2 (unat (bytes_per_interval d))"

definition write_assoc :: "InterfaceAssocDesc \<Rightarrow> bytes" where
  "write_assoc d = [0x0b, first_interface d, interface_count d, ia_class d, ia_sub_class d,
     ia_protocol d, ia_name_idx d]"

definition write_custom :: "CustomDesc \<Rightarrow> bytes" where
  "write_custom d = descriptor_type d # cd_data d"

fun write_desc :: "Desc \<Rightarrow> bytes" where
  "write_desc (DInterface d) = write_interface d"
| "write_desc (DEndpoint d) = write_endpoint d"
| "write_desc (DSsEndpointComp d) = write_ss_comp d"
| "write_desc (DInterfaceAssoc d) = write_assoc d"
| "write_desc (DCustom d) = write_custom d"

definition desc_to_bytes :: "Desc \<Rightarrow> ffs_error + bytes" where
  "desc_to_bytes d =
    (let n = 1 + length (write_desc d) in if n < 2 ^ 8 then Inr (of_nat n # write_desc d) else Inl Overflow)"

text \<open>\<open>EndpointDesc::parse\<close>; every read past the end is \<^verbatim>\<open>UnexpectedEof\<close>.\<close>

definition endpoint_parse :: "bytes \<Rightarrow> io_error + EndpointDesc" where
  "endpoint_parse bs =
    (let eof = Custom UnexpectedEof (Text ''failed to fill whole buffer'') in
     case bs of
       [] \<Rightarrow> Inl eof
     | sz # r0 \<Rightarrow>
        if sz \<noteq> 7 \<and> sz \<noteq> 9 then Inl (Custom InvalidData (Text ''endpoint descriptor size mismatch''))
        else (case r0 of
            [] \<Rightarrow> Inl eof
          | ty # r1 \<Rightarrow>
             if ty \<noteq> 0x05 then Inl (Custom InvalidData (Text ''endpoint descriptor type mismatch''))
             else (case r1 of
                 addr # attr # m0 # m1 # iv # r2 \<Rightarrow>
                   let d = (\<lambda>au. \<lparr>endpoint_address = addr, ed_attributes = attr,
                         max_packet_size = of_nat (of_le [m0, m1]), ed_interval = iv, ed_audio = au\<rparr>)
                   in if sz = 9
                      then (case r2 of refresh # synch # _ \<Rightarrow> Inr (d (Some (refresh, synch))) | _ \<Rightarrow> Inl eof)
                      else Inr (d None)
               | _ \<Rightarrow> Inl eof)))"

fun each_result :: "('a \<Rightarrow> 'e + bytes) \<Rightarrow> 'a list \<Rightarrow> 'e + bytes" where
  "each_result f [] = Inr []"
| "each_result f (x # xs) = (case f x of Inl e \<Rightarrow> Inl e
    | Inr b \<Rightarrow> (case each_result f xs of Inl e \<Rightarrow> Inl e | Inr r \<Rightarrow> Inr (b @ r)))"

text \<open>The extended descriptors of an interface, as FunctionFS takes them.\<close>

record OsExtCompatDesc =
  first_interface_number :: byte
  oc_compatible_id :: bytes
  oc_sub_compatible_id :: bytes

record OsExtPropDesc =
  data_type :: "32 word"
  od_name :: bytes
  od_data :: bytes

datatype OsDescExt = ExtCompat "OsExtCompatDesc list" | ExtProp "OsExtPropDesc list"

record OsDesc =
  os_interface :: byte
  os_ext :: OsDescExt

definition write_compat :: "OsExtCompatDesc \<Rightarrow> bytes" where
  "write_compat c = [first_interface_number c, 1] @ oc_compatible_id c @ oc_sub_compatible_id c @ replicate 6 0"

definition prop_to_bytes :: "OsExtPropDesc \<Rightarrow> ffs_error + bytes" where
  "prop_to_bytes p =
    (if length (od_name p) < 2 ^ 16 then
       if length (od_data p) < 2 ^ 32 then
         let rest = le_bytes 4 (unat (data_type p)) @ le_bytes 2 (length (od_name p)) @ od_name p @
               le_bytes 4 (length (od_data p)) @ od_data p;
             n = 4 + length rest
         in if n < 2 ^ 32 then Inr (le_bytes 4 n @ rest) else Inl Overflow
       else Inl Overflow
     else Inl Overflow)"

text \<open>\<open>ver\<close> is the version of the running kernel, (0, 0) when it is unknown.\<close>

fun write_ext :: "nat \<times> nat \<Rightarrow> OsDescExt \<Rightarrow> ffs_error + bytes" where
  "write_ext ver (ExtCompat cs) =
    (if length cs < 2 ^ 8 then
       Inr (le_bytes 2 (if 6 < fst ver \<or> fst ver = 6 \<and> 4 \<le> snd ver then 0x0100 else 0x0001) @ le_bytes 2 4 @
         [of_nat (length cs), 0] @ concat (map write_compat cs))
     else Inl Overflow)"
| "write_ext ver (ExtProp ps) =
    (if length ps < 2 ^ 16 then
       map_sum id (\<lambda>body. le_bytes 2 (if 6 < fst ver \<or> fst ver = 6 \<and> 4 \<le> snd ver then 0x0100 else 0x0001) @
         le_bytes 2 5 @ le_bytes 2 (length ps) @ body) (each_result prop_to_bytes ps)
     else Inl Overflow)"

definition os_desc_to_bytes :: "nat \<times> nat \<Rightarrow> OsDesc \<Rightarrow> ffs_error + bytes" where
  "os_desc_to_bytes ver d = (case write_ext ver (os_ext d) of
      Inl e \<Rightarrow> Inl e
    | Inr body \<Rightarrow> let n = 5 + length body in
        if n < 2 ^ 32 then Inr (os_interface d # le_bytes 4 n @ body) else Inl Overflow)"

record Descs =
  flags :: "32 word"
  eventfd :: "32 word option"
  fs_descrs :: "Desc list"
  hs_descrs :: "Desc list"
  ss_descrs :: "Desc list"
  os_descrs :: "OsDesc list"

definition MAGIC_V2 :: nat where
  "MAGIC_V2 = 3"

text \<open>The flags the descriptor block is written with: all four kinds of descriptors are announced.\<close>

definition descs_flags :: "Descs \<Rightarrow> 32 word" where
  "descs_flags d =
    (let fl = flags d OR 0b1111 in case eventfd d of None \<Rightarrow> fl AND NOT 32 | Some _ \<Rightarrow> fl OR 32)"

definition descs_to_bytes :: "nat \<times> nat \<Rightarrow> Descs \<Rightarrow> ffs_error + bytes" where
  "descs_to_bytes ver d =
    (if length (fs_descrs d) < 2 ^ 32 \<and> length (hs_descrs d) < 2 ^ 32 \<and> length (ss_descrs d) < 2 ^ 32 \<and>
        length (os_descrs d) < 2 ^ 32 then
       (case each_result desc_to_bytes (fs_descrs d @ hs_descrs d @ ss_descrs d) of
          Inl e \<Rightarrow> Inl e
        | Inr body \<Rightarrow> (case each_result (os_desc_to_bytes ver) (os_descrs d) of
            Inl e \<Rightarrow> Inl e
          | Inr os \<Rightarrow>
             let rest = le_bytes 4 (unat (descs_flags d)) @
                   (case eventfd d of None \<Rightarrow> [] | Some fd \<Rightarrow> le_bytes 4 (unat fd)) @
                   le_bytes 4 (length (fs_descrs d)) @ le_bytes 4 (length (hs_descrs d)) @
                   le_bytes 4 (length (ss_descrs d)) @ le_bytes 4 (length (os_descrs d)) @ body @ os;
                 n = 8 + length rest
             in if n < 2 ^ 32 then Inr (le_bytes 4 MAGIC_V2 @ le_bytes 4 n @ rest) else Inl Overflow))
     else Inl Overflow)"

type_synonym FfsStrings = "(Language \<times> bytes list) list"

definition str_count :: "FfsStrings \<Rightarrow> nat" where
  "str_count s = (case s of [] \<Rightarrow> 0 | (_, v) # _ \<Rightarrow> length v)"

definition strings_to_bytes :: "FfsStrings \<Rightarrow> ffs_error + bytes" where
  "strings_to_bytes s =
    (if list_all (\<lambda>(_, v). length v = str_count s) s then
       if str_count s < 2 ^ 32 \<and> length s < 2 ^ 32 then
         let rest = le_bytes 4 (str_count s) @ le_bytes 4 (length s) @
               concat (map (\<lambda>(l, v). le_bytes 2 (unat l) @ concat (map (\<lambda>t. t @ [0]) v)) s);
             n = 8 + length rest
         in if n < 2 ^ 32 then Inr (le_bytes 4 2 @ le_bytes 4 n @ rest) else Inl Overflow
       else Inl Overflow
     else Inl StringsDifferAcrossLanguages)"

subsection \<open>Descriptors of a custom function\<close>

text \<open>The closure \<open>add_strings\<close>: one more string in every language, and its index.\<close>

definition add_strings :: "lang_strings \<Rightarrow> FfsStrings \<Rightarrow> FfsStrings" where
  "add_strings strs s =
    map (\<lambda>(l, v). (l, v @ [case map_of strs l of Some t \<Rightarrow> t | None \<Rightarrow> []])) s @
    map (\<lambda>(l, t). (l, replicate (str_count s) [] @ [t])) (filter (\<lambda>(l, _). l \<notin> fst ` set s) strs)"

definition string_index :: "FfsStrings \<Rightarrow> io_error + byte" where
  "string_index s = (if str_count s + 1 < 2 ^ 8 then Inr (of_nat (str_count s + 1))
     else Inl (Custom InvalidInput (Text ''too many strings'')))"

record desc_build =
  b_strings :: FfsStrings
  b_fs :: "Desc list"
  b_hs :: "Desc list"
  b_ss :: "Desc list"
  b_os :: "OsDesc list"
  endpoint_num :: byte
  assocs :: "(Association \<times> InterfaceAssocDesc) list"

definition push_all :: "Desc \<Rightarrow> desc_build \<Rightarrow> desc_build" where
  "push_all d b = b\<lparr>b_fs := b_fs b @ [d], b_hs := b_hs b @ [d], b_ss := b_ss b @ [d]\<rparr>"

definition DIR_IN :: byte where
  "DIR_IN = 0x80"

definition DIR_OUT :: byte where
  "DIR_OUT = 0x00"

definition ep_desc :: "byte \<Rightarrow> Endpoint \<Rightarrow> EndpointDesc" where
  "ep_desc n e = \<lparr>endpoint_address = (case ed_direction (ep_direction e) of
        DeviceToHost \<Rightarrow> n OR DIR_IN | HostToDevice \<Rightarrow> n OR DIR_OUT),
     ed_attributes = to_attributes (ep_transfer e), max_packet_size = 0, ed_interval = ep_interval e,
     ed_audio = ep_audio e\<rparr>"

definition add_endpoint :: "Endpoint \<Rightarrow> desc_build \<Rightarrow> io_error + desc_build" where
  "add_endpoint e b =
    (let n = endpoint_num b + 1 in
     if n \<ge> DIR_IN then Inl (Custom InvalidInput (Text ''too many endpoints''))
     else let d = ep_desc n e in
       Inr (b\<lparr>endpoint_num := n, b_fs := b_fs b @ [DEndpoint d],
         b_hs := b_hs b @ [DEndpoint (d\<lparr>max_packet_size := max_packet_size_hs e\<rparr>)],
         b_ss := b_ss b @ [DEndpoint (d\<lparr>max_packet_size := max_packet_size_ss e\<rparr>),
           DSsEndpointComp \<lparr>max_burst = max_burst_ss e, ss_attributes = 0,
             bytes_per_interval = bytes_per_interval_ss e\<rparr>]\<rparr>))"

fun add_endpoints :: "Endpoint list \<Rightarrow> desc_build \<Rightarrow> io_error + desc_build" where
  "add_endpoints [] b = Inr b"
| "add_endpoints (e # es) b = (case add_endpoint e b of Inl x \<Rightarrow> Inl x | Inr b' \<Rightarrow> add_endpoints es b')"

text \<open>Additions on the interface numbers wrap: overflow checks are off in the release profile.\<close>

definition add_association :: "byte \<Rightarrow> Association \<Rightarrow> desc_build \<Rightarrow> io_error + desc_build" where
  "add_association n a b =
    (let check = (\<lambda>iad b. if first_interface iad + n \<noteq> n
           then Inl (Custom InvalidInput (Text ''associated interfaces must be adjacent''))
           else Inr (b\<lparr>assocs := AList.update a (iad\<lparr>interface_count := interface_count iad + 1\<rparr>) (assocs b)\<rparr>))
     in case map_of (assocs b) a of
          Some iad \<Rightarrow> check iad b
        | None \<Rightarrow> (case string_index (b_strings b) of
            Inl e \<Rightarrow> Inl e
          | Inr idx \<Rightarrow> check \<lparr>first_interface = n, interface_count = 0, ia_class = cl_class (function_class a),
                ia_sub_class = cl_sub_class (function_class a), ia_protocol = cl_protocol (function_class a),
                ia_name_idx = idx\<rparr> (b\<lparr>b_strings := add_strings (assoc_name a) (b_strings b)\<rparr>)))"

definition as_os_ext_prop :: "OsExtProp \<Rightarrow> OsExtPropDesc" where
  "as_os_ext_prop p = \<lparr>data_type = as_type (prop_value p), od_name = prop_name p @ [0],
     od_data = as_bytes (prop_value p)\<rparr>"

definition add_os_descs :: "byte \<Rightarrow> Interface \<Rightarrow> desc_build \<Rightarrow> desc_build" where
  "add_os_descs n i b = b\<lparr>b_os := b_os b @
     (if os_ext_compat i = [] then [] else [\<lparr>os_interface = n, os_ext = ExtCompat (map (\<lambda>c.
        \<lparr>first_interface_number = n, oc_compatible_id = compatible_id c,
         oc_sub_compatible_id = sub_compatible_id c\<rparr>) (os_ext_compat i))\<rparr>]) @
     (if os_ext_props i = [] then [] else
        [\<lparr>os_interface = n, os_ext = ExtProp (map as_os_ext_prop (os_ext_props i))\<rparr>])\<rparr>"

definition add_interface :: "nat \<Rightarrow> Interface \<Rightarrow> desc_build \<Rightarrow> io_error + desc_build" where
  "add_interface k i b =
    (if \<not> k < 2 ^ 8 then Inl (Custom InvalidInput (Text ''too many interfaces''))
     else if \<not> length (endpoints i) < 2 ^ 8 then Inl (Custom InvalidInput (Text ''too many endpoints''))
     else case string_index (b_strings b) of
       Inl e \<Rightarrow> Inl e
     | Inr idx \<Rightarrow>
        let n = of_nat k;
            b = b\<lparr>b_strings := add_strings (if_name i) (b_strings b)\<rparr>;
            b = push_all (DInterface \<lparr>interface_number = n, alternate_setting = 0,
                  num_endpoints = of_nat (length (endpoints i)), id_class = cl_class (interface_class i),
                  id_sub_class = cl_sub_class (interface_class i), id_protocol = cl_protocol (interface_class i),
                  id_name_idx = idx\<rparr>) b;
            b = fold (\<lambda>c. push_all (DCustom c)) (custom_descs i) b
        in case add_endpoints (endpoints i) b of
             Inl e \<Rightarrow> Inl e
           | Inr b \<Rightarrow> (case (case association i of None \<Rightarrow> Inr b | Some a \<Rightarrow> add_association n a b) of
               Inl e \<Rightarrow> Inl e
             | Inr b \<Rightarrow> Inr (add_os_descs n i b)))"

fun add_interfaces :: "nat \<Rightarrow> Interface list \<Rightarrow> desc_build \<Rightarrow> io_error + desc_build" where
  "add_interfaces k [] b = Inr b"
| "add_interfaces k (i # is) b = (case add_interface k i b of Inl e \<Rightarrow> Inl e | Inr b' \<Rightarrow> add_interfaces (k + 1) is b')"

definition empty_build :: desc_build where
  "empty_build = \<lparr>b_strings = [], b_fs = [], b_hs = [], b_ss = [], b_os = [], endpoint_num = 0, assocs = []\<rparr>"

definition ffs_descs :: "CustomBuilder \<Rightarrow> io_error + Descs \<times> FfsStrings" where
  "ffs_descs c = (case add_interfaces 0 (interfaces c) empty_build of
      Inl e \<Rightarrow> Inl e
    | Inr b \<Rightarrow>
       let b = fold (\<lambda>(_, iad). push_all (DInterfaceAssoc iad)) (assocs b) b;
           fl = (if all_ctrl_recipient c then 64 else 0) OR (if config0_setup c then 128 else 0)
       in Inr (\<lparr>flags = fl, eventfd = None, fs_descrs = b_fs b, hs_descrs = b_hs b, ss_descrs = b_ss b,
            os_descrs = b_os b\<rparr>, b_strings b))"

definition ffs_descriptors_and_strings :: "nat \<times> nat \<Rightarrow> CustomBuilder \<Rightarrow> io_error + bytes \<times> bytes" where
  "ffs_descriptors_and_strings ver c = (case ffs_descs c of
      Inl e \<Rightarrow> Inl e
    | Inr (d, s) \<Rightarrow> (case descs_to_bytes ver d of
        Inl e \<Rightarrow> Inl (ffs_io_error e)
      | Inr db \<Rightarrow> (case strings_to_bytes s of Inl e \<Rightarrow> Inl (ffs_io_error e) | Inr sb \<Rightarrow> Inr (db, sb))))"

subsection \<open>The functions of the daemon\<close>

definition dfu_builder :: "DfuConfig \<Rightarrow> CustomBuilder" where
  "dfu_builder c = with_interface
     ((interface_new DFU_MODE (ascii ''swupdate''))\<lparr>custom_descs := [dfu_custom_desc (descriptor c)]\<rparr>) custom_builder"

definition fastboot_custom :: CustomBuilder where
  "fastboot_custom = with_interface
     ((interface_new (class_new 0xff 0x42 0x03) (ascii ''fastboot-usb''))\<lparr>
        endpoints := [endpoint_bulk (with_queue_len 1 host_to_device), endpoint_bulk device_to_host],
        os_ext_compat := [winusb]\<rparr>) custom_builder"

text \<open>The descriptors of the fastboot function, written out.\<close>

definition fastboot_endpoint :: "byte \<Rightarrow> byte \<Rightarrow> 16 word \<Rightarrow> Desc" where
  "fastboot_endpoint a iv m = DEndpoint \<lparr>endpoint_address = a, ed_attributes = 2, max_packet_size = m,
     ed_interval = iv, ed_audio = None\<rparr>"

definition fastboot_descs :: Descs where
  "fastboot_descs =
    (let i = DInterface \<lparr>interface_number = 0, alternate_setting = 0, num_endpoints = 2, id_class = 0xff,
           id_sub_class = 0x42, id_protocol = 0x03, id_name_idx = 1\<rparr>;
         comp = DSsEndpointComp \<lparr>max_burst = 0, ss_attributes = 0, bytes_per_interval = 0\<rparr>
     in \<lparr>flags = 0, eventfd = None, fs_descrs = [i, fastboot_endpoint 0x01 1 0, fastboot_endpoint 0x82 0 0],
         hs_descrs = [i, fastboot_endpoint 0x01 1 512, fastboot_endpoint 0x82 0 512],
         ss_descrs = [i, fastboot_endpoint 0x01 1 1024, comp, fastboot_endpoint 0x82 0 1024, comp],
         os_descrs = [\<lparr>os_interface = 0, os_ext = ExtCompat [\<lparr>first_interface_number = 0,
           oc_compatible_id = ascii ''WINUSB'' @ [0, 0], oc_sub_compatible_id = replicate 8 0\<rparr>]\<rparr>]\<rparr>)"

subsection \<open>Notions for the properties\<close>

text \<open>
  The block as FunctionFS reads it: the magic number, the length of the whole block, the flags, an event
  descriptor when flagged, the number of descriptors of each kind, then the descriptors, each of which begins with
  its own length.
\<close>

fun take_descs :: "nat \<Rightarrow> bytes \<Rightarrow> (bytes list \<times> bytes) option" where
  "take_descs 0 bs = Some ([], bs)"
| "take_descs (Suc n) bs = (case bs of
      [] \<Rightarrow> None
    | l # _ \<Rightarrow> if unat l < 2 \<or> length bs < unat l then None
        else map_option (\<lambda>(ds, r). (take (unat l) bs # ds, r)) (take_descs n (drop (unat l) bs)))"

fun take_os_descs :: "nat \<Rightarrow> bytes \<Rightarrow> (bytes list \<times> bytes) option" where
  "take_os_descs 0 bs = Some ([], bs)"
| "take_os_descs (Suc n) bs =
    (let l = of_le (take 4 (drop 1 bs)) in
     if length bs < 5 \<or> l < 5 \<or> length bs < l then None
     else map_option (\<lambda>(ds, r). (take l bs # ds, r)) (take_os_descs n (drop l bs)))"

definition field :: "nat \<Rightarrow> bytes \<Rightarrow> nat" where
  "field off bs = of_le (take 4 (drop off bs))"

record ffs_block =
  blk_flags :: nat
  blk_fs :: "bytes list"
  blk_hs :: "bytes list"
  blk_ss :: "bytes list"
  blk_os :: "bytes list"

definition counts_at :: "nat \<Rightarrow> nat" where
  "counts_at fl = (if fl div 32 mod 2 = 1 then 16 else 12)"

definition read_desc_block :: "bytes \<Rightarrow> ffs_block option" where
  "read_desc_block bs =
    (if field 0 bs \<noteq> 3 \<or> field 4 bs \<noteq> length bs then None
     else let fl = field 8 bs; o' = counts_at fl in
       case take_descs (field o' bs) (drop (o' + 16) bs) of None \<Rightarrow> None | Some (f, r) \<Rightarrow>
       case take_descs (field (o' + 4) bs) r of None \<Rightarrow> None | Some (h, r) \<Rightarrow>
       case take_descs (field (o' + 8) bs) r of None \<Rightarrow> None | Some (s, r) \<Rightarrow>
       case take_os_descs (field (o' + 12) bs) r of None \<Rightarrow> None | Some (os, r) \<Rightarrow>
         if r = [] then Some \<lparr>blk_flags = fl, blk_fs = f, blk_hs = h, blk_ss = s, blk_os = os\<rparr> else None)"

definition desc_wire :: "Desc \<Rightarrow> bytes" where
  "desc_wire d = of_nat (1 + length (write_desc d)) # write_desc d"

definition os_desc_wire :: "nat \<times> nat \<Rightarrow> OsDesc \<Rightarrow> bytes" where
  "os_desc_wire ver d = (case os_desc_to_bytes ver d of Inr b \<Rightarrow> b | Inl _ \<Rightarrow> [])"

text \<open>A block of 32-bit fields read back one by one.\<close>

definition words_le :: "nat list \<Rightarrow> bytes" where
  "words_le ws = concat (map (le_bytes 4) ws)"

definition event_words :: "Descs \<Rightarrow> nat list" where
  "event_words d = (case eventfd d of None \<Rightarrow> [] | Some fd \<Rightarrow> [unat fd])"

definition desc_counts :: "Descs \<Rightarrow> nat list" where
  "desc_counts d = [length (fs_descrs d), length (hs_descrs d), length (ss_descrs d), length (os_descrs d)]"

definition counts_fit :: "Descs \<Rightarrow> bool" where
  "counts_fit d \<longleftrightarrow> list_all (\<lambda>n. n < 2 ^ 32) (desc_counts d)"

definition block_header :: "Descs \<Rightarrow> nat \<Rightarrow> nat list" where
  "block_header d n = [3, n, unat (descs_flags d)] @ event_words d @ desc_counts d"

text \<open>The addresses of the endpoint descriptors in a list, and the ones the endpoints of a function should have.\<close>

fun addresses :: "Desc list \<Rightarrow> byte list" where
  "addresses [] = []"
| "addresses (DEndpoint e # ds) = endpoint_address e # addresses ds"
| "addresses (_ # ds) = addresses ds"

definition direction_bit :: "Endpoint \<Rightarrow> byte" where
  "direction_bit e = (case ed_direction (ep_direction e) of DeviceToHost \<Rightarrow> 0x80 | HostToDevice \<Rightarrow> 0)"

fun numbered :: "nat \<Rightarrow> Endpoint list \<Rightarrow> byte list" where
  "numbered k [] = []"
| "numbered k (e # es) = (of_nat (Suc k) OR direction_bit e) # numbered (Suc k) es"

text \<open>The names the interface descriptors refer to.\<close>

fun interface_names :: "Desc list \<Rightarrow> byte list" where
  "interface_names [] = []"
| "interface_names (DInterface i # ds) = id_name_idx i # interface_names ds"
| "interface_names (_ # ds) = interface_names ds"

definition denotes :: "FfsStrings \<Rightarrow> byte \<Rightarrow> lang_strings \<Rightarrow> bool" where
  "denotes s j nm \<longleftrightarrow> 1 \<le> unat j \<and> unat j \<le> str_count s \<and> fst ` set nm \<subseteq> fst ` set s \<and>
    list_all (\<lambda>(l, v). v ! (unat j - 1) = (case map_of nm l of Some t \<Rightarrow> t | None \<Rightarrow> [])) s"

definition uniform :: "FfsStrings \<Rightarrow> bool" where
  "uniform s \<longleftrightarrow> list_all (\<lambda>(_, v). length v = str_count s) s"

text \<open>What \<open>add_endpoints\<close>, and so every interface, does to the three lists.\<close>

definition extends :: "Endpoint list \<Rightarrow> desc_build \<Rightarrow> desc_build \<Rightarrow> bool" where
  "extends es b b' \<longleftrightarrow> unat (endpoint_num b') = unat (endpoint_num b) + length es \<and> unat (endpoint_num b') < 128 \<and>
    addresses (b_fs b') = addresses (b_fs b) @ numbered (unat (endpoint_num b)) es \<and>
    addresses (b_hs b') = addresses (b_hs b) @ numbered (unat (endpoint_num b)) es \<and>
    addresses (b_ss b') = addresses (b_ss b) @ numbered (unat (endpoint_num b)) es"

text \<open>Interface by interface, the three lists grow by the numbered endpoints, and the new name is the interface's.\<close>

definition well_named :: "lang_strings \<Rightarrow> bool" where
  "well_named nm \<longleftrightarrow> nm \<noteq> [] \<and> distinct (map fst nm)"

definition interface_named :: "Interface \<Rightarrow> bool" where
  "interface_named i \<longleftrightarrow> well_named (if_name i) \<and>
    (case association i of None \<Rightarrow> True | Some a \<Rightarrow> well_named (assoc_name a))"

definition names_ok :: "Interface list \<Rightarrow> desc_build \<Rightarrow> bool" where
  "names_ok is b \<longleftrightarrow> uniform (b_strings b) \<and>
    list_all2 (\<lambda>j i. denotes (b_strings b) j (if_name i)) (interface_names (b_fs b)) is"

lemma fastboot_custom_descs:
  "ffs_descs fastboot_custom = Inr (fastboot_descs, [(default_language, [ascii ''fastboot-usb''])])"
  by code_simp

lemma write_desc_nonempty: "write_desc d \<noteq> []"
  by (cases d) (simp_all add: write_interface_def write_endpoint_def write_ss_comp_def write_assoc_def write_custom_def)

lemma desc_to_bytes_Inr:
  "desc_to_bytes d = Inr b \<longleftrightarrow> b = desc_wire d \<and> 1 + length (write_desc d) < 256"
  by (auto simp: desc_to_bytes_def desc_wire_def Let_def)

lemma each_result_InrD:
  "each_result f xs = Inr b \<Longrightarrow> \<exists>bs. list_all2 (\<lambda>x y. f x = Inr y) xs bs \<and> b = concat bs"
proof (induction xs arbitrary: b)
  case (Cons x xs)
  then obtain y r where "f x = Inr y" "each_result f xs = Inr r" "b = y @ r"
    by (auto split: sum.splits)
  with Cons.IH show ?case
    by (fastforce simp: list_all2_Cons1)
qed simp

lemma each_desc_Inr:
  "each_result desc_to_bytes xs = Inr b \<longleftrightarrow>
    b = concat (map desc_wire xs) \<and> (\<forall>d\<in>set xs. 1 + length (write_desc d) < 256)"
  by (induction xs arbitrary: b) (auto simp: desc_to_bytes_Inr split: sum.splits, auto simp: desc_to_bytes_def Let_def split: if_splits)

lemma take_desc_wire:
  assumes "1 + length (write_desc d) < 256"
  shows "take_descs (Suc n) (desc_wire d @ r) = map_option (\<lambda>(ds, r). (desc_wire d # ds, r)) (take_descs n r)"
proof -
  have l: "unat (of_nat (1 + length (write_desc d)) :: byte) = length (desc_wire d)"
    using assms by (simp only: unat_of_nat_byte desc_wire_def list.size) simp
  have "2 \<le> length (desc_wire d)"
    using write_desc_nonempty [of d] by (cases "write_desc d") (simp_all add: desc_wire_def)
  then show ?thesis
    using l write_desc_nonempty [of d] by (simp add: desc_wire_def)
qed

lemma take_descs_wire:
  "\<forall>d\<in>set ds. 1 + length (write_desc d) < 256 \<Longrightarrow>
    take_descs (length ds) (concat (map desc_wire ds) @ r) = Some (map desc_wire ds, r)"
proof (induction ds)
  case (Cons d ds)
  then have "1 + length (write_desc d) < 256"
    by simp
  note step = take_desc_wire [OF this, of "length ds" "concat (map desc_wire ds) @ r"]
  show ?case
    using step Cons by (simp del: take_descs.simps)
qed simp

lemma os_desc_bytes:
  assumes "os_desc_to_bytes ver d = Inr b"
  shows "5 \<le> length b" "of_le (take 4 (drop 1 b)) = length b" "os_desc_wire ver d = b"
proof -
  obtain body where b: "b = os_interface d # le_bytes 4 (5 + length body) @ body" "5 + length body < 2 ^ 32"
    using assms by (auto simp: os_desc_to_bytes_def Let_def simp del: le_bytes_numeral split: sum.splits if_splits)
  show "5 \<le> length b"
    using b by (simp del: le_bytes_numeral)
  show "of_le (take 4 (drop 1 b)) = length b"
    using b by (simp add: of_le_le_bytes del: le_bytes_numeral)
  show "os_desc_wire ver d = b"
    using assms by (simp add: os_desc_wire_def)
qed

lemma take_os_descs_wire:
  "list_all2 (\<lambda>x y. os_desc_to_bytes ver x = Inr y) ds bs \<Longrightarrow>
    take_os_descs (length ds) (concat bs @ r) = Some (map (os_desc_wire ver) ds, r)"
proof (induction rule: list_all2_induct)
  case (Cons d ds b bs)
  note b = os_desc_bytes [OF Cons(1)]
  have "take 4 (drop 1 (b @ concat bs @ r)) = take 4 (drop 1 b)"
    using b(1) by simp
  then show ?case
    using Cons b by (simp add: Let_def)
qed simp

lemma unat_bit_5: "unat (x :: 32 word) div 32 mod 2 = of_bool (bit x 5)"
proof -
  have "unat x div 2 ^ 5 mod 2 = of_bool (bit (unat x) 5)"
    by (simp add: bit_iff_odd mod_2_eq_odd)
  then show ?thesis
    by (simp add: bit_simps)
qed

lemma bit_5_descs_flags: "bit (descs_flags d) 5 = (eventfd d \<noteq> None)"
  by (simp add: descs_flags_def Let_def bit_simps split: option.splits)

lemma words_le_simps [simp]:
  "words_le [] = []" "words_le (w # ws) = le_bytes 4 w @ words_le ws" "length (words_le ws) = 4 * length ws"
  by (induction ws) (simp_all add: words_le_def del: le_bytes_numeral)

lemma field_words: "k < length ws \<Longrightarrow> field (4 * k) (words_le ws @ r) = ws ! k mod 2 ^ 32"
proof (induction k arbitrary: ws)
  case 0
  then show ?case
    by (cases ws) (simp_all add: field_def of_le_le_bytes del: le_bytes_numeral)
next
  case (Suc k)
  then obtain w vs where "ws = w # vs" "k < length vs"
    by (cases ws) auto
  with Suc.IH show ?case
    by (simp add: field_def del: le_bytes_numeral)
qed

lemma descs_to_bytes_layout:
  assumes "descs_to_bytes ver d = Inr bs"
  shows "\<exists>body os. each_result desc_to_bytes (fs_descrs d @ hs_descrs d @ ss_descrs d) = Inr body \<and>
    each_result (os_desc_to_bytes ver) (os_descrs d) = Inr os \<and> counts_fit d \<and>
    bs = words_le (block_header d (length bs)) @ body @ os \<and> length bs < 2 ^ 32"
  using assms unfolding descs_to_bytes_def MAGIC_V2_def block_header_def event_words_def counts_fit_def desc_counts_def
  by (auto simp: Let_def simp del: le_bytes_numeral split: sum.splits if_splits option.splits)

lemma counts_at_flags: "counts_at (unat (descs_flags d)) = 12 + 4 * length (event_words d)"
  by (simp add: counts_at_def unat_bit_5 bit_5_descs_flags event_words_def split: option.splits)

lemma block_fields:
  assumes bs: "bs = words_le (block_header d n) @ rest" and fit: "counts_fit d" "n < 2 ^ 32"
  defines "o' \<equiv> counts_at (unat (descs_flags d))"
  shows "field 0 bs = 3" "field 4 bs = n" "field 8 bs = unat (descs_flags d)"
    "field o' bs = length (fs_descrs d)" "field (o' + 4) bs = length (hs_descrs d)"
    "field (o' + 8) bs = length (ss_descrs d)" "field (o' + 12) bs = length (os_descrs d)"
    "drop (o' + 16) bs = rest"
proof -
  let ?ws = "block_header d n" and ?ev = "event_words d"
  have fw: "field (4 * k) bs = ?ws ! k mod 2 ^ 32" if "k < length ?ws" for k
    using field_words [OF that, of rest] unfolding bs [symmetric] .
  have "?ws ! 0 = 3" "?ws ! 1 = n" "?ws ! 2 = unat (descs_flags d)" "0 < length ?ws" "1 < length ?ws" "2 < length ?ws"
    by (simp_all add: block_header_def)
  then show "field 0 bs = 3" "field 4 bs = n" "field 8 bs = unat (descs_flags d)"
    using fw [of 0] fw [of 1] fw [of 2] fit(2) unsigned_less [of "descs_flags d", where 'a = nat] by auto
  have counts: "field (4 * (3 + length ?ev + k)) bs = desc_counts d ! k" if "k < length (desc_counts d)" for k
  proof -
    have "?ws ! (3 + length ?ev + k) = desc_counts d ! k"
      by (simp add: block_header_def nth_append)
    moreover have "desc_counts d ! k < 2 ^ 32"
      using fit(1) nth_mem [OF that] by (auto simp: counts_fit_def list_all_iff)
    ultimately show ?thesis
      using fw [of "3 + length ?ev + k"] that by (simp add: block_header_def)
  qed
  show "field o' bs = length (fs_descrs d)" "field (o' + 4) bs = length (hs_descrs d)"
    "field (o' + 8) bs = length (ss_descrs d)" "field (o' + 12) bs = length (os_descrs d)"
    using counts [of 0] counts [of 1] counts [of 2] counts [of 3] by (simp_all add: o'_def counts_at_flags desc_counts_def algebra_simps)
  show "drop (o' + 16) bs = rest"
    unfolding bs by (simp add: block_header_def o'_def counts_at_flags desc_counts_def del: le_bytes_numeral)
qed

lemma endpoint_roundtrip: "endpoint_parse (desc_wire (DEndpoint d)) = Inr d"
proof -
  have "of_nat (of_le (le_bytes 2 (unat (max_packet_size d)))) = max_packet_size d"
    using unsigned_less [of "max_packet_size d", where 'a = nat] by (simp only: of_le_le_bytes) simp
  then show ?thesis
    by (cases "ed_audio d") (auto simp: desc_wire_def write_endpoint_def endpoint_parse_def Let_def simp del: of_le.simps)
qed

text \<open>
  C38. FunctionFS reads back the descriptors that were written.  Whenever a set of descriptors can be encoded at all,
  the block carries its own length and the flags, and reading it descriptor by descriptor (each by its own length
  byte) gives back exactly the full-speed, high-speed and super-speed descriptors and the operating-system
  descriptors, in order, with nothing left over; an endpoint descriptor is moreover parsed back to itself.
\<close>

theorem ffs_block_roundtrip:
  assumes "descs_to_bytes ver d = Inr bs"
  shows "read_desc_block bs = Some \<lparr>blk_flags = unat (descs_flags d), blk_fs = map desc_wire (fs_descrs d),
    blk_hs = map desc_wire (hs_descrs d), blk_ss = map desc_wire (ss_descrs d),
    blk_os = map (os_desc_wire ver) (os_descrs d)\<rparr> \<and>
    (\<forall>e. endpoint_parse (desc_wire (DEndpoint e)) = Inr e)"
proof -
  obtain body os where parts: "each_result desc_to_bytes (fs_descrs d @ hs_descrs d @ ss_descrs d) = Inr body"
      "each_result (os_desc_to_bytes ver) (os_descrs d) = Inr os" "counts_fit d"
      "bs = words_le (block_header d (length bs)) @ body @ os" "length bs < 2 ^ 32"
    using descs_to_bytes_layout [OF assms] by blast
  have small: "\<forall>x\<in>set (fs_descrs d) \<union> set (hs_descrs d) \<union> set (ss_descrs d). 1 + length (write_desc x) < 256"
    and body: "body = concat (map desc_wire (fs_descrs d)) @ concat (map desc_wire (hs_descrs d)) @
      concat (map desc_wire (ss_descrs d))"
    using parts(1) by (auto simp: each_desc_Inr)
  obtain obs where obs: "list_all2 (\<lambda>x y. os_desc_to_bytes ver x = Inr y) (os_descrs d) obs" "os = concat obs"
    using each_result_InrD [OF parts(2)] by blast
  show ?thesis
    using small unfolding read_desc_block_def
    by (simp add: endpoint_roundtrip block_fields [OF parts(4,3,5)] Let_def body obs(2) take_descs_wire
        take_os_descs_wire [OF obs(1), of "[]", simplified])
qed

theorem ffs_block_roundtrip_witness:
  "\<exists>s bs. ffs_descs fastboot_custom = Inr (fastboot_descs, s) \<and> descs_to_bytes (6, 6) fastboot_descs = Inr bs \<and>
    length bs = 144 \<and> map_option (\<lambda>b. (blk_flags b, blk_os b)) (read_desc_block bs) =
      Some (15, [os_desc_wire (6, 6) (hd (os_descrs fastboot_descs))])"
proof -
  obtain bs where bs: "descs_to_bytes (6, 6) fastboot_descs = Inr bs" "length bs = 144"
    by (simp add: fastboot_descs_def fastboot_endpoint_def descs_to_bytes_def desc_to_bytes_def write_interface_def
        write_endpoint_def write_ss_comp_def os_desc_to_bytes_def write_compat_def Let_def descs_flags_def)
  moreover have "unat (descs_flags fastboot_descs) = 15" "tl (os_descrs fastboot_descs) = []" "os_descrs fastboot_descs \<noteq> []"
    by (simp_all add: fastboot_descs_def descs_flags_def Let_def)
  ultimately show ?thesis
    using ffs_block_roundtrip [OF bs(1)] fastboot_custom_descs by (cases "os_descrs fastboot_descs") auto
qed

lemma addresses_append [simp]: "addresses (xs @ ys) = addresses xs @ addresses ys"
  by (induction xs rule: addresses.induct) simp_all

lemma interface_names_append [simp]: "interface_names (xs @ ys) = interface_names xs @ interface_names ys"
  by (induction xs rule: interface_names.induct) simp_all

lemma numbered_append: "numbered k (xs @ ys) = numbered k xs @ numbered (k + length xs) ys"
  by (induction xs arbitrary: k) simp_all

lemma length_numbered [simp]: "length (numbered k es) = length es"
  by (induction es arbitrary: k) simp_all

lemma numbered_nth: "i < length es \<Longrightarrow> numbered k es ! i = of_nat (Suc (k + i)) OR direction_bit (es ! i)"
  by (induction es arbitrary: k i) (auto simp: nth_Cons' split: if_splits)

lemma extends_refl: "unat (endpoint_num b) < 128 \<Longrightarrow> extends [] b b"
  by (simp add: extends_def)

lemma extends_trans: "extends xs a b \<Longrightarrow> extends ys b c \<Longrightarrow> extends (xs @ ys) a c"
  by (simp add: extends_def numbered_append)

lemma add_endpoint_extends:
  assumes "add_endpoint e b = Inr b'" "unat (endpoint_num b) < 128"
  shows "extends [e] b b'"
proof -
  have n: "unat (endpoint_num b + 1) = unat (endpoint_num b) + 1"
    using assms(2) by (subst unat_add_lem [THEN iffD1]) simp_all
  have "\<not> DIR_IN \<le> endpoint_num b + 1"
    using assms(1) by (auto simp: add_endpoint_def Let_def split: if_splits)
  then have "unat (endpoint_num b) + 1 < 128"
    using n by (simp add: DIR_IN_def word_le_nat_alt)
  then show ?thesis
    using assms(1) n
    by (auto simp: add_endpoint_def extends_def Let_def ep_desc_def direction_bit_def DIR_IN_def DIR_OUT_def ac_simps
        split: if_splits Direction.splits)
qed

lemma add_endpoints_extends:
  "add_endpoints es b = Inr b' \<Longrightarrow> unat (endpoint_num b) < 128 \<Longrightarrow> extends es b b'"
proof (induction es arbitrary: b)
  case (Cons e es)
  then obtain c where c: "add_endpoint e b = Inr c" "add_endpoints es c = Inr b'"
    by (auto split: sum.splits)
  note ec = add_endpoint_extends [OF c(1) Cons.prems(2)]
  then have "extends es c b'"
    using Cons.IH [OF c(2)] by (simp add: extends_def)
  with ec show ?case
    using extends_trans by fastforce
qed (simp add: extends_refl)

lemma push_all_sel [simp]:
  "endpoint_num (push_all d b) = endpoint_num b" "b_fs (push_all d b) = b_fs b @ [d]"
  "b_hs (push_all d b) = b_hs b @ [d]" "b_ss (push_all d b) = b_ss b @ [d]"
  "b_strings (push_all d b) = b_strings b" "assocs (push_all d b) = assocs b"
  by (simp_all add: push_all_def)

lemma fold_push_sel [simp]:
  "endpoint_num (fold (\<lambda>c. push_all (f c)) cs b) = endpoint_num b"
  "b_fs (fold (\<lambda>c. push_all (f c)) cs b) = b_fs b @ map f cs"
  "b_hs (fold (\<lambda>c. push_all (f c)) cs b) = b_hs b @ map f cs"
  "b_ss (fold (\<lambda>c. push_all (f c)) cs b) = b_ss b @ map f cs"
  "b_strings (fold (\<lambda>c. push_all (f c)) cs b) = b_strings b"
  "assocs (fold (\<lambda>c. push_all (f c)) cs b) = assocs b"
  by (induction cs arbitrary: b) simp_all

lemma no_addresses [simp]:
  "addresses (map DCustom cs) = []" "addresses (map DInterfaceAssoc as) = []"
  "interface_names (map DCustom cs) = []" "interface_names (map DInterfaceAssoc as) = []"
  subgoal by (induction cs) simp_all
  subgoal by (induction as) simp_all
  subgoal by (induction cs) simp_all
  subgoal by (induction as) simp_all
  done

lemma add_endpoints_frame:
  "add_endpoints es b = Inr b' \<Longrightarrow> b_strings b' = b_strings b \<and> interface_names (b_fs b') = interface_names (b_fs b)"
proof (induction es arbitrary: b)
  case (Cons e es)
  then obtain c where c: "add_endpoint e b = Inr c" "add_endpoints es c = Inr b'"
    by (auto split: sum.splits)
  have "b_strings c = b_strings b \<and> interface_names (b_fs c) = interface_names (b_fs b)"
    using c(1) by (auto simp: add_endpoint_def Let_def split: if_splits)
  with Cons.IH [OF c(2)] show ?case
    by simp
qed simp

subsection \<open>Strings\<close>

lemma str_count_add_strings:
  "strs \<noteq> [] \<Longrightarrow> str_count (add_strings strs s) = Suc (str_count s)"
  by (cases s; cases strs) (auto simp: add_strings_def str_count_def split: prod.splits)

lemma uniform_iff: "uniform s \<longleftrightarrow> (\<forall>l v. (l, v) \<in> set s \<longrightarrow> length v = str_count s)"
  by (auto simp: uniform_def list_all_iff)

lemma denotes_iff:
  "denotes s j nm \<longleftrightarrow> 1 \<le> unat j \<and> unat j \<le> str_count s \<and> fst ` set nm \<subseteq> fst ` set s \<and>
    (\<forall>l v. (l, v) \<in> set s \<longrightarrow> v ! (unat j - 1) = (case map_of nm l of Some t \<Rightarrow> t | None \<Rightarrow> []))"
  by (auto simp: denotes_def list_all_iff)

lemma add_strings_cases:
  assumes "(l, v) \<in> set (add_strings strs s)"
  obtains u where "(l, u) \<in> set s" "v = u @ [case map_of strs l of Some t \<Rightarrow> t | None \<Rightarrow> []]"
    | t where "(l, t) \<in> set strs" "l \<notin> fst ` set s" "v = replicate (str_count s) [] @ [t]"
  using assms by (auto simp: add_strings_def)

lemma uniform_add_strings: "uniform s \<Longrightarrow> strs \<noteq> [] \<Longrightarrow> uniform (add_strings strs s)"
  unfolding uniform_iff by (auto simp: str_count_add_strings elim!: add_strings_cases)

lemma keys_add_strings: "fst ` set (add_strings strs s) = fst ` set s \<union> fst ` set strs"
proof -
  have "map fst (add_strings strs s) = map fst s @ filter (\<lambda>l. l \<notin> fst ` set s) (map fst strs)"
    by (simp add: add_strings_def comp_def filter_map case_prod_unfold)
  then show ?thesis
    by (auto simp flip: set_map)
qed

lemma string_index_Inr: "string_index s = Inr j \<Longrightarrow> unat j = Suc (str_count s)"
proof -
  assume "string_index s = Inr j"
  then have "str_count s + 1 < 2 ^ 8" "j = of_nat (str_count s + 1)"
    by (simp_all add: string_index_def split: if_splits)
  then show ?thesis
    by (simp only: unat_of_nat_byte) simp
qed

lemma denotes_new:
  assumes "string_index s = Inr j" "uniform s" "strs \<noteq> []" "distinct (map fst strs)"
  shows "denotes (add_strings strs s) j strs"
proof -
  note j = string_index_Inr [OF assms(1)]
  have "v ! (unat j - 1) = (case map_of strs l of Some t \<Rightarrow> t | None \<Rightarrow> [])"
    if "(l, v) \<in> set (add_strings strs s)" for l v
    using that
  proof (cases rule: add_strings_cases)
    case (1 u)
    then have "length u = str_count s"
      using assms(2) by (simp add: uniform_iff)
    with 1 j show ?thesis
      by (simp add: nth_append)
  next
    case (2 t)
    then have "map_of strs l = Some t"
      using assms(4) by simp
    with 2 j show ?thesis
      by (simp add: nth_append)
  qed
  then show ?thesis
    using j by (simp add: denotes_iff keys_add_strings str_count_add_strings [OF assms(3)])
qed

lemma denotes_add_strings:
  assumes "denotes s j nm" "uniform s" "strs \<noteq> []"
  shows "denotes (add_strings strs s) j nm"
proof -
  have j: "unat j - 1 < str_count s" "fst ` set nm \<subseteq> fst ` set s"
    using assms(1) by (auto simp: denotes_iff)
  have "v ! (unat j - 1) = (case map_of nm l of Some t \<Rightarrow> t | None \<Rightarrow> [])"
    if "(l, v) \<in> set (add_strings strs s)" for l v
    using that
  proof (cases rule: add_strings_cases)
    case (1 u)
    then have "length u = str_count s" "u ! (unat j - 1) = (case map_of nm l of Some t \<Rightarrow> t | None \<Rightarrow> [])"
      using assms(1,2) by (simp_all add: uniform_iff denotes_iff)
    with 1 j show ?thesis
      by (simp add: nth_append)
  next
    case (2 t)
    then have "map_of nm l = None"
      using j(2) by (auto simp: map_of_eq_None_iff)
    with 2 j show ?thesis
      by (simp add: nth_append)
  qed
  then show ?thesis
    using assms(1) by (auto simp: denotes_iff keys_add_strings str_count_add_strings [OF assms(3)])
qed

lemma denotes_all_add:
  "list_all2 (\<lambda>j i. denotes s j (if_name i)) js is \<Longrightarrow> uniform s \<Longrightarrow> strs \<noteq> [] \<Longrightarrow>
    list_all2 (\<lambda>j i. denotes (add_strings strs s) j (if_name i)) js is"
  by (erule list_all2_mono) (simp add: denotes_add_strings)

lemma add_association_frame:
  assumes "add_association n a b = Inr b'" "well_named (assoc_name a)"
  shows "extends [] b b' \<or> \<not> unat (endpoint_num b) < 128" "b_fs b' = b_fs b" "names_ok is b \<Longrightarrow> names_ok is b'"
  using assms
  by (auto simp: add_association_def Let_def extends_def names_ok_def well_named_def uniform_add_strings denotes_all_add
      split: option.splits sum.splits if_splits)

lemma add_interface_step:
  assumes "add_interface k i b = Inr b'" "unat (endpoint_num b) < 128" "names_ok is b" "interface_named i"
  shows "extends (endpoints i) b b' \<and> names_ok (is @ [i]) b'"
proof -
  let ?n = "of_nat k :: byte"
  obtain j where j: "string_index (b_strings b) = Inr j"
    using assms(1) by (auto simp: add_interface_def split: if_splits sum.splits)
  define b1 where "b1 = fold (\<lambda>c. push_all (DCustom c)) (custom_descs i)
    (push_all (DInterface \<lparr>interface_number = ?n, alternate_setting = 0, num_endpoints = of_nat (length (endpoints i)),
      id_class = cl_class (interface_class i), id_sub_class = cl_sub_class (interface_class i),
      id_protocol = cl_protocol (interface_class i), id_name_idx = j\<rparr>)
    (b\<lparr>b_strings := add_strings (if_name i) (b_strings b)\<rparr>))"
  obtain b2 b3 where b2: "add_endpoints (endpoints i) b1 = Inr b2"
    and b3: "(case association i of None \<Rightarrow> Inr b2 | Some a \<Rightarrow> add_association ?n a b2) = Inr b3"
    and b': "b' = add_os_descs ?n i b3"
    using assms(1) j by (auto simp: add_interface_def Let_def b1_def split: if_splits sum.splits)
  have wn: "if_name i \<noteq> []" "distinct (map fst (if_name i))"
    using assms(4) by (simp_all add: interface_named_def well_named_def)
  have e1: "extends [] b b1"
    using assms(2) by (simp add: extends_def b1_def)
  have n1: "names_ok (is @ [i]) b1"
    using assms(3) wn denotes_new [OF j _ wn]
    by (auto simp: names_ok_def b1_def uniform_add_strings denotes_all_add intro!: list_all2_appendI)
  have e2: "extends (endpoints i) b1 b2"
    using add_endpoints_extends [OF b2] e1 by (simp add: extends_def)
  have n2: "names_ok (is @ [i]) b2"
    using add_endpoints_frame [OF b2] n1 by (simp add: names_ok_def)
  have e3: "extends [] b2 b3 \<and> names_ok (is @ [i]) b3"
    using b3 n2 e2 assms(4) add_association_frame [of ?n _ b2 b3]
    by (auto simp: extends_def interface_named_def split: option.splits)
  then have "extends (endpoints i) b b3"
    using extends_trans [OF extends_trans [OF e1 e2]] by fastforce
  then show ?thesis
    using e3 by (simp add: b' add_os_descs_def extends_def names_ok_def)
qed

lemma add_interfaces_steps:
  assumes "add_interfaces k is b = Inr b'" "unat (endpoint_num b) < 128" "names_ok js b" "list_all interface_named is"
  shows "extends (concat (map endpoints is)) b b' \<and> names_ok (js @ is) b'"
  using assms
proof (induction "is" arbitrary: k b js)
  case (Cons i "is")
  then obtain c where c: "add_interface k i b = Inr c" "add_interfaces (k + 1) is c = Inr b'"
    by (auto split: sum.splits)
  have step: "extends (endpoints i) b c" "names_ok (js @ [i]) c"
    using add_interface_step [OF c(1) Cons.prems(2,3)] Cons.prems(4) by simp_all
  then have "extends (concat (map endpoints is)) c b' \<and> names_ok ((js @ [i]) @ is) b'"
    using Cons.IH [OF c(2) _ step(2)] Cons.prems(4) by (simp add: extends_def)
  then show ?case
    using extends_trans [OF step(1)] by simp
qed (simp add: extends_refl)

lemma numbered_distinct:
  assumes "length es < 128"
  shows "distinct (map (\<lambda>a. a AND 0x7F) (numbered 0 es))"
proof -
  have num: "(of_nat (Suc i) OR direction_bit e) AND 0x7F = of_nat (Suc i)" if "Suc i < 128" for i and e :: Endpoint
  proof -
    have "(of_nat (Suc i) :: byte) AND 0x7F = take_bit 7 (of_nat (Suc i))"
      by (simp only: take_bit_eq_mask) (simp add: mask_eq_exp_minus_1)
    also have "\<dots> = of_nat (take_bit 7 (Suc i))"
      by (rule take_bit_of_nat)
    also have "take_bit 7 (Suc i) = Suc i"
      using that by (simp add: take_bit_eq_mod)
    finally have "(of_nat (Suc i) :: byte) AND 0x7F = of_nat (Suc i)" .
    moreover have "direction_bit e AND 0x7F = 0"
      by (simp add: direction_bit_def split: Direction.splits)
    ultimately show ?thesis
      by (simp add: word_ao_dist)
  qed
  have "map (\<lambda>a. a AND 0x7F) (numbered 0 es) = map (\<lambda>i. of_nat (Suc i)) [0..<length es]"
    using num assms by (intro nth_equalityI) (simp_all add: numbered_nth)
  moreover have "inj_on (\<lambda>i. of_nat (Suc i) :: byte) {0..<length es}"
  proof (rule inj_onI)
    fix i k
    assume "i \<in> {0..<length es}" "k \<in> {0..<length es}" "(of_nat (Suc i) :: byte) = of_nat (Suc k)"
    then have "Suc i mod 256 = Suc k mod 256"
      using unat_of_nat_byte by metis
    with \<open>i \<in> _\<close> \<open>k \<in> _\<close> assms show "i = k"
      by simp
  qed
  ultimately show ?thesis
    by (simp add: distinct_map)
qed

text \<open>
  C39. The descriptors say what the function is.  When the descriptors of a custom function can be built, its
  endpoints are numbered 1, 2, 3 and so on in the order of the interfaces, in all three speeds alike, as their
  endpoint files are, with the direction bit of each endpoint, and no two share a number.  The name index of every
  interface selects, in every language the strings are written in, the name this interface has in that language.
\<close>

theorem ffs_descs_faithful:
  assumes "ffs_descs c = Inr (d, s)" "list_all interface_named (interfaces c)"
  defines "es \<equiv> concat (map endpoints (interfaces c))"
  shows "addresses (fs_descrs d) = numbered 0 es \<and> addresses (hs_descrs d) = numbered 0 es \<and>
    addresses (ss_descrs d) = numbered 0 es \<and> distinct (map (\<lambda>a. a AND 0x7F) (numbered 0 es)) \<and>
    list_all2 (\<lambda>j i. denotes s j (if_name i)) (interface_names (fs_descrs d)) (interfaces c)"
proof -
  obtain b where b: "add_interfaces 0 (interfaces c) empty_build = Inr b"
    using assms(1) by (auto simp: ffs_descs_def split: sum.splits)
  have ext: "extends es empty_build b" and names: "names_ok (interfaces c) b"
    unfolding es_def using add_interfaces_steps [OF b _ _ assms(2), of "[]"]
    by (simp_all add: empty_build_def names_ok_def uniform_def)
  have out: "fs_descrs d = b_fs b @ map (\<lambda>x. DInterfaceAssoc (snd x)) (assocs b) \<and>
    hs_descrs d = b_hs b @ map (\<lambda>x. DInterfaceAssoc (snd x)) (assocs b) \<and>
    ss_descrs d = b_ss b @ map (\<lambda>x. DInterfaceAssoc (snd x)) (assocs b) \<and> s = b_strings b"
    using assms(1) b by (auto simp: ffs_descs_def Let_def case_prod_unfold)
  have "addresses (map (\<lambda>x. DInterfaceAssoc (snd x)) as) = []"
      "interface_names (map (\<lambda>x. DInterfaceAssoc (snd x)) as) = []" for as :: "(Association \<times> InterfaceAssocDesc) list"
    using no_addresses(2,4) [of "map snd as"] by (simp_all add: comp_def)
  moreover have "length es < 128"
    using ext by (simp add: extends_def empty_build_def)
  ultimately show ?thesis
    using ext names numbered_distinct [of es] out by (simp add: extends_def empty_build_def names_ok_def)
qed

theorem ffs_descs_faithful_witness:
  "\<exists>s. ffs_descs fastboot_custom = Inr (fastboot_descs, s) \<and> addresses (hs_descrs fastboot_descs) = [0x01, 0x82] \<and>
    list_all2 (\<lambda>j i. denotes s j (if_name i)) (interface_names (fs_descrs fastboot_descs)) (interfaces fastboot_custom)"
proof -
  have "list_all interface_named (interfaces fastboot_custom)"
      "numbered 0 (concat (map endpoints (interfaces fastboot_custom))) = [0x01, 0x82]"
    by code_simp+
  with ffs_descs_faithful [OF fastboot_custom_descs] fastboot_custom_descs show ?thesis
    by metis
qed

text \<open>
  C40. The adjacency check of associated interfaces is wrong.  It accepts an interface exactly when the association
  began at interface zero: an association whose first interface is any other is refused at once, adjacent or not, and
  one that began at interface zero is accepted at any distance.
\<close>

theorem association_check_misplaced:
  "((\<exists>b'. add_association n a (b\<lparr>assocs := []\<rparr>) = Inr b') \<longleftrightarrow> n = 0 \<and> str_count (b_strings b) < 255) \<and>
    (\<exists>b'. add_association n a (b\<lparr>assocs := [(a, iad\<lparr>first_interface := 0\<rparr>)]\<rparr>) = Inr b')"
  by (auto simp: add_association_def string_index_def Let_def)

end
