(* ===== verification/Usb_Functions.thy ===== *)
theory Usb_Functions
  imports Ffs_Desc
begin

text \<open>
  The functions of a gadget (\<^verbatim>\<open>patches/usb-gadget/src/function\<close>).  The kernel is a parameter: a reply to every
  system call, as an arbitrary function of all the calls and replies so far, which the state keeps as a history.  A
  function of the library is a \<open>prog\<close> over that state.  Every function type of the crate is here, those the kernel
  implements (whose registration writes attribute files) and the custom ones of FunctionFS, with the handlers that
  undo what a registration created below a function directory.
\<close>

subsection \<open>The kernel\<close>

text \<open>
  What the library asks of the kernel (and, for the last four, of the task runtime).  A path is the list of
  its components.
\<close>

datatype sysop =
    CreateDir path
  | CreateDirAll path
  | WriteFile path bytes
  | SymlinkAt path path
  | RemoveFile path
  | RemoveDir path
  | IsDir path
  | IsSymlink path
  | ReadDir path
  | ReadFile path
  | RequestModule string
  | Mounts
  | MountFfs bytes path bytes
  | Umount path bool
  | OpenFile path
  | WriteFd path bytes
  | SetupAio path "32 word"
  | SpawnTask nat
  | WaitTask nat
  | AbortTask nat
  | JoinTask nat

datatype ftype = FDir | FLink | FFile

text \<open>An entry of a directory with the result of asking for its type; an entry that could not be read is None.\<close>

record dir_entry =
  file_name :: bytes
  metadata :: "nat + ftype"

record mount_entry =
  mnt_source :: bytes
  mnt_dest :: path
  mnt_fstype :: bytes

datatype reply =
    RDone
  | RErr nat
  | RBool bool
  | REntries "dir_entry option list"
  | RMounts "mount_entry option list"
  | RCount nat
  | RBytes bytes

type_synonym history = "(sysop \<times> reply) list"

record FunctionDirInner =
  fd_dir :: "path option"
  dir_was_set :: bool
  fd_bound :: bool

text \<open>
  The state of the library: the kernel, an arbitrary function of what has happened so far, the history, the shared
  state of the functions by the address of their handle, and the channels already used.
\<close>

record kstate =
  kernel :: "history \<Rightarrow> sysop \<Rightarrow> reply"
  hist :: history
  linux_version :: "nat \<times> nat"
  fdir :: "nat \<Rightarrow> FunctionDirInner"
  ffs_dir_created :: "nat \<Rightarrow> bool"
  ep_files :: "nat \<Rightarrow> path list"
  sent :: "(nat \<times> string) list"
  next_addr :: nat

definition syscall :: "sysop \<Rightarrow> (kstate, reply) prog" where
  "syscall op c =
    (let r = kernel c (hist c) op
     in Some (c\<lparr>hist := hist c @ [(op, r)]\<rparr>, case r of RErr n \<Rightarrow> Err (Os n) | _ \<Rightarrow> Ok r))"

definition unit_call :: "sysop \<Rightarrow> (kstate, unit) prog" where
  "unit_call op = andthen (syscall op) (\<lambda>_. ret ())"

text \<open>A call whose result is dropped, a test that cannot fail, and a directory or mount listing.\<close>

definition ignoring :: "(kstate, 'a) prog \<Rightarrow> (kstate, unit) prog" where
  "ignoring m = andthen (attempt m) (\<lambda>_. ret ())"

definition test_call :: "sysop \<Rightarrow> (kstate, bool) prog" where
  "test_call op = andthen (attempt (syscall op)) (\<lambda>r. ret (r = Inr (RBool True)))"

definition read_dir :: "path \<Rightarrow> (kstate, dir_entry option list) prog" where
  "read_dir p = andthen (syscall (ReadDir p)) (\<lambda>r. ret (case r of REntries es \<Rightarrow> es | _ \<Rightarrow> []))"

definition mount_iter :: "(kstate, mount_entry option list) prog" where
  "mount_iter = andthen (syscall Mounts) (\<lambda>r. ret (case r of RMounts ms \<Rightarrow> ms | _ \<Rightarrow> []))"

definition type_of :: "dir_entry \<Rightarrow> (kstate, ftype) prog" where
  "type_of e = (case metadata e of Inl n \<Rightarrow> raise (Os n) | Inr t \<Rightarrow> ret t)"

fun for_each :: "('a \<Rightarrow> (kstate, unit) prog) \<Rightarrow> 'a list \<Rightarrow> (kstate, unit) prog" where
  "for_each f [] = ret ()"
| "for_each f (x # xs) = andthen (f x) (\<lambda>_. for_each f xs)"

text \<open>A loop over the readable entries of a listing.\<close>

definition for_entries :: "('a \<Rightarrow> (kstate, unit) prog) \<Rightarrow> 'a option list \<Rightarrow> (kstate, unit) prog" where
  "for_entries f = for_each (\<lambda>x. case x of None \<Rightarrow> ret () | Some e \<Rightarrow> f e)"

definition whenp :: "bool \<Rightarrow> (kstate, unit) prog \<Rightarrow> (kstate, unit) prog" where
  "whenp b m = (if b then m else ret ())"

definition test_then :: "sysop \<Rightarrow> (kstate, unit) prog \<Rightarrow> (kstate, unit) prog" where
  "test_then op m = andthen (test_call op) (\<lambda>b. whenp b m)"

definition panic :: "('c, 'a) prog" where
  "panic c = Some (c, Panic)"

subsection \<open>Function directories\<close>

definition set_dir :: "nat \<Rightarrow> path \<Rightarrow> (kstate, unit) prog" where
  "set_dir i p = modify (\<lambda>c. c\<lparr>fdir := (fdir c)(i := (fdir c i)\<lparr>fd_dir := Some p, dir_was_set := True\<rparr>)\<rparr>)"

definition reset_dir :: "nat \<Rightarrow> (kstate, unit) prog" where
  "reset_dir i = modify (\<lambda>c. c\<lparr>fdir := (fdir c)(i := (fdir c i)\<lparr>fd_dir := None\<rparr>)\<rparr>)"

definition set_bound :: "nat \<Rightarrow> bool \<Rightarrow> (kstate, unit) prog" where
  "set_bound i b = modify (\<lambda>c. c\<lparr>fdir := (fdir c)(i := (fdir c i)\<lparr>fd_bound := b\<rparr>)\<rparr>)"

datatype fn_state = Unregistered | Registered | Bound | Removed

definition status_state :: "FunctionDirInner \<Rightarrow> fn_state" where
  "status_state d = (case fd_dir d of
      None \<Rightarrow> if dir_was_set d then Removed else Unregistered
    | Some _ \<Rightarrow> if fd_bound d then Bound else Registered)"

definition function_dir :: "nat \<Rightarrow> (kstate, path) prog" where
  "function_dir i = andthen (query (\<lambda>c. fd_dir (fdir c i))) (\<lambda>d. case d of
      Some p \<Rightarrow> ret p
    | None \<Rightarrow> raise (Custom NotFound (Text ''USB function not registered'')))"

text \<open>
  \<open>property_path\<close>: only normal components are allowed; the names the library passes are relative paths without
  dots, and a name given from outside (\<open>OtherBuilder::set\<close>) was checked to be one.
\<close>

definition normal_component :: "bytes \<Rightarrow> bool" where
  "normal_component n \<longleftrightarrow> n \<noteq> [] \<and> n \<noteq> ascii ''.'' \<and> n \<noteq> ascii ''..'' \<and> 47 \<notin> set n"

definition property_path :: "nat \<Rightarrow> path \<Rightarrow> (kstate, path) prog" where
  "property_path i p =
    (if list_all normal_component p then andthen (function_dir i) (\<lambda>d. ret (d @ p))
     else raise (Custom InvalidInput (Text ''property path must be relative'')))"

definition dir_create :: "nat \<Rightarrow> path \<Rightarrow> (kstate, unit) prog" where
  "dir_create i p = andthen (property_path i p) (\<lambda>q. unit_call (CreateDir q))"

definition dir_create_all :: "nat \<Rightarrow> path \<Rightarrow> (kstate, unit) prog" where
  "dir_create_all i p = andthen (property_path i p) (\<lambda>q. unit_call (CreateDirAll q))"

definition dir_write :: "nat \<Rightarrow> path \<Rightarrow> bytes \<Rightarrow> (kstate, unit) prog" where
  "dir_write i p v = andthen (property_path i p) (\<lambda>q. unit_call (WriteFile q v))"

definition dir_symlink :: "nat \<Rightarrow> path \<Rightarrow> path \<Rightarrow> (kstate, unit) prog" where
  "dir_symlink i t l = andthen (property_path i t) (\<lambda>t'. andthen (property_path i l) (\<lambda>l'. unit_call (SymlinkAt t' l')))"

definition split_function_dir :: "path \<Rightarrow> (bytes \<times> bytes) option" where
  "split_function_dir p = (if p = [] then None else split_once 46 (last p))"

definition instance_of :: "nat \<Rightarrow> (kstate, bytes) prog" where
  "instance_of i = andthen (function_dir i) (\<lambda>d. case split_function_dir d of
      Some (_, inst) \<Rightarrow> ret inst
    | None \<Rightarrow> raise (Custom InvalidData (Text ''invalid function directory name'')))"

text \<open>Attribute files that are written when the builder has a value for them, in order.\<close>

definition write_attrs :: "nat \<Rightarrow> (string \<times> bytes option) list \<Rightarrow> (kstate, unit) prog" where
  "write_attrs i = for_each (\<lambda>(n, v). case v of None \<Rightarrow> ret () | Some b \<Rightarrow> dir_write i [ascii n] b)"

definition dec :: "'a::len word \<Rightarrow> bytes" where
  "dec w = fmt_dec (unat w)"

definition dec_signed :: "16 word \<Rightarrow> bytes" where
  "dec_signed w = (if sint w < 0 then 45 # fmt_dec (nat (- sint w)) else fmt_dec (nat (sint w)))"

definition flag :: "bool \<Rightarrow> bytes" where
  "flag b = (if b then ascii ''1'' else ascii ''0'')"

definition hex_u8 :: "byte \<Rightarrow> bytes" where
  "hex_u8 v = ascii ''0x'' @ fmt_hex_lower 2 (unat v)"

definition hex_u8_noprefix :: "byte \<Rightarrow> bytes" where
  "hex_u8_noprefix v = fmt_hex_lower 2 (unat v)"

definition hex_u16 :: "16 word \<Rightarrow> bytes" where
  "hex_u16 v = ascii ''0x'' @ fmt_hex_lower 4 (unat v)"

subsection \<open>Functions implemented by the kernel\<close>

datatype SerialClass = Acm | Generic

fun serial_driver :: "SerialClass \<Rightarrow> bytes" where
  "serial_driver Acm = ascii ''acm''"
| "serial_driver Generic = ascii ''gser''"

record SerialBuilder =
  serial_class :: SerialClass
  console :: "bool option"

definition serial_register :: "nat \<Rightarrow> SerialBuilder \<Rightarrow> (kstate, unit) prog" where
  "serial_register i b = (case console b of
      None \<Rightarrow> ret ()
    | Some v \<Rightarrow> ignoring (dir_write i [ascii ''console''] (flag v)))"

datatype NetClass = Ecm | EcmSubset | Eem | Ncm | Rndis

fun net_driver :: "NetClass \<Rightarrow> bytes" where
  "net_driver Ecm = ascii ''ecm''"
| "net_driver EcmSubset = ascii ''geth''"
| "net_driver Eem = ascii ''eem''"
| "net_driver Ncm = ascii ''ncm''"
| "net_driver Rndis = ascii ''rndis''"

text \<open>A MAC address is kept as the text it is printed as.\<close>

record NetBuilder =
  net_class :: NetClass
  dev_addr :: "bytes option"
  host_addr :: "bytes option"
  net_qmult :: "32 word option"
  net_interface_class :: "Class option"

definition net_register :: "nat \<Rightarrow> NetBuilder \<Rightarrow> (kstate, unit) prog" where
  "net_register i b = andthen
     (write_attrs i [(''dev_addr'', dev_addr b), (''host_addr'', host_addr b), (''qmult'', map_option dec (net_qmult b))])
     (\<lambda>_. case (net_class b, net_interface_class b) of
        (Rndis, Some k) \<Rightarrow> write_attrs i [(''class'', Some (hex_u8_noprefix (cl_class k))),
          (''subclass'', Some (hex_u8_noprefix (cl_sub_class k))),
          (''protocol'', Some (hex_u8_noprefix (cl_protocol k)))]
      | _ \<Rightarrow> ret ())"

record Lun =
  read_only :: bool
  cdrom :: bool
  no_fua :: bool
  removable :: bool
  lun_file :: "bytes option"
  inquiry_string :: bytes

definition lun_default :: Lun where
  "lun_default = \<lparr>read_only = False, cdrom = False, no_fua = False, removable = True, lun_file = None,
     inquiry_string = []\<rparr>"

text \<open>\<open>Lun::new\<close>: a path is absolute when it begins with a slash.\<close>

definition lun_new :: "bytes \<Rightarrow> io_error + Lun" where
  "lun_new f = (case f of
      b # _ \<Rightarrow> if b = 47 then Inr (lun_default\<lparr>lun_file := Some f\<rparr>)
        else Inl (Custom InvalidInput (Text ''the LUN file path must be absolute''))
    | [] \<Rightarrow> Inl (Custom InvalidInput (Text ''the LUN file path must be absolute'')))"

record MsdBuilder =
  stall :: "bool option"
  luns :: "Lun list"

definition lun_dir_name :: "nat \<Rightarrow> bytes" where
  "lun_dir_name k = ascii ''lun.'' @ fmt_dec k"

definition lun_register :: "nat \<Rightarrow> nat \<times> Lun \<Rightarrow> (kstate, unit) prog" where
  "lun_register i x =
    (let (k, l) = x; d = lun_dir_name k in
     andthen (whenp (k \<noteq> 0) (dir_create i [d])) (\<lambda>_.
     andthen (dir_write i [d, ascii ''ro''] (flag (read_only l))) (\<lambda>_.
     andthen (dir_write i [d, ascii ''cdrom''] (flag (cdrom l))) (\<lambda>_.
     andthen (dir_write i [d, ascii ''nofua''] (flag (no_fua l))) (\<lambda>_.
     andthen (dir_write i [d, ascii ''removable''] (flag (removable l))) (\<lambda>_.
     andthen (dir_write i [d, ascii ''inquiry_string''] (inquiry_string l)) (\<lambda>_.
     case lun_file l of None \<Rightarrow> ret () | Some f \<Rightarrow> dir_write i [d, ascii ''file''] f)))))))"

definition msd_register :: "nat \<Rightarrow> MsdBuilder \<Rightarrow> (kstate, unit) prog" where
  "msd_register i b =
    (if luns b = [] then raise (Custom InvalidInput (Text ''at least one LUN must exist''))
     else andthen (write_attrs i [(''stall'', map_option flag (stall b))]) (\<lambda>_.
       for_each (lun_register i) (List.enumerate 0 (luns b))))"

definition msd_remove_handler :: "path \<Rightarrow> (kstate, unit) prog" where
  "msd_remove_handler d = andthen (read_dir d) (for_entries (\<lambda>e. andthen (type_of e) (\<lambda>t.
     whenp (t = FDir \<and> 46 \<in> set (file_name e) \<and> file_name e \<noteq> ascii ''lun.0'')
       (unit_call (RemoveDir (d @ [file_name e]))))))"

record HidBuilder =
  hid_sub_class :: byte
  hid_protocol :: byte
  report_desc :: bytes
  report_len :: byte
  no_out_endpoint :: bool

definition hid_register :: "nat \<Rightarrow> HidBuilder \<Rightarrow> (kstate, unit) prog" where
  "hid_register i b = write_attrs i [(''subclass'', Some (dec (hid_sub_class b))),
     (''protocol'', Some (dec (hid_protocol b))), (''report_desc'', Some (report_desc b)),
     (''report_length'', Some (dec (report_len b))), (''no_out_endpoint'', Some (flag (no_out_endpoint b)))]"

record LoopbackBuilder =
  lb_qlen :: "32 word option"
  lb_bulk_buflen :: "32 word option"

definition loopback_register :: "nat \<Rightarrow> LoopbackBuilder \<Rightarrow> (kstate, unit) prog" where
  "loopback_register i b = write_attrs i [(''qlen'', map_option dec (lb_qlen b)),
     (''bulk_buflen'', map_option dec (lb_bulk_buflen b))]"

record MidiBuilder =
  midi_buflen :: "16 word option"
  midi_id :: "bytes option"
  in_ports :: "byte option"
  out_ports :: "byte option"
  midi_index :: "byte option"
  midi_qlen :: "byte option"

definition midi_register :: "nat \<Rightarrow> MidiBuilder \<Rightarrow> (kstate, unit) prog" where
  "midi_register i b = write_attrs i [(''buflen'', map_option dec (midi_buflen b)), (''id'', midi_id b),
     (''in_ports'', map_option dec (in_ports b)), (''out_ports'', map_option dec (out_ports b)),
     (''index'', map_option dec (midi_index b)), (''qlen'', map_option dec (midi_qlen b))]"

record PrinterBuilder =
  pnp_string :: "bytes option"
  printer_qlen :: "byte option"

definition printer_register :: "nat \<Rightarrow> PrinterBuilder \<Rightarrow> (kstate, unit) prog" where
  "printer_register i b = write_attrs i [(''pnp_string'', pnp_string b), (''q_len'', map_option dec (printer_qlen b))]"

record SourceSinkBuilder =
  pattern :: "32 word option"
  isoc_interval :: "32 word option"
  isoc_maxpacket :: "32 word option"
  isoc_mult :: "32 word option"
  isoc_maxburst :: "32 word option"
  ss_bulk_buflen :: "32 word option"
  bulk_qlen :: "32 word option"
  iso_qlen :: "32 word option"

definition sourcesink_register :: "nat \<Rightarrow> SourceSinkBuilder \<Rightarrow> (kstate, unit) prog" where
  "sourcesink_register i b = write_attrs i [(''pattern'', map_option dec (pattern b)),
     (''isoc_interval'', map_option dec (isoc_interval b)), (''isoc_maxpacket'', map_option dec (isoc_maxpacket b)),
     (''isoc_mult'', map_option dec (isoc_mult b)), (''isoc_maxburst'', map_option dec (isoc_maxburst b)),
     (''bulk_buflen'', map_option dec (ss_bulk_buflen b)), (''bulk_qlen'', map_option dec (bulk_qlen b)),
     (''iso_qlen'', map_option dec (iso_qlen b))]"

record OtherBuilder =
  other_driver :: bytes
  properties :: "(path \<times> bytes) list"

definition other_builder :: "bytes \<Rightarrow> io_error + OtherBuilder" where
  "other_builder d = (if 46 \<in> set d \<or> 47 \<in> set d \<or> \<not> list_all (\<lambda>b. b < 0x80) d
     then Inl (Custom InvalidInput (Text ''invalid driver name''))
     else Inr \<lparr>other_driver = d, properties = []\<rparr>)"

definition other_set :: "path \<Rightarrow> bytes \<Rightarrow> OtherBuilder \<Rightarrow> io_error + OtherBuilder" where
  "other_set p v b = (if \<not> list_all normal_component p
     then Inl (Custom InvalidInput (Text ''property path must be relative''))
     else Inr (b\<lparr>properties := AList.update p v (properties b)\<rparr>))"

definition other_register :: "nat \<Rightarrow> OtherBuilder \<Rightarrow> (kstate, unit) prog" where
  "other_register i b = for_each (\<lambda>(p, v). dir_write i p v) (properties b)"

subsection \<open>Audio and video\<close>

record Channel =
  channel_mask :: "32 word option"
  sample_rate :: "32 word option"
  sample_size :: "32 word option"

record Uac2Config =
  u2_channel :: Channel
  u2_sync_type :: "32 word option"
  u2_hs_interval :: "byte option"
  u2_mute_present :: "bool option"
  u2_terminal_type :: "byte option"
  u2_volume_present :: "bool option"
  u2_volume_min :: "16 word option"
  u2_volume_max :: "16 word option"
  u2_volume_resolution :: "16 word option"
  u2_volume_name :: "bytes option"
  u2_input_terminal_name :: "bytes option"
  u2_input_terminal_channel_name :: "bytes option"
  u2_output_terminal_name :: "bytes option"

record Uac2Builder =
  u2_capture :: Uac2Config
  u2_playback :: Uac2Config
  fb_max :: "32 word option"
  u2_request_number :: "32 word option"
  u2_function_name :: "bytes option"
  control_name :: "bytes option"
  clock_source_in_name :: "bytes option"
  clock_source_out_name :: "bytes option"

text \<open>The attributes of one direction, \<open>c_\<close> for capture and \<open>p_\<close> for playback; only capture has a sync type.\<close>

definition uac2_direction :: "string \<Rightarrow> bool \<Rightarrow> Uac2Config \<Rightarrow> (string \<times> bytes option) list" where
  "uac2_direction d sync c =
    [(d @ ''chmask'', map_option dec (channel_mask (u2_channel c))),
     (d @ ''srate'', map_option dec (sample_rate (u2_channel c))),
     (d @ ''ssize'', map_option dec (sample_size (u2_channel c)))] @
    (if sync then [(d @ ''sync'', map_option dec (u2_sync_type c))] else []) @
    [(d @ ''hs_bint'', map_option dec (u2_hs_interval c)),
     (d @ ''mute_present'', map_option flag (u2_mute_present c)),
     (d @ ''volume_present'', map_option flag (u2_volume_present c)),
     (d @ ''volume_min'', map_option dec_signed (u2_volume_min c)),
     (d @ ''volume_max'', map_option dec_signed (u2_volume_max c)),
     (d @ ''volume_res'', map_option dec_signed (u2_volume_resolution c)),
     (d @ ''fu_vol_name'', u2_volume_name c),
     (d @ ''terminal_type'', map_option dec (u2_terminal_type c)),
     (d @ ''it_name'', u2_input_terminal_name c),
     (d @ ''it_ch_name'', u2_input_terminal_channel_name c),
     (d @ ''ot_name'', u2_output_terminal_name c)]"

definition uac2_register :: "nat \<Rightarrow> Uac2Builder \<Rightarrow> (kstate, unit) prog" where
  "uac2_register i b = write_attrs i (uac2_direction ''c_'' True (u2_capture b) @
     uac2_direction ''p_'' False (u2_playback b) @
     [(''fb_max'', map_option dec (fb_max b)), (''req_number'', map_option dec (u2_request_number b)),
      (''function_name'', u2_function_name b), (''if_ctrl_name'', control_name b),
      (''clksrc_in_name'', clock_source_in_name b), (''clksrc_out_name'', clock_source_out_name b)])"

record Uac1Config =
  u1_channel :: Channel
  u1_mute_present :: "bool option"
  u1_volume_present :: "bool option"
  u1_volume_min :: "16 word option"
  u1_volume_max :: "16 word option"
  u1_volume_resolution :: "16 word option"
  u1_volume_name :: "bytes option"
  u1_input_terminal_name :: "bytes option"
  u1_input_terminal_channel_name :: "bytes option"
  u1_output_terminal_name :: "bytes option"

record Uac1Builder =
  u1_capture :: Uac1Config
  u1_playback :: Uac1Config
  u1_request_number :: "32 word option"
  u1_function_name :: "bytes option"

definition uac1_direction :: "string \<Rightarrow> Uac1Config \<Rightarrow> (string \<times> bytes option) list" where
  "uac1_direction d c =
    [(d @ ''chmask'', map_option dec (channel_mask (u1_channel c))),
     (d @ ''srate'', map_option dec (sample_rate (u1_channel c))),
     (d @ ''ssize'', map_option dec (sample_size (u1_channel c))),
     (d @ ''mute_present'', map_option flag (u1_mute_present c)),
     (d @ ''volume_present'', map_option flag (u1_volume_present c)),
     (d @ ''volume_min'', map_option dec_signed (u1_volume_min c)),
     (d @ ''volume_max'', map_option dec_signed (u1_volume_max c)),
     (d @ ''volume_res'', map_option dec_signed (u1_volume_resolution c)),
     (d @ ''fu_vol_name'', u1_volume_name c),
     (d @ ''it_name'', u1_input_terminal_name c),
     (d @ ''it_ch_name'', u1_input_terminal_channel_name c),
     (d @ ''ot_name'', u1_output_terminal_name c)]"

definition uac1_register :: "nat \<Rightarrow> Uac1Builder \<Rightarrow> (kstate, unit) prog" where
  "uac1_register i b = write_attrs i (uac1_direction ''c_'' (u1_capture b) @ uac1_direction ''p_'' (u1_playback b) @
     [(''req_number'', map_option dec (u1_request_number b)), (''function_name'', u1_function_name b)])"

datatype Format = Yuyv | Mjpeg | Framebased bytes bytes byte

definition format_all :: "Format list" where
  "format_all = [Yuyv, Mjpeg]"

fun format_dir_name :: "Format \<Rightarrow> bytes" where
  "format_dir_name Yuyv = ascii ''yuyv''"
| "format_dir_name Mjpeg = ascii ''mjpeg''"
| "format_dir_name (Framebased _ name _) = name"

fun group_dir_name :: "Format \<Rightarrow> bytes" where
  "group_dir_name Yuyv = ascii ''uncompressed''"
| "group_dir_name Mjpeg = ascii ''mjpeg''"
| "group_dir_name (Framebased _ _ _) = ascii ''framebased''"

text \<open>The multiplication wraps in the release profile.\<close>

fun bytes_per_line :: "Format \<Rightarrow> 32 word \<Rightarrow> 32 word option" where
  "bytes_per_line (Framebased _ _ bpp) w = Some (w * ucast bpp div 8)"
| "bytes_per_line _ w = None"

definition group_path :: "Format \<Rightarrow> path" where
  "group_path f = [ascii ''streaming'', group_dir_name f, format_dir_name f]"

definition header_link_path :: "Format \<Rightarrow> path" where
  "header_link_path f = [ascii ''streaming'', ascii ''header'', ascii ''h'', format_dir_name f]"

definition color_matching_path :: "Format \<Rightarrow> path" where
  "color_matching_path f = [ascii ''streaming'', ascii ''color_matching'', format_dir_name f]"

definition color_matching_link_path :: "Format \<Rightarrow> path" where
  "color_matching_link_path f = group_path f @ [ascii ''color_matching'']"

record ColorMatching =
  color_primaries :: byte
  transfer_characteristics :: byte
  matrix_coefficients :: byte

record UvcFrame =
  uf_width :: "32 word"
  uf_height :: "32 word"
  intervals :: "32 word list"
  color_matching :: "ColorMatching option"
  uf_format :: Format

record Frame =
  fr_width :: "32 word"
  fr_height :: "32 word"
  fr_format :: Format
  fps :: "16 word list"

definition uvc_frame_from :: "Frame \<Rightarrow> UvcFrame" where
  "uvc_frame_from f = \<lparr>uf_width = fr_width f, uf_height = fr_height f,
     intervals = map (\<lambda>i. 1000000000 div ucast i) (filter (\<lambda>i. i \<noteq> 0) (fps f)), color_matching = None,
     uf_format = fr_format f\<rparr>"

definition frame_path :: "UvcFrame \<Rightarrow> path" where
  "frame_path f = group_path (uf_format f) @ [dec (uf_height f) @ ascii ''p'']"

record UvcBuilder =
  streaming_interval :: "byte option"
  streaming_max_burst :: "byte option"
  streaming_max_packet :: "32 word option"
  uvc_function_name :: "bytes option"
  frames :: "UvcFrame list"
  processing_controls :: "byte option"
  camera_controls :: "byte option"

fun join_lines :: "bytes list \<Rightarrow> bytes" where
  "join_lines [] = []"
| "join_lines [x] = x"
| "join_lines (x # xs) = x @ 10 # join_lines xs"

text \<open>The test whether the colour information exists is made relative to the working directory of the process.\<close>

definition color_register :: "nat \<Rightarrow> Format \<Rightarrow> ColorMatching \<Rightarrow> (kstate, unit) prog" where
  "color_register i f m =
    (let p = color_matching_path f in
     andthen (test_call (IsDir (ascii ''.'' # p))) (\<lambda>there. whenp (\<not> there)
       (andthen (dir_create_all i p) (\<lambda>_.
        andthen (dir_write i (p @ [ascii ''bColorPrimaries'']) (dec (color_primaries m))) (\<lambda>_.
        andthen (dir_write i (p @ [ascii ''bTransferCharacteristics'']) (dec (transfer_characteristics m))) (\<lambda>_.
        andthen (dir_write i (p @ [ascii ''bMatrixCoefficients'']) (dec (matrix_coefficients m))) (\<lambda>_.
        dir_symlink i p (color_matching_link_path f))))))))"

definition frame_register :: "nat \<Rightarrow> UvcFrame \<Rightarrow> (kstate, unit) prog" where
  "frame_register i f =
    (let p = frame_path f in
     andthen (dir_create_all i p) (\<lambda>_.
     andthen (case uf_format f of
         Framebased guid _ _ \<Rightarrow> dir_write i (group_path (uf_format f) @ [ascii ''guidFormat'']) guid
       | _ \<Rightarrow> ret ()) (\<lambda>_.
     andthen (dir_write i (p @ [ascii ''wWidth'']) (dec (uf_width f))) (\<lambda>_.
     andthen (dir_write i (p @ [ascii ''wHeight'']) (dec (uf_height f))) (\<lambda>_.
     andthen (case bytes_per_line (uf_format f) (uf_width f) of
         Some bpl \<Rightarrow> dir_write i (p @ [ascii ''dwBytesPerLine'']) (dec bpl)
       | None \<Rightarrow> dir_write i (p @ [ascii ''dwMaxVideoFrameBufferSize'']) (dec (uf_width f * uf_height f * 2))) (\<lambda>_.
     andthen (dir_write i (p @ [ascii ''dwFrameInterval'']) (join_lines (map dec (intervals f)))) (\<lambda>_.
     case color_matching f of None \<Rightarrow> ret () | Some m \<Rightarrow> color_register i (uf_format f) m)))))))"

definition header_h :: "string \<Rightarrow> path" where
  "header_h s = [ascii s, ascii ''header'', ascii ''h'']"

definition class_h :: "string \<Rightarrow> string \<Rightarrow> path" where
  "class_h s sp = [ascii s, ascii ''class'', ascii sp, ascii ''h'']"

text \<open>The set of formats to link is iterated in some order, here that of the frames.\<close>

definition uvc_register :: "nat \<Rightarrow> UvcBuilder \<Rightarrow> (kstate, unit) prog" where
  "uvc_register i b =
    (if frames b = [] then raise (Custom InvalidInput (Text ''at least one frame must exist''))
     else if list_ex (\<lambda>f. intervals f = []) (frames b)
     then raise (Custom InvalidInput (Text ''at least one interval must exist for every frame''))
     else andthen (for_each (frame_register i) (frames b)) (\<lambda>_.
       andthen (dir_create_all i (header_h ''streaming'')) (\<lambda>_.
       andthen (dir_create_all i (header_h ''control'')) (\<lambda>_.
       andthen (for_each (\<lambda>f. dir_symlink i (group_path f) (header_link_path f)) (remdups (map uf_format (frames b)))) (\<lambda>_.
       andthen (for_each (\<lambda>(s, sp). dir_symlink i (header_h s) (class_h s sp)) [(''streaming'', ''fs''),
         (''streaming'', ''hs''), (''streaming'', ''ss''), (''control'', ''fs''), (''control'', ''ss'')]) (\<lambda>_.
       andthen (case processing_controls b of None \<Rightarrow> ret () | Some v \<Rightarrow> dir_write i [ascii ''control'',
         ascii ''processing'', ascii ''default'', ascii ''bmControls''] (dec v)) (\<lambda>_.
       andthen (case camera_controls b of None \<Rightarrow> ret () | Some v \<Rightarrow> dir_write i [ascii ''control'', ascii ''terminal'',
         ascii ''camera'', ascii ''default'', ascii ''bmControls''] (dec v)) (\<lambda>_.
       write_attrs i [(''streaming_interval'', map_option dec (streaming_interval b)),
         (''streaming_maxburst'', map_option dec (streaming_max_burst b)),
         (''streaming_maxpacket'', map_option dec (streaming_max_packet b))]))))))))"

definition remove_class_headers :: "path \<Rightarrow> (kstate, unit) prog" where
  "remove_class_headers p = andthen (read_dir p) (for_entries (\<lambda>e.
     let h = p @ [file_name e, ascii ''h''] in test_then (IsSymlink h) (unit_call (RemoveFile h))))"

text \<open>The entries of a directory that are directories and not links are removed.\<close>

definition remove_subdirs :: "path \<Rightarrow> (kstate, unit) prog" where
  "remove_subdirs g = andthen (read_dir g) (for_entries (\<lambda>e.
     let p = g @ [file_name e] in
     test_then (IsDir p) (andthen (test_call (IsSymlink p)) (\<lambda>l. whenp (\<not> l) (unit_call (RemoveDir p))))))"

definition remove_format_dirs :: "path \<Rightarrow> Format \<Rightarrow> (kstate, unit) prog" where
  "remove_format_dirs d f =
    (let hl = d @ header_link_path f; cm = d @ color_matching_path f; cl = d @ color_matching_link_path f;
         g = d @ group_path f in
     andthen (test_then (IsSymlink hl) (unit_call (RemoveFile hl))) (\<lambda>_.
     andthen (test_then (IsDir cm) (andthen (test_then (IsSymlink cl) (unit_call (RemoveFile cl))) (\<lambda>_.
       unit_call (RemoveDir cm)))) (\<lambda>_.
     test_then (IsDir g) (andthen (remove_subdirs g) (\<lambda>_. unit_call (RemoveDir g))))))"

definition remove_framebased :: "path \<Rightarrow> dir_entry \<Rightarrow> (kstate, unit) prog" where
  "remove_framebased d e =
    (let n = from_utf8_lossy (file_name e); hl = d @ [ascii ''streaming'', ascii ''header'', ascii ''h'', n];
         cm = d @ [ascii ''streaming'', ascii ''color_matching'', n];
         g = d @ [ascii ''streaming'', ascii ''framebased'', file_name e]; cl = g @ [ascii ''color_matching''] in
     andthen (test_then (IsSymlink hl) (unit_call (RemoveFile hl))) (\<lambda>_.
     andthen (test_then (IsSymlink cl) (unit_call (RemoveFile cl))) (\<lambda>_.
     andthen (test_then (IsDir cm) (unit_call (RemoveDir cm))) (\<lambda>_.
     test_then (IsDir g) (andthen (test_call (IsSymlink g)) (\<lambda>l. whenp (\<not> l)
       (andthen (remove_subdirs g) (\<lambda>_. unit_call (RemoveDir g)))))))))"

definition uvc_remove_handler :: "path \<Rightarrow> (kstate, unit) prog" where
  "uvc_remove_handler d =
    (let cc = d @ [ascii ''control'', ascii ''class'']; sc = d @ [ascii ''streaming'', ascii ''class''];
         fb = d @ [ascii ''streaming'', ascii ''framebased''] in
     andthen (test_then (IsDir cc) (remove_class_headers cc)) (\<lambda>_.
     andthen (test_then (IsDir sc) (remove_class_headers sc)) (\<lambda>_.
     andthen (test_then (IsDir (d @ [ascii ''streaming'']))
       (andthen (for_each (remove_format_dirs d) format_all) (\<lambda>_.
        test_then (IsDir fb) (andthen (read_dir fb) (for_entries (remove_framebased d)))))) (\<lambda>_.
     andthen (test_then (IsDir (d @ header_h ''streaming'')) (unit_call (RemoveDir (d @ header_h ''streaming'')))) (\<lambda>_.
     test_then (IsDir (d @ header_h ''control'')) (unit_call (RemoveDir (d @ header_h ''control''))))))))"

subsection \<open>Functions implemented in user space\<close>

definition default_ffs_dir :: "bytes \<Rightarrow> path" where
  "default_ffs_dir inst = [ascii ''dev'', ascii ''ffs-'' @ inst]"

definition custom_ffs_dir :: "nat \<Rightarrow> CustomBuilder \<Rightarrow> (kstate, path) prog" where
  "custom_ffs_dir i b = (case cb_ffs_dir b of
      Some d \<Rightarrow> ret d
    | None \<Rightarrow> andthen (instance_of i) (\<lambda>inst. ret (default_ffs_dir inst)))"

text \<open>A value channel carries one value; sending a second one makes the sender's \<^verbatim>\<open>unwrap\<close> panic.\<close>

definition send_once :: "nat \<Rightarrow> string \<Rightarrow> (kstate, unit) prog" where
  "send_once i ch = andthen (query (\<lambda>c. (i, ch) \<in> set (sent c))) (\<lambda>again.
     if again then panic else modify (\<lambda>c. c\<lparr>sent := (i, ch) # sent c\<rparr>))"

definition write_fd :: "path \<Rightarrow> bytes \<Rightarrow> string \<Rightarrow> (kstate, unit) prog" where
  "write_fd p v msg = andthen (syscall (WriteFd p v)) (\<lambda>r.
     if r = RCount (length v) then ret () else raise (Custom UnexpectedEof (Text msg)))"

fun open_endpoints :: "nat \<Rightarrow> path \<Rightarrow> nat \<Rightarrow> Endpoint list \<Rightarrow> path list \<Rightarrow> (kstate, path list) prog" where
  "open_endpoints i d k [] fs = ret fs"
| "open_endpoints i d k (e # es) fs =
    (let p = d @ [ascii ''ep'' @ fmt_dec (Suc k)] in
     andthen (unit_call (OpenFile p)) (\<lambda>_.
     andthen (unit_call (SetupAio p (queue_len (ep_direction e)))) (\<lambda>_.
     andthen (send_once i (''ep'' @ map (\<lambda>b. char_of (unat b)) (fmt_dec (Suc k)))) (\<lambda>_.
     open_endpoints i d (Suc k) es (fs @ [p])))))"

definition of_ffs :: "ffs_error + 'a \<Rightarrow> (kstate, 'a) prog" where
  "of_ffs r = (case r of Inl e \<Rightarrow> raise (ffs_io_error e) | Inr x \<Rightarrow> ret x)"

definition custom_init :: "nat \<Rightarrow> CustomBuilder \<Rightarrow> (kstate, unit) prog" where
  "custom_init i b =
    andthen (custom_ffs_dir i b) (\<lambda>d.
    andthen (if ffs_no_init b then ret () else
      andthen (of_result (ffs_descs b)) (\<lambda>(descs, strs).
      let p = d @ [ascii ''ep0''] in
      andthen (unit_call (OpenFile p)) (\<lambda>_.
      andthen (query linux_version) (\<lambda>ver.
      andthen (of_ffs (descs_to_bytes ver descs)) (\<lambda>db.
      andthen (write_fd p db ''short descriptor write'') (\<lambda>_.
      andthen (of_ffs (strings_to_bytes strs)) (\<lambda>sb.
      andthen (write_fd p sb ''short strings write'') (\<lambda>_.
      andthen (open_endpoints i d 0 (concat (map endpoints (interfaces b))) []) (\<lambda>eps.
      andthen (send_once i ''ep0'') (\<lambda>_.
      modify (\<lambda>c. c\<lparr>ep_files := (ep_files c)(i := eps @ [p])\<rparr>))))))))))) (\<lambda>_.
    send_once i ''ffs_dir''))"

fun join_opts :: "bytes list \<Rightarrow> bytes" where
  "join_opts [] = []"
| "join_opts [x] = x"
| "join_opts (x # xs) = x @ 44 # join_opts xs"

definition to_mount_data :: "CustomBuilder \<Rightarrow> bytes" where
  "to_mount_data b =
    (let opt = (\<lambda>n v. case v of None \<Rightarrow> [] | Some w \<Rightarrow> [ascii n @ dec w])
     in join_opts ((if ffs_no_disconnect b then [ascii ''no_disconnect=1''] else []) @
          opt ''rmode='' (ffs_root_mode b) @ opt ''fmode='' (ffs_file_mode b) @ opt ''uid='' (ffs_uid b) @
          opt ''gid='' (ffs_gid b)))"

definition custom_register :: "nat \<Rightarrow> CustomBuilder \<Rightarrow> (kstate, unit) prog" where
  "custom_register i b =
    (if ffs_no_mount b then ret ()
     else andthen (custom_ffs_dir i b) (\<lambda>d.
       andthen (attempt (unit_call (CreateDir d))) (\<lambda>r.
       andthen (case r of
           Inr _ \<Rightarrow> modify (\<lambda>c. c\<lparr>ffs_dir_created := (ffs_dir_created c)(i := True)\<rparr>)
         | Inl e \<Rightarrow> if kind e = AlreadyExists then ret () else raise e) (\<lambda>_.
       andthen (instance_of i) (\<lambda>inst.
       andthen (unit_call (MountFfs inst d (to_mount_data b))) (\<lambda>_.
       custom_init i b))))))"

definition custom_close :: "nat \<Rightarrow> (kstate, unit) prog" where
  "custom_close i = modify (\<lambda>c. c\<lparr>ep_files := (ep_files c)(i := [])\<rparr>)"

definition custom_post_removal :: "nat \<Rightarrow> CustomBuilder \<Rightarrow> (kstate, unit) prog" where
  "custom_post_removal i b = andthen (query (\<lambda>c. ffs_dir_created c i)) (\<lambda>created.
     whenp created (andthen (attempt (custom_ffs_dir i b)) (\<lambda>r. case r of
       Inr d \<Rightarrow> ignoring (unit_call (RemoveDir d)) | Inl _ \<Rightarrow> ret ())))"

definition custom_remove_handler :: "path \<Rightarrow> (kstate, unit) prog" where
  "custom_remove_handler dir = (case split_function_dir dir of
      None \<Rightarrow> raise (Custom InvalidInput (Text ''invalid configfs dir''))
    | Some (_, inst) \<Rightarrow> andthen mount_iter (for_entries (\<lambda>m.
        whenp (mnt_fstype m = ascii ''functionfs'' \<and> mnt_source m = inst)
          (andthen (attempt (unit_call (Umount (mnt_dest m) False))) (\<lambda>r.
           andthen (case r of Inl _ \<Rightarrow> unit_call (Umount (mnt_dest m) True) | Inr _ \<Rightarrow> ret ()) (\<lambda>_.
           whenp (mnt_dest m = default_ffs_dir inst) (ignoring (unit_call (RemoveDir (mnt_dest m)))))))))) "

subsection \<open>Any function\<close>

datatype func =
    SerialFunction SerialBuilder
  | NetFunction NetBuilder
  | MsdFunction MsdBuilder
  | HidFunction HidBuilder
  | LoopbackFunction LoopbackBuilder
  | MidiFunction MidiBuilder
  | PrinterFunction PrinterBuilder
  | SourceSinkFunction SourceSinkBuilder
  | OtherFunction OtherBuilder
  | Uac2Function Uac2Builder
  | Uac1Function Uac1Builder
  | UvcFunction UvcBuilder
  | CustomFunction CustomBuilder

fun driver :: "func \<Rightarrow> bytes" where
  "driver (SerialFunction b) = serial_driver (serial_class b)"
| "driver (NetFunction b) = net_driver (net_class b)"
| "driver (MsdFunction _) = ascii ''mass_storage''"
| "driver (HidFunction _) = ascii ''hid''"
| "driver (LoopbackFunction _) = ascii ''Loopback''"
| "driver (MidiFunction _) = ascii ''midi''"
| "driver (PrinterFunction _) = ascii ''printer''"
| "driver (SourceSinkFunction _) = ascii ''SourceSink''"
| "driver (OtherFunction b) = other_driver b"
| "driver (Uac2Function _) = ascii ''uac2''"
| "driver (Uac1Function _) = ascii ''uac1''"
| "driver (UvcFunction _) = ascii ''uvc''"
| "driver (CustomFunction _) = ascii ''ffs''"

text \<open>A handle is the address of a function; two handles are equal when the addresses are.\<close>

record Handle =
  addr :: nat
  fn :: func

definition func_register :: "Handle \<Rightarrow> (kstate, unit) prog" where
  "func_register h = (case fn h of
      SerialFunction b \<Rightarrow> serial_register (addr h) b
    | NetFunction b \<Rightarrow> net_register (addr h) b
    | MsdFunction b \<Rightarrow> msd_register (addr h) b
    | HidFunction b \<Rightarrow> hid_register (addr h) b
    | LoopbackFunction b \<Rightarrow> loopback_register (addr h) b
    | MidiFunction b \<Rightarrow> midi_register (addr h) b
    | PrinterFunction b \<Rightarrow> printer_register (addr h) b
    | SourceSinkFunction b \<Rightarrow> sourcesink_register (addr h) b
    | OtherFunction b \<Rightarrow> other_register (addr h) b
    | Uac2Function b \<Rightarrow> uac2_register (addr h) b
    | Uac1Function b \<Rightarrow> uac1_register (addr h) b
    | UvcFunction b \<Rightarrow> uvc_register (addr h) b
    | CustomFunction b \<Rightarrow> custom_register (addr h) b)"

definition pre_removal :: "Handle \<Rightarrow> (kstate, unit) prog" where
  "pre_removal h = (case fn h of CustomFunction _ \<Rightarrow> custom_close (addr h) | _ \<Rightarrow> ret ())"

definition post_removal :: "Handle \<Rightarrow> (kstate, unit) prog" where
  "post_removal h = (case fn h of CustomFunction b \<Rightarrow> custom_post_removal (addr h) b | _ \<Rightarrow> ret ())"

definition call_remove_handler :: "path \<Rightarrow> (kstate, unit) prog" where
  "call_remove_handler d = (case split_function_dir d of
      None \<Rightarrow> raise (Custom InvalidInput (Text ''invalid function directory''))
    | Some (drv, _) \<Rightarrow>
        if drv = ascii ''ffs'' then custom_remove_handler d
        else if drv = ascii ''mass_storage'' then msd_remove_handler d
        else if drv = ascii ''uvc'' then uvc_remove_handler d
        else ret ())"

end
