(* ===== verification/Configfs_Gadget.thy ===== *)
theory Configfs_Gadget
  imports Usb_Functions
begin

text \<open>
  Gadgets in configfs (\<^verbatim>\<open>patches/usb-gadget/src/gadget.rs\<close> and \<^verbatim>\<open>udc.rs\<close>): the definition of a gadget, its
  registration, binding to a device controller and removal, as programs over the kernel of \<open>Usb_Functions\<close>.  A
  gadget that is dropped while attached is removed, and so is one whose removal failed.
\<close>

unbundle bit_operations_syntax

subsection \<open>Gadgets\<close>

record Id =
  id_vendor :: "16 word"
  id_product :: "16 word"

record Strings =
  manufacturer :: bytes
  product :: bytes
  serial_number :: bytes

record OsDescriptor =
  vendor_code :: byte
  qw_sign :: bytes
  os_config :: nat

definition microsoft :: OsDescriptor where
  "microsoft = \<lparr>vendor_code = 0xf0, qw_sign = ascii ''MSFT100'', os_config = 0\<rparr>"

record WebUsb =
  wu_version :: "16 word"
  wu_vendor_code :: byte
  landing_page :: bytes

record Config =
  max_power :: "16 word"
  self_powered :: bool
  remote_wakeup :: bool
  description :: lang_strings
  cfg_functions :: "Handle list"

definition config_new :: "bytes \<Rightarrow> Config" where
  "config_new d = \<lparr>max_power = 500, self_powered = False, remote_wakeup = False,
     description = [(default_language, d)], cfg_functions = []\<rparr>"

datatype UsbVersion = V11 | V20 | V21 | V30 | V31 | OtherVersion "16 word"

fun usb_version_code :: "UsbVersion \<Rightarrow> 16 word" where
  "usb_version_code V11 = 0x0110"
| "usb_version_code V20 = 0x0200"
| "usb_version_code V21 = 0x0201"
| "usb_version_code V30 = 0x0300"
| "usb_version_code V31 = 0x0310"
| "usb_version_code (OtherVersion v) = v"

datatype Speed = UnknownSpeed | LowSpeed | FullSpeed | HighSpeed | SuperSpeed | SuperSpeedPlus

fun speed_text :: "Speed \<Rightarrow> bytes" where
  "speed_text UnknownSpeed = ascii ''UNKNOWN''"
| "speed_text LowSpeed = ascii ''low-speed''"
| "speed_text FullSpeed = ascii ''full-speed''"
| "speed_text HighSpeed = ascii ''high-speed''"
| "speed_text SuperSpeed = ascii ''super-speed''"
| "speed_text SuperSpeedPlus = ascii ''super-speed-plus''"

text \<open>Parsing a speed, the unknown one when no name matches.\<close>

definition parse_speed :: "bytes \<Rightarrow> Speed" where
  "parse_speed s = (case find (\<lambda>sp. speed_text sp = s) [LowSpeed, FullSpeed, HighSpeed, SuperSpeed, SuperSpeedPlus] of
     Some sp \<Rightarrow> sp | None \<Rightarrow> UnknownSpeed)"

record Gadget =
  gadget_name :: "bytes option"
  device_class :: Class
  gadget_id :: Id
  gadget_strings :: "(Language \<times> Strings) list"
  max_packet_size0 :: byte
  device_release :: "16 word"
  usb_version :: UsbVersion
  max_speed :: "Speed option"
  os_descriptor :: "OsDescriptor option"
  web_usb :: "WebUsb option"
  configs :: "Config list"

definition gadget_new :: "Class \<Rightarrow> Id \<Rightarrow> Strings \<Rightarrow> Gadget" where
  "gadget_new c i s = \<lparr>gadget_name = None, device_class = c, gadget_id = i,
     gadget_strings = [(default_language, s)], max_packet_size0 = 64, device_release = 0, usb_version = V20,
     max_speed = None, os_descriptor = None, web_usb = None, configs = []\<rparr>"

subsection \<open>Registration\<close>

fun find_configfs :: "mount_entry option list \<Rightarrow> path option" where
  "find_configfs [] = None"
| "find_configfs (None # ms) = find_configfs ms"
| "find_configfs (Some m # ms) = (if mnt_fstype m = ascii ''configfs'' then Some (mnt_dest m) else find_configfs ms)"

definition configfs_dir :: "(kstate, path) prog" where
  "configfs_dir = andthen mount_iter (\<lambda>ms. case find_configfs ms of
      Some p \<Rightarrow> ret p
    | None \<Rightarrow> raise (Custom NotFound (Text ''configfs is not mounted'')))"

definition usb_gadget_dir :: "(kstate, path) prog" where
  "usb_gadget_dir =
    andthen (ignoring (syscall (RequestModule ''libcomposite''))) (\<lambda>_.
    andthen configfs_dir (\<lambda>p.
    andthen (test_call (IsDir (p @ [ascii ''usb_gadget'']))) (\<lambda>there.
    if there then ret (p @ [ascii ''usb_gadget''])
    else raise (Custom NotFound (Text ''usb_gadget not found in configfs'')))))"

text \<open>A gadget without a name takes the first free number below 65536.\<close>

function auto_dir :: "path \<Rightarrow> nat \<Rightarrow> (kstate, path) prog" where
  "auto_dir base k =
    (let d = base @ [ascii ''usb-gadget'' @ fmt_dec k] in
     andthen (attempt (unit_call (CreateDir d))) (\<lambda>r. case r of
         Inr _ \<Rightarrow> ret d
       | Inl e \<Rightarrow>
          if kind e \<noteq> AlreadyExists then raise e
          else if k < 65535 then auto_dir base (k + 1)
          else raise (Custom OutOfMemory (Text ''USB gadgets exhausted''))))"
  by pat_completeness auto
termination
  by (relation "measure (\<lambda>(_, k). 65536 - k)") auto

declare auto_dir.simps [simp del]

definition write_at :: "path \<Rightarrow> string \<Rightarrow> bytes \<Rightarrow> (kstate, unit) prog" where
  "write_at d n v = unit_call (WriteFile (d @ [ascii n]) v)"

definition config_attributes :: "Config \<Rightarrow> byte" where
  "config_attributes g = push_bit 7 1 OR (if self_powered g then push_bit 6 1 else 0) OR
     (if remote_wakeup g then push_bit 5 1 else 0)"

text \<open>The directory of a function, by the address of its handle; a missing one panics.\<close>

definition link_function :: "path \<Rightarrow> (Handle \<times> path) list \<Rightarrow> Handle \<Rightarrow> (kstate, unit) prog" where
  "link_function d fds h = (case find (\<lambda>x. addr (fst x) = addr h) fds of
      None \<Rightarrow> panic
    | Some (_, fp) \<Rightarrow> unit_call (SymlinkAt fp (d @ [last fp])))"

definition config_register :: "path \<Rightarrow> (Handle \<times> path) list \<Rightarrow> nat \<times> Config \<Rightarrow> (kstate, unit) prog" where
  "config_register gd fds x =
    (let (idx, g) = x; d = gd @ [ascii ''configs'', ascii ''c.'' @ fmt_dec idx] in
     andthen (unit_call (CreateDir d)) (\<lambda>_.
     andthen (write_at d ''bmAttributes'' (hex_u8 (config_attributes g))) (\<lambda>_.
     andthen (write_at d ''MaxPower'' (dec (max_power g))) (\<lambda>_.
     andthen (for_each (\<lambda>(l, t). let ld = d @ [ascii ''strings'', hex_u16 l] in
       andthen (unit_call (CreateDir ld)) (\<lambda>_. write_at ld ''configuration'' t)) (description g)) (\<lambda>_.
     for_each (link_function d fds) (cfg_functions g))))))"

fun dedup :: "Handle list \<Rightarrow> Handle list \<Rightarrow> Handle list" where
  "dedup acc [] = acc"
| "dedup acc (h # hs) = dedup (if list_ex (\<lambda>x. addr x = addr h) acc then acc else acc @ [h]) hs"

definition func_dir_path :: "path \<Rightarrow> nat \<Rightarrow> Handle \<Rightarrow> path" where
  "func_dir_path d k h = d @ [ascii ''functions'',
     from_utf8_lossy (driver (fn h)) @ ascii ''.'' @ from_utf8_lossy (last d) @ ascii ''-'' @ fmt_dec k]"

definition register_function :: "path \<Rightarrow> nat \<times> Handle \<Rightarrow> (kstate, unit) prog" where
  "register_function d x =
    (let p = func_dir_path d (fst x) (snd x) in
     andthen (unit_call (CreateDir p)) (\<lambda>_.
     andthen (set_dir (addr (snd x)) p) (\<lambda>_. func_register (snd x))))"

definition write_strings :: "path \<Rightarrow> Language \<times> Strings \<Rightarrow> (kstate, unit) prog" where
  "write_strings d x =
    (let ld = d @ [ascii ''strings'', hex_u16 (fst x)] in
     andthen (unit_call (CreateDir ld)) (\<lambda>_.
     andthen (write_at ld ''manufacturer'' (manufacturer (snd x))) (\<lambda>_.
     andthen (write_at ld ''product'' (product (snd x))) (\<lambda>_.
     write_at ld ''serialnumber'' (serial_number (snd x))))))"

definition write_device :: "path \<Rightarrow> Gadget \<Rightarrow> (kstate, unit) prog" where
  "write_device d g = for_each (\<lambda>(n, v). write_at d n v)
     ([(''bDeviceClass'', hex_u8 (cl_class (device_class g))),
       (''bDeviceSubClass'', hex_u8 (cl_sub_class (device_class g))),
       (''bDeviceProtocol'', hex_u8 (cl_protocol (device_class g))),
       (''idVendor'', hex_u16 (id_vendor (gadget_id g))), (''idProduct'', hex_u16 (id_product (gadget_id g))),
       (''bMaxPacketSize0'', hex_u8 (max_packet_size0 g)), (''bcdDevice'', hex_u16 (device_release g)),
       (''bcdUSB'', hex_u16 (usb_version_code (usb_version g)))] @
      (case max_speed g of None \<Rightarrow> [] | Some s \<Rightarrow> [(''max_speed'', speed_text s)]))"

definition write_webusb :: "path \<Rightarrow> WebUsb \<Rightarrow> (kstate, unit) prog" where
  "write_webusb d w = (let wd = d @ [ascii ''webusb''] in test_then (IsDir wd)
     (for_each (\<lambda>(n, v). write_at wd n v) [(''bVendorCode'', hex_u8 (wu_vendor_code w)),
       (''bcdVersion'', hex_u16 (wu_version w)), (''landingPage'', landing_page w), (''use'', ascii ''1'')]))"

definition write_os_desc :: "path \<Rightarrow> nat \<Rightarrow> OsDescriptor \<Rightarrow> (kstate, unit) prog" where
  "write_os_desc d n o' = (let od = d @ [ascii ''os_desc''] in test_then (IsDir od)
     (andthen (for_each (\<lambda>(n, v). write_at od n v) [(''b_vendor_code'', hex_u8 (vendor_code o')),
         (''qw_sign'', qw_sign o'), (''use'', ascii ''1'')]) (\<lambda>_.
      if os_config o' < n
      then let c = ascii ''c.'' @ fmt_dec (os_config o' + 1) in
        unit_call (SymlinkAt (d @ [ascii ''configs'', c]) (od @ [c]))
      else raise (Custom InvalidInput (Text ''invalid configuration index in OS descriptor'')))))"

record RegGadget =
  reg_dir :: path
  attached :: bool
  func_dirs :: "(Handle \<times> path) list"

definition gadget_register :: "Gadget \<Rightarrow> (kstate, RegGadget) prog" where
  "gadget_register g =
    (if configs g = [] then raise (Custom InvalidInput (Text ''USB gadget must have at least one configuration''))
     else andthen usb_gadget_dir (\<lambda>base.
       andthen (case gadget_name g of
           Some n \<Rightarrow> andthen (unit_call (CreateDir (base @ [n]))) (\<lambda>_. ret (base @ [n]))
         | None \<Rightarrow> auto_dir base 0) (\<lambda>d.
       andthen (write_device d g) (\<lambda>_.
       andthen (case web_usb g of None \<Rightarrow> ret () | Some w \<Rightarrow> write_webusb d w) (\<lambda>_.
       andthen (for_each (write_strings d) (gadget_strings g)) (\<lambda>_.
       let hs = dedup [] (concat (map cfg_functions (configs g)));
           fds = map (\<lambda>(k, h). (h, func_dir_path d k h)) (List.enumerate 0 hs)
       in andthen (for_each (register_function d) (List.enumerate 0 hs)) (\<lambda>_.
          andthen (for_each (config_register d fds) (List.enumerate 1 (configs g))) (\<lambda>_.
          andthen (case os_descriptor g of None \<Rightarrow> ret () | Some o' \<Rightarrow> write_os_desc d (length (configs g)) o') (\<lambda>_.
          ret \<lparr>reg_dir = d, attached = True, func_dirs = fds\<rparr>)))))))))"

subsection \<open>Binding and removal\<close>

definition reg_name :: "RegGadget \<Rightarrow> bytes" where
  "reg_name r = last (reg_dir r)"

definition for_funcs :: "(Handle \<Rightarrow> (kstate, unit) prog) \<Rightarrow> RegGadget \<Rightarrow> (kstate, unit) prog" where
  "for_funcs f r = for_each (\<lambda>x. f (fst x)) (func_dirs r)"

definition reg_bind :: "RegGadget \<Rightarrow> bytes option \<Rightarrow> (kstate, unit) prog" where
  "reg_bind r udc =
    andthen (attempt (unit_call (WriteFile (reg_dir r @ [ascii ''UDC'']) (case udc of Some n \<Rightarrow> n | None \<Rightarrow> [10])))) (\<lambda>w.
    andthen (case w of
        Inr _ \<Rightarrow> ret ()
      | Inl e \<Rightarrow> if udc = None \<and> raw_os_error e = Some ENODEV then ret () else raise e) (\<lambda>_.
    for_funcs (\<lambda>h. set_bound (addr h) (udc \<noteq> None)) r))"

definition remove_links :: "path \<Rightarrow> (kstate, unit) prog" where
  "remove_links d = andthen (read_dir d) (for_entries (\<lambda>e. andthen (type_of e) (\<lambda>t.
     whenp (t = FLink) (unit_call (RemoveFile (d @ [file_name e]))))))"

definition remove_lang_dirs :: "path \<Rightarrow> (kstate, unit) prog" where
  "remove_lang_dirs d = andthen (read_dir d) (for_entries (\<lambda>e. andthen (type_of e) (\<lambda>t.
     whenp (t = FDir) (unit_call (RemoveDir (d @ [file_name e]))))))"

text \<open>The links of the operating-system descriptors: entries whose type cannot be read are passed over.\<close>

definition remove_os_links :: "path \<Rightarrow> (kstate, unit) prog" where
  "remove_os_links d = andthen (attempt (read_dir d)) (\<lambda>r. case r of
      Inl _ \<Rightarrow> ret ()
    | Inr es \<Rightarrow> for_entries (\<lambda>e. whenp (metadata e = Inr FLink) (unit_call (RemoveFile (d @ [file_name e])))) es)"

definition remove_config :: "path \<Rightarrow> dir_entry \<Rightarrow> (kstate, unit) prog" where
  "remove_config d e = andthen (type_of e) (\<lambda>t. let cd = d @ [file_name e] in
     whenp (t = FDir) (andthen (remove_links cd) (\<lambda>_.
       andthen (remove_lang_dirs (cd @ [ascii ''strings''])) (\<lambda>_. unit_call (RemoveDir cd)))))"

definition remove_function :: "path \<Rightarrow> dir_entry \<Rightarrow> (kstate, unit) prog" where
  "remove_function d e = andthen (type_of e) (\<lambda>t. let fd = d @ [file_name e] in
     whenp (t = FDir) (andthen (call_remove_handler fd) (\<lambda>_. unit_call (RemoveDir fd))))"

definition remove_at :: "path \<Rightarrow> (kstate, unit) prog" where
  "remove_at d =
    andthen (ignoring (unit_call (WriteFile (d @ [ascii ''UDC'']) [10]))) (\<lambda>_.
    andthen (remove_os_links (d @ [ascii ''os_desc''])) (\<lambda>_.
    andthen (andthen (read_dir (d @ [ascii ''configs''])) (for_entries (remove_config (d @ [ascii ''configs''])))) (\<lambda>_.
    andthen (andthen (read_dir (d @ [ascii ''functions''])) (for_entries (remove_function (d @ [ascii ''functions''])))) (\<lambda>_.
    andthen (remove_lang_dirs (d @ [ascii ''strings''])) (\<lambda>_.
    unit_call (RemoveDir d))))))"

definition do_remove :: "RegGadget \<Rightarrow> (kstate, unit) prog" where
  "do_remove r =
    andthen (for_funcs pre_removal r) (\<lambda>_.
    andthen (for_funcs (\<lambda>h. set_bound (addr h) False) r) (\<lambda>_.
    andthen (remove_at (reg_dir r)) (\<lambda>_.
    andthen (for_funcs (\<lambda>h. reset_dir (addr h)) r) (\<lambda>_.
    for_funcs post_removal r))))"

text \<open>
  \<open>remove\<close> consumes the gadget: when the removal failed it is still attached, and dropping it tries again.
  Dropping an attached gadget removes it.
\<close>

definition drop_reg :: "RegGadget \<Rightarrow> (kstate, unit) prog" where
  "drop_reg r = whenp (attached r) (ignoring (do_remove r))"

definition reg_remove :: "RegGadget \<Rightarrow> (kstate, unit) prog" where
  "reg_remove r = andthen (attempt (do_remove r)) (\<lambda>x. case x of
      Inr _ \<Rightarrow> ret ()
    | Inl e \<Rightarrow> andthen (drop_reg r) (\<lambda>_. raise e))"

fun gadget_list :: "path \<Rightarrow> dir_entry option list \<Rightarrow> (kstate, RegGadget list) prog" where
  "gadget_list base [] = ret []"
| "gadget_list base (None # es) = gadget_list base es"
| "gadget_list base (Some e # es) = andthen (type_of e) (\<lambda>t. andthen (gadget_list base es) (\<lambda>rest.
     ret (if t = FDir then \<lparr>reg_dir = base @ [file_name e], attached = False, func_dirs = []\<rparr> # rest else rest)))"

definition registered :: "(kstate, RegGadget list) prog" where
  "registered = andthen usb_gadget_dir (\<lambda>base. andthen (read_dir base) (gadget_list base))"

fun remove_each :: "(io_error + unit) \<Rightarrow> RegGadget list \<Rightarrow> (kstate, unit) prog" where
  "remove_each res [] = of_result res"
| "remove_each res (r # rs) = andthen (attempt (reg_remove r)) (\<lambda>x. remove_each (case x of Inl e \<Rightarrow> Inl e | Inr _ \<Rightarrow> res) rs)"

definition remove_all :: "(kstate, unit) prog" where
  "remove_all = andthen registered (remove_each (Inr ()))"

fun unbind_each :: "(io_error + unit) \<Rightarrow> RegGadget list \<Rightarrow> (kstate, unit) prog" where
  "unbind_each res [] = of_result res"
| "unbind_each res (r # rs) = andthen (attempt (reg_bind r None)) (\<lambda>x. unbind_each (case x of Inl e \<Rightarrow> Inl e | Inr _ \<Rightarrow> res) rs)"

definition unbind_all :: "(kstate, unit) prog" where
  "unbind_all = andthen registered (unbind_each (Inr ()))"

subsection \<open>Device controllers\<close>

definition udcs :: "(kstate, path list) prog" where
  "udcs =
    andthen (test_call (IsDir [ascii ''sys'', ascii ''class''])) (\<lambda>sysfs.
    if \<not> sysfs then raise (Custom NotFound (Text ''sysfs is not available''))
    else let d = [ascii ''sys'', ascii ''class'', ascii ''udc''] in
      andthen (test_call (IsDir d)) (\<lambda>there.
      if \<not> there then ret []
      else andthen (read_dir d) (\<lambda>es. ret (map (\<lambda>e. d @ [file_name e]) (List.map_filter (\<lambda>e. e) es)))))"

definition udc_max_speed :: "path \<Rightarrow> (kstate, Speed) prog" where
  "udc_max_speed u = andthen (syscall (ReadFile (u @ [ascii ''maximum_speed'']))) (\<lambda>r.
     case (case r of RBytes b \<Rightarrow> from_utf8 b | _ \<Rightarrow> None) of
       Some s \<Rightarrow> ret (parse_speed (trim s))
     | None \<Rightarrow> raise (Custom InvalidData (Text ''stream did not contain valid UTF-8'')))"

end
