(* ===== verification/Spec2Isabelle.thy ===== *)
theory Spec2Isabelle
  imports Dfu_Gadget Fastboot_Tcp_Spec Fastboot_Usb_Spec Ipc_Progress System_Info Configfs_Gadget
begin

text \<open>
  A verification library for \<^verbatim>\<open>summit-usbgadget\<close>, a daemon that turns a board into a USB gadget and lets a host
  update its firmware.  All paths below are relative to \<^verbatim>\<open>src/\<close>.

  \<^bold>\<open>The program.\<close>  Three transports bring a firmware image to the board: DFU control transfers
  (\<^verbatim>\<open>crates/summit-usbgadget-dfu\<close>), fastboot on USB bulk endpoints (\<^verbatim>\<open>crates/summit-usbgadget-fastboot-usb\<close>)
  and fastboot on TCP (\<^verbatim>\<open>crates/summit-usbgadget-fastboot-tcp\<close>), the last two with the vocabulary of
  \<^verbatim>\<open>crates/summit-usbgadget-fastboot-proto\<close>.  The USB transports serve endpoint zero of a FunctionFS function through
  the loop of \<^verbatim>\<open>crates/summit-usbgadget-usb/src/functionfs.rs\<close> and the patched \<^verbatim>\<open>usb-gadget\<close> crate
  (\<^verbatim>\<open>patches/usb-gadget\<close>).  Every transport feeds a \<open>SwupdateSession\<close> (\<^verbatim>\<open>crates/summit-usbgadget-swupdate\<close>): a bounded
  queue of blocks, a drain task that writes them to the SWUpdate daemon and hands the buffers back, and a status
  task that waits for the verdict, which the IPC client (\<^verbatim>\<open>crates/swupdate-ipc\<close>) reads from the daemon's sockets.

  \<^bold>\<open>Shared theories.\<close>
  \<^item> \<open>Gadget_Prelude\<close>: bytes, integers in memory, \<^verbatim>\<open>std::io::Error\<close>, outcomes (Ok, Err or a panic), error texts.
  \<^item> \<open>Rust_Str\<close>: the string library on byte lists (UTF-8 validation, trimming, splitting, integers).
  \<^item> \<open>Bytes_Mut\<close>: the buffers of \<^verbatim>\<open>vendor/bytes\<close> as contents and capacity.
  \<^item> \<open>Crc32\<close>: the hasher of \<^verbatim>\<open>vendor/crc32fast\<close>; the locale \<open>stream_hasher\<close> is what a client needs of a running hash,
    interpreted by it.
  \<^item> \<open>Async_Io\<close>: programs of one task as state transformers (\<open>prog\<close>), a socket as a script of arrivals and write
    outcomes, the session as its sink, and the calculus \<open>wp\<close>/\<open>returns\<close>.  At every await point a schedule lets the
    other tasks make any steps.

  \<^bold>\<open>The firmware sink.\<close>
  \<^item> \<open>Block_Channel\<close>: queue, drain task and status task (\<^verbatim>\<open>stream.rs\<close>) with every interleaving of their steps; the
    locale \<open>block_channel\<close> is what a feeder may rely on.  What was written, plus what is under way, is what was
    queued, in order.
  \<^item> \<open>Boot_Info\<close>: how the board booted and which slot is inactive (\<^verbatim>\<open>sysinfo/runtime.rs\<close>).
  \<^item> \<open>Swupdate_Session\<close>: the session (\<^verbatim>\<open>lib.rs\<close>) and the reboot latch (\<^verbatim>\<open>restart.rs\<close>); the locale
    \<open>firmware_sink\<close> is the contract the transports use.  \<open>Healthy_Sink\<close>: runs without failures.
  \<^item> \<open>Ipc_Wire\<close>, \<open>Ipc_Client\<close>, \<open>Ipc_Progress\<close>: the frames of the IPC interface with their C layout, the client of the
    control socket, the wait on the progress socket and the install transport (\<^verbatim>\<open>ipc.rs\<close>).

  \<^bold>\<open>DFU.\<close>
  \<^item> \<open>Dfu_Protocol\<close>, \<open>Dfu_Handler\<close>: states, statuses and requests (\<^verbatim>\<open>protocol.rs\<close>), and the state machine with every
    request, the verdict poll and the timeout (\<^verbatim>\<open>handler.rs\<close>).
  \<^item> \<open>Dfu_Transfer\<close>: whole transfers by hosts, as sequences of requests with arbitrary steps of the other tasks between
    them: integrity, service of a compliant host, failures, aborts, uploads.
  \<^item> \<open>Functionfs\<close>: endpoint zero and the event loop; the locale \<open>ep0_handler\<close> is what the loop needs of a function.
    \<open>Dfu_Gadget\<close>: the DFU function on it (\<^verbatim>\<open>gadget.rs\<close>), an interpretation of the locale.

  \<^bold>\<open>Fastboot.\<close>
  \<^item> \<open>Fastboot_Proto\<close>: parser, replies, data headers.
  \<^item> \<open>Fastboot_Tcp\<close>, \<open>Fastboot_Data\<close>, \<open>Fastboot_Tcp_Spec\<close>: framing, session and listener; the data phase; the
    properties.
  \<^item> \<open>Fastboot_Usb\<close>, \<open>Fastboot_Usb_Spec\<close>: the bulk data loop, its commands and the control plane (a second
    interpretation of \<open>ep0_handler\<close>); the properties.

  \<^bold>\<open>What is shown.\<close>  For each transport: the bytes of a download reach the session complete, in order and once, and the
  host gets the reply that says so; with a sink that does not fail the download completes; nothing a host sends makes
  the service panic or end; failures are reported and the state starts over.  For the sink: what SWUpdate reads is
  what was fed, sends complete, aborts drain, verdicts are remembered, the reboot latch refuses updates.  For the IPC
  client: the daemon reads the request that was made, and the wait returns the verdict the daemon gave.  The round
  trips of the encodings and the bounds of the buffers are proved beside them.

  \<^bold>\<open>Bounds.\<close>  Loops over input that may not end take a bound on their turns and return None when it is used up; None
  is also a task that waits for ever.  Liveness properties give the bound: a turn takes something from a script, a
  queue or the attempts to come, so one turn more than its length is enough.  Times are milliseconds; block sizes,
  lengths and counters that the code keeps in machine words wrap or saturate where the code does.

  \<^bold>\<open>Not modelled.\<close>  The kernel, SWUpdate and the hosts are environments: scripts and schedules over which the properties
  quantify.  Code that only issues file-system or system calls is not modelled: the configfs tree and UDC handling of
  \<^verbatim>\<open>patches/usb-gadget\<close>, asynchronous I/O contexts, TLS set-up, the raw updater pipe, the JSON configuration (serde)
  and logging.  The gadget's function types other than the FunctionFS ones only write attribute files.  The blocking
  variant of the IPC client repeats the asynchronous one for other programs.
\<close>

end
